(* ===== verification/Uringio_Prelude.thy ===== *)
theory Uringio_Prelude
  imports Main "HOL-Library.Word"
begin

text \<open>
  Shared vocabulary of the development: the C integer casts the sources of uringio use, the
  encoding of a request index into the 64-bit \<^verbatim>\<open>user_data\<close> of an SQE and back, the collections
  of facts the component proofs are carried by, and a few generic facts on lists.

  A C \<^verbatim>\<open>int\<close> is an \<^typ>\<open>int\<close> with the conversions written out where the code converts
  (\<open>c_int\<close> is the cast \<^verbatim>\<open>(int)x\<close>); fields that the code combines bit by bit (the flags, the
  buffer group, the user data of an SQE) are words.
\<close>

unbundle bit_operations_syntax

named_theorems heap_simps \<open>evaluation of allocation, release and reference counting\<close>
named_theorems ring_simps \<open>evaluation of the ring and of the submission tail\<close>
named_theorems op_defs \<open>definitions of the submission wrappers\<close>

type_synonym u8 = "8 word"
type_synonym u16 = "16 word"
type_synonym u32 = "32 word"
type_synonym u64 = "64 word"

section \<open>C integers\<close>

definition c_int :: "int \<Rightarrow> int" where
  "c_int x = signed_take_bit 31 x"

definition c_int_range :: "int \<Rightarrow> bool" where
  "c_int_range x \<longleftrightarrow> - (2 ^ 31) \<le> x \<and> x < 2 ^ 31"

lemma c_int_id [simp]: "c_int_range x \<Longrightarrow> c_int x = x"
  by (simp add: c_int_def c_int_range_def signed_take_bit_int_eq_self_iff)

lemma c_int_range_c_int [simp]: "c_int_range (c_int x)"
  using signed_take_bit_int_greater_eq_minus_exp [of 31 x] signed_take_bit_int_less_exp [of 31 x]
  by (simp add: c_int_def c_int_range_def)

lemma c_int_numeral_small [simp]: "c_int 0 = 0" "c_int 1 = 1" "c_int (- 1) = - 1"
  by (simp_all add: c_int_def)

lemma c_int_rangeI: "0 \<le> x \<Longrightarrow> x < 2 ^ 31 \<Longrightarrow> c_int_range x"
  by (simp add: c_int_range_def)

section \<open>Request indices and user data\<close>

text \<open>
  \<^verbatim>\<open>(void *)(uintptr_t)request_idx\<close> on the way to the kernel, \<^verbatim>\<open>(int)(uintptr_t)cqe->user_data\<close>
  on the way back.
\<close>

definition idx_to_data :: "int \<Rightarrow> u64" where
  "idx_to_data i = word_of_int i"

definition data_to_idx :: "u64 \<Rightarrow> int" where
  "data_to_idx d = c_int (uint d)"

lemma data_to_idx_to_data: "data_to_idx (idx_to_data i) = c_int i"
  by (simp add: data_to_idx_def idx_to_data_def c_int_def uint_word_of_int_eq
      signed_take_bit_take_bit)

lemma idx_roundtrip [simp]: "c_int_range i \<Longrightarrow> data_to_idx (idx_to_data i) = i"
  by (simp add: data_to_idx_to_data)

lemma idx_to_data_inj: "c_int_range i \<Longrightarrow> c_int_range j \<Longrightarrow> idx_to_data i = idx_to_data j \<longleftrightarrow> i = j"
  by (metis idx_roundtrip)

section \<open>Lists\<close>

lemma take_Suc_update_last:
  "n < length xs \<Longrightarrow> take (Suc n) (xs[n := x]) = take n xs @ [x]"
  by (simp add: take_Suc_conv_app_nth)

lemma list_all_nth_update:
  "(\<And>j. j < length xs \<Longrightarrow> j \<noteq> i \<Longrightarrow> P (xs ! j)) \<Longrightarrow> P x \<Longrightarrow> j < length xs \<Longrightarrow> P (xs[i := x] ! j)"
  by (cases "i = j") auto

end
