(* ===== verification/C_Heap.thy ===== *)
theory C_Heap
  imports Uringio_Prelude
begin

text \<open>
  The memory discipline of the extension: blocks of \<^verbatim>\<open>malloc\<close>/\<^verbatim>\<open>calloc\<close> and of
  \<^verbatim>\<open>PyMem_Malloc\<close>, reference counts of Python objects, and the \<^verbatim>\<open>Py_buffer\<close> views that are
  held. A block, an object and a view are named by a number. An allocation may fail
  (\<open>h_oom\<close> says which ones do), the contents of a fresh block are indeterminate (\<open>h_junk\<close>),
  and a release of something that is not held, or a decrement of a count that is not positive,
  is recorded as a fault instead of being hidden.
\<close>

datatype fault =
    BadFree nat        \<comment> \<open>\<^verbatim>\<open>free\<close> or \<^verbatim>\<open>PyMem_Free\<close> of a block that is not live\<close>
  | BadDecref nat      \<comment> \<open>\<^verbatim>\<open>Py_DECREF\<close> of an object with no reference left\<close>
  | BadRelease nat     \<comment> \<open>\<^verbatim>\<open>PyBuffer_Release\<close> of a view that is not held\<close>
  | NullDeref          \<comment> \<open>a dereference of a null pointer\<close>
  | OutOfBounds        \<comment> \<open>an access outside of its array\<close>
  | DivByZero          \<comment> \<open>an integer division by zero\<close>
  | Indeterminate      \<comment> \<open>a use of an uninitialised value\<close>

record heap =
  h_next :: nat
  h_live :: "nat set"
  h_pymem :: "nat set"
  h_oom :: "nat \<Rightarrow> bool"
  h_junk :: "nat \<Rightarrow> nat \<Rightarrow> int"
  h_ref :: "nat \<Rightarrow> int"
  h_views :: "nat set"
  h_faults :: "fault list"

definition heap_wf :: "heap \<Rightarrow> bool" where
  "heap_wf h \<longleftrightarrow> (\<forall>a \<in> h_live h \<union> h_pymem h \<union> h_views h. a < h_next h)"

definition add_fault :: "fault \<Rightarrow> heap \<Rightarrow> heap" where
  "add_fault f h = h\<lparr>h_faults := h_faults h @ [f]\<rparr>"

text \<open>A request for more than \<^verbatim>\<open>PTRDIFF_MAX\<close> bytes fails.\<close>

definition alloc_max :: int where
  "alloc_max = 2 ^ 63 - 1"

definition c_malloc :: "int \<Rightarrow> heap \<Rightarrow> nat option \<times> heap" where
  "c_malloc sz h =
     (if alloc_max < sz \<or> h_oom h (h_next h) then (None, h\<lparr>h_next := Suc (h_next h)\<rparr>)
      else (Some (h_next h),
        h\<lparr>h_next := Suc (h_next h), h_live := insert (h_next h) (h_live h)\<rparr>))"

definition pymem_malloc :: "int \<Rightarrow> heap \<Rightarrow> nat option \<times> heap" where
  "pymem_malloc sz h =
     (if alloc_max < sz \<or> h_oom h (h_next h) then (None, h\<lparr>h_next := Suc (h_next h)\<rparr>)
      else (Some (h_next h),
        h\<lparr>h_next := Suc (h_next h), h_pymem := insert (h_next h) (h_pymem h)\<rparr>))"

text \<open>Releasing a null pointer does nothing.\<close>

fun c_free :: "nat option \<Rightarrow> heap \<Rightarrow> heap" where
  "c_free None h = h"
| "c_free (Some a) h =
     (if a \<in> h_live h then h\<lparr>h_live := h_live h - {a}\<rparr> else add_fault (BadFree a) h)"

fun pymem_free :: "nat option \<Rightarrow> heap \<Rightarrow> heap" where
  "pymem_free None h = h"
| "pymem_free (Some a) h =
     (if a \<in> h_pymem h then h\<lparr>h_pymem := h_pymem h - {a}\<rparr> else add_fault (BadFree a) h)"

definition py_incref :: "nat \<Rightarrow> heap \<Rightarrow> heap" where
  "py_incref ob h = h\<lparr>h_ref := (h_ref h)(ob := h_ref h ob + 1)\<rparr>"

definition py_decref :: "nat \<Rightarrow> heap \<Rightarrow> heap" where
  "py_decref ob h =
     (if h_ref h ob \<le> 0 then add_fault (BadDecref ob) h
      else h\<lparr>h_ref := (h_ref h)(ob := h_ref h ob - 1)\<rparr>)"

fun py_xincref :: "nat option \<Rightarrow> heap \<Rightarrow> heap" where
  "py_xincref None h = h"
| "py_xincref (Some ob) h = py_incref ob h"

fun py_xdecref :: "nat option \<Rightarrow> heap \<Rightarrow> heap" where
  "py_xdecref None h = h"
| "py_xdecref (Some ob) h = py_decref ob h"

definition pybuffer_release :: "nat \<Rightarrow> heap \<Rightarrow> heap" where
  "pybuffer_release v h =
     (if v \<in> h_views h then h\<lparr>h_views := h_views h - {v}\<rparr> else add_fault (BadRelease v) h)"

text \<open>A heap on which nothing has been allocated and no allocation fails.\<close>

definition init_heap :: heap where
  "init_heap =
     \<lparr>h_next = 0, h_live = {}, h_pymem = {}, h_oom = (\<lambda>_. False), h_junk = (\<lambda>_ _. 0), h_ref = (\<lambda>_. 0),
      h_views = {}, h_faults = []\<rparr>"

section \<open>Evaluation and frames\<close>

lemma init_heap_wf [simp]: "heap_wf init_heap"
  by (simp add: heap_wf_def init_heap_def)

lemma add_fault_simps [simp, heap_simps]:
  "h_next (add_fault f h) = h_next h" "h_live (add_fault f h) = h_live h"
  "h_pymem (add_fault f h) = h_pymem h" "h_oom (add_fault f h) = h_oom h"
  "h_junk (add_fault f h) = h_junk h" "h_ref (add_fault f h) = h_ref h"
  "h_views (add_fault f h) = h_views h" "h_faults (add_fault f h) = h_faults h @ [f]"
  by (simp_all add: add_fault_def)

lemma c_malloc_SomeD:
  "c_malloc sz h = (Some a, h') \<Longrightarrow>
     a = h_next h \<and> h' = h\<lparr>h_next := Suc (h_next h), h_live := insert (h_next h) (h_live h)\<rparr>"
  by (auto simp: c_malloc_def split: if_splits)

lemma c_malloc_NoneD: "c_malloc sz h = (None, h') \<Longrightarrow> h' = h\<lparr>h_next := Suc (h_next h)\<rparr>"
  by (auto simp: c_malloc_def split: if_splits)

lemma pymem_malloc_SomeD:
  "pymem_malloc sz h = (Some a, h') \<Longrightarrow>
     a = h_next h \<and> h' = h\<lparr>h_next := Suc (h_next h), h_pymem := insert (h_next h) (h_pymem h)\<rparr>"
  by (auto simp: pymem_malloc_def split: if_splits)

lemma pymem_malloc_NoneD: "pymem_malloc sz h = (None, h') \<Longrightarrow> h' = h\<lparr>h_next := Suc (h_next h)\<rparr>"
  by (auto simp: pymem_malloc_def split: if_splits)

lemma heap_wf_fresh: "heap_wf h \<Longrightarrow> h_next h \<notin> h_live h \<and> h_next h \<notin> h_pymem h \<and> h_next h \<notin> h_views h"
  by (auto simp: heap_wf_def)

lemma heap_wf_fresh_ge:
  assumes "heap_wf h"
  shows "\<forall>n \<ge> h_next h. n \<notin> h_live h \<and> n \<notin> h_pymem h \<and> n \<notin> h_views h"
  using assms unfolding heap_wf_def by (meson UnCI linorder_not_less)

lemma heap_wf_c_free [simp]: "heap_wf h \<Longrightarrow> heap_wf (c_free p h)"
  by (cases p) (auto simp: heap_wf_def)

lemma heap_wf_pymem_free [simp]: "heap_wf h \<Longrightarrow> heap_wf (pymem_free p h)"
  by (cases p) (auto simp: heap_wf_def)

lemma py_decref_positive [simp, heap_simps]:
  "0 < h_ref h ob \<Longrightarrow> py_decref ob h = h\<lparr>h_ref := (h_ref h)(ob := h_ref h ob - 1)\<rparr>"
  by (simp add: py_decref_def)

lemma py_incref_decref [simp]: "0 \<le> h_ref h ob \<Longrightarrow> py_decref ob (py_incref ob h) = h"
  by (simp add: py_incref_def)

lemma py_incref_fields [simp, heap_simps]:
  "h_next (py_incref ob h) = h_next h" "h_live (py_incref ob h) = h_live h"
  "h_pymem (py_incref ob h) = h_pymem h" "h_oom (py_incref ob h) = h_oom h"
  "h_views (py_incref ob h) = h_views h" "h_faults (py_incref ob h) = h_faults h"
  "h_junk (py_incref ob h) = h_junk h"
  "h_ref (py_incref ob h) x = (if x = ob then h_ref h ob + 1 else h_ref h x)"
  by (simp_all add: py_incref_def)

lemma py_decref_fields [simp, heap_simps]:
  "h_next (py_decref ob h) = h_next h" "h_live (py_decref ob h) = h_live h"
  "h_pymem (py_decref ob h) = h_pymem h" "h_oom (py_decref ob h) = h_oom h"
  "h_views (py_decref ob h) = h_views h" "h_junk (py_decref ob h) = h_junk h"
  by (simp_all add: py_decref_def)

lemma py_xincref_fields [simp, heap_simps]:
  "h_next (py_xincref p h) = h_next h" "h_live (py_xincref p h) = h_live h"
  "h_pymem (py_xincref p h) = h_pymem h" "h_oom (py_xincref p h) = h_oom h"
  "h_views (py_xincref p h) = h_views h" "h_faults (py_xincref p h) = h_faults h"
  "h_junk (py_xincref p h) = h_junk h"
  "h_ref (py_xincref p h) x = h_ref h x + (if p = Some x then 1 else 0)"
  by (cases p; simp)+

lemma py_xdecref_fields [simp, heap_simps]:
  "h_next (py_xdecref p h) = h_next h" "h_live (py_xdecref p h) = h_live h"
  "h_pymem (py_xdecref p h) = h_pymem h" "h_oom (py_xdecref p h) = h_oom h"
  "h_views (py_xdecref p h) = h_views h" "h_junk (py_xdecref p h) = h_junk h"
  by (cases p; simp)+

end
