(* ===== verification/Buffers.thy ===== *)
theory Buffers
  imports C_Heap
begin

text \<open>
  \<^verbatim>\<open>src/python_api/buffers/\<close>: the payload of a request. A \<open>BufferPayload\<close> is a \<^verbatim>\<open>malloc\<close> block
  that points to an array of linear buffers, to a vector of iovecs, or to both; the buffers
  themselves were allocated by the extension (\<open>PAYLOAD_RUNTIME\<close>) or belong to Python objects
  whose views are held (\<open>PAYLOAD_USER\<close>). A pointer to an array is its block together with the
  contents; \<open>None\<close> is the null pointer.
\<close>

datatype BufferMode = NORMAL_BUF | FIXED | PROVIDED | BUF_RING | BUF_NO_VAL

datatype PayloadOrigin = PAYLOAD_USER | PAYLOAD_RUNTIME | ORIGIN_NO_VAL

datatype PayloadType =
  PAYLOAD_LINEAR | PAYLOAD_IOVEC | PAYLOAD_LINEAR_AND_IOVEC | PAYLOAD_TYPE_NO_VAL

record LinearBuffer =
  lb_buffer :: "nat option"
  lb_len :: int
  lb_views :: "(nat \<times> nat list) option"

record iovec =
  iov_base :: "nat option"
  iov_len :: int

record VectoredBuffer =
  vb_addr :: nat
  vb_iovecs :: "nat \<times> iovec list"
  vb_nr_vecs :: int
  vb_views :: "(nat \<times> nat list) option"

record BufferPayload =
  payload_type :: PayloadType
  payload_origin :: PayloadOrigin
  bp_mode :: BufferMode
  bp_amount :: int
  bp_linear :: "(nat \<times> LinearBuffer list) option"
  bp_vector :: "VectoredBuffer option"
  idx_registry :: "nat option"
  bp_buf_idx :: int
  bp_bgid :: int
  bp_buf_ring :: "nat option"

record BufferMetadata =
  bm_payload_origin :: PayloadOrigin
  bm_payload_type :: PayloadType
  bm_mode :: BufferMode
  bm_amount :: int
  bm_bufsize :: int

text \<open>
  What the functions read of a Python argument: whether it is a sequence, whether it can be
  iterated, its length (negative when \<^verbatim>\<open>PySequence_Length\<close> raises), its \<^verbatim>\<open>Py_SIZE\<close>, and for each
  item whether it exports a contiguous buffer and which one.
\<close>

datatype pyitem = NoBuffer | HasBuffer nat int

record pyseq =
  sq_check :: bool
  sq_iterable :: bool
  sq_length :: int
  sq_size :: int
  sq_items :: "pyitem list"

text \<open>The indeterminate contents of blocks that are not initialised.\<close>

record junk =
  j_payload :: BufferPayload
  j_views :: "(nat \<times> nat list) option"

text \<open>The memory of \<^verbatim>\<open>memset(p, 0, sizeof *p)\<close>.\<close>

definition zero_payload :: BufferPayload where
  "zero_payload =
     \<lparr>payload_type = PAYLOAD_LINEAR, payload_origin = PAYLOAD_USER, bp_mode = NORMAL_BUF,
      bp_amount = 0, bp_linear = None, bp_vector = None, idx_registry = None,
      bp_buf_idx = 0, bp_bgid = 0, bp_buf_ring = None\<rparr>"

definition size_mul :: "int \<Rightarrow> int \<Rightarrow> int" where
  "size_mul n x = (n * (x mod 2 ^ 64)) mod 2 ^ 64"

definition seq_get_item :: "pyseq \<Rightarrow> nat \<Rightarrow> pyitem option" where
  "seq_get_item ob i = (if sq_check ob \<and> i < length (sq_items ob) then Some (sq_items ob ! i) else None)"

text \<open>\<^verbatim>\<open>PyObject_GetBuffer\<close>: the view that is now held, its buffer and its length.\<close>

fun get_buffer :: "pyitem \<Rightarrow> heap \<Rightarrow> (nat \<times> nat \<times> int) option \<times> heap" where
  "get_buffer NoBuffer h = (None, h)"
| "get_buffer (HasBuffer a n) h =
     (Some (h_next h, a, n),
      h\<lparr>h_next := Suc (h_next h), h_views := insert (h_next h) (h_views h)\<rparr>)"

section \<open>Release\<close>

text \<open>The loops that release the first \<open>n\<close> elements of an array.\<close>

definition pymem_free_range :: "nat option list \<Rightarrow> int \<Rightarrow> heap \<Rightarrow> heap" where
  "pymem_free_range ps n h =
     (if n \<le> int (length ps) then fold pymem_free (take (nat n) ps) h
      else add_fault OutOfBounds (fold pymem_free ps h))"

definition release_range :: "nat list \<Rightarrow> int \<Rightarrow> heap \<Rightarrow> heap" where
  "release_range vs n h =
     (if n \<le> int (length vs) then fold pybuffer_release (take (nat n) vs) h
      else add_fault OutOfBounds (fold pybuffer_release vs h))"

fun release_views :: "(nat \<times> nat list) option \<Rightarrow> int \<Rightarrow> heap \<Rightarrow> heap" where
  "release_views None n h = h"
| "release_views (Some (va, vs)) n h = pymem_free (Some va) (release_range vs n h)"

definition free_linear :: "BufferPayload \<Rightarrow> heap \<Rightarrow> heap" where
  "free_linear p h =
     (case bp_linear p of
        None \<Rightarrow> h
      | Some (la, bufs) \<Rightarrow>
          (let h1 = (if payload_origin p = PAYLOAD_RUNTIME
                     then pymem_free_range (map lb_buffer bufs) (bp_amount p) h else h);
               h2 = (case bufs of
                       [] \<Rightarrow> add_fault OutOfBounds h1
                     | b # _ \<Rightarrow> release_views (lb_views b) (bp_amount p) h1)
           in pymem_free (Some la) h2))"

definition free_vector :: "BufferPayload \<Rightarrow> heap \<Rightarrow> heap" where
  "free_vector p h =
     (case bp_vector p of
        None \<Rightarrow> h
      | Some v \<Rightarrow>
          (let h1 = (if payload_origin p = PAYLOAD_RUNTIME
                     then pymem_free_range (map iov_base (snd (vb_iovecs v))) (vb_nr_vecs v) h
                     else h);
               h2 = release_views (vb_views v) (bp_amount p) h1
           in pymem_free (Some (vb_addr v)) (pymem_free (Some (fst (vb_iovecs v))) h2)))"

definition free_buffer_payload :: "(nat \<times> BufferPayload) option \<Rightarrow> bool \<Rightarrow> heap \<Rightarrow> heap" where
  "free_buffer_payload pp force h =
     (case pp of
        None \<Rightarrow> h
      | Some (a, p) \<Rightarrow>
          if bp_mode p \<noteq> NORMAL_BUF \<and> \<not> force then h
          else c_free (Some a) (free_vector p (free_linear p h)))"

section \<open>Arrays of linear buffers\<close>

fun create_linear_loop :: "nat \<Rightarrow> int \<Rightarrow> LinearBuffer list \<Rightarrow> heap \<Rightarrow> LinearBuffer list option \<times> heap"
where
  "create_linear_loop 0 bufsize acc h = (Some acc, h)"
| "create_linear_loop (Suc n) bufsize acc h =
     (case pymem_malloc (bufsize mod 2 ^ 64) h of
        (None, h1) \<Rightarrow> (None, fold pymem_free (map lb_buffer acc) h1)
      | (Some b, h1) \<Rightarrow>
          create_linear_loop n bufsize
            (acc @ [\<lparr>lb_buffer = Some b, lb_len = bufsize mod 2 ^ 64, lb_views = None\<rparr>]) h1)"

definition create_linear_buffers ::
  "int \<Rightarrow> int \<Rightarrow> BufferPayload \<Rightarrow> heap
     \<Rightarrow> (nat \<times> LinearBuffer list) option \<times> BufferPayload \<times> heap" where
  "create_linear_buffers len bufsize payload h =
     (case pymem_malloc (size_mul 24 len) h of
        (None, h1) \<Rightarrow> (None, payload, h1)
      | (Some arr, h1) \<Rightarrow>
          (case create_linear_loop (nat len) bufsize [] h1 of
             (None, h2) \<Rightarrow> (None, payload, pymem_free (Some arr) h2)
           | (Some bufs, h2) \<Rightarrow>
               (Some (arr, bufs),
                payload\<lparr>bp_linear := Some (arr, bufs), bp_vector := None\<rparr>,
                (if bufs = [] then add_fault OutOfBounds h2 else h2))))"

text \<open>
  The loop of \<^verbatim>\<open>serialize_linear_buffers\<close>: \<open>i\<close> items were read, their views are \<open>vs\<close> and their
  buffers \<open>acc\<close>. An item that is missing or exports no buffer gives the views back.
\<close>

fun serialize_linear_loop ::
  "nat \<Rightarrow> nat \<Rightarrow> pyseq \<Rightarrow> nat list \<Rightarrow> LinearBuffer list \<Rightarrow> heap
     \<Rightarrow> (nat list \<times> LinearBuffer list) option \<times> heap" where
  "serialize_linear_loop 0 i ob vs acc h = (Some (vs, acc), h)"
| "serialize_linear_loop (Suc n) i ob vs acc h =
     (case seq_get_item ob i of
        None \<Rightarrow> (None, fold pybuffer_release vs h)
      | Some item \<Rightarrow>
          (case get_buffer item h of
             (None, h1) \<Rightarrow> (None, fold pybuffer_release vs h1)
           | (Some (v, b, l), h1) \<Rightarrow>
               serialize_linear_loop n (Suc i) ob (vs @ [v])
                 (acc @ [\<lparr>lb_buffer = Some b, lb_len = l mod 2 ^ 64, lb_views = None\<rparr>]) h1))"

definition set_first_views :: "(nat \<times> nat list) option \<Rightarrow> LinearBuffer list \<Rightarrow> LinearBuffer list" where
  "set_first_views vw bufs = (case bufs of [] \<Rightarrow> [] | b # bs \<Rightarrow> b\<lparr>lb_views := vw\<rparr> # bs)"

definition serialize_linear_buffers ::
  "pyseq \<Rightarrow> int \<Rightarrow> BufferPayload \<Rightarrow> heap
     \<Rightarrow> (nat \<times> LinearBuffer list) option \<times> BufferPayload \<times> heap" where
  "serialize_linear_buffers ob len payload h =
     (case pymem_malloc (size_mul 80 len) h of (views, h1) \<Rightarrow>
      case pymem_malloc (size_mul 24 len) h1 of (bufs, h2) \<Rightarrow>
      (case (views, bufs) of
         (Some va, Some ba) \<Rightarrow>
           (case serialize_linear_loop (nat len) 0 ob [] [] h2 of
              (None, h3) \<Rightarrow> (None, payload, pymem_free (Some ba) (pymem_free (Some va) h3))
            | (Some (vs, bs), h3) \<Rightarrow>
                (let bs' = set_first_views (Some (va, vs)) bs
                 in (Some (ba, bs'),
                     payload\<lparr>bp_linear := Some (ba, bs'), bp_vector := None\<rparr>,
                     (if bs = [] then add_fault OutOfBounds h3 else h3))))
       | _ \<Rightarrow> (None, payload, pymem_free bufs (pymem_free views h2))))"

section \<open>Vectors\<close>

fun create_vectored_loop :: "nat \<Rightarrow> int \<Rightarrow> iovec list \<Rightarrow> heap \<Rightarrow> iovec list option \<times> heap" where
  "create_vectored_loop 0 bufsize acc h = (Some acc, h)"
| "create_vectored_loop (Suc n) bufsize acc h =
     (case pymem_malloc (bufsize mod 2 ^ 64) h of
        (None, h1) \<Rightarrow> (None, fold pymem_free (map iov_base acc) h1)
      | (Some b, h1) \<Rightarrow>
          create_vectored_loop n bufsize
            (acc @ [\<lparr>iov_base = Some b, iov_len = bufsize mod 2 ^ 64\<rparr>]) h1)"

definition create_vectored_buffers ::
  "int \<Rightarrow> int \<Rightarrow> BufferPayload \<Rightarrow> heap \<Rightarrow> VectoredBuffer option \<times> BufferPayload \<times> heap" where
  "create_vectored_buffers len bufsize payload h =
     (case pymem_malloc 24 h of
        (None, h1) \<Rightarrow> (None, payload, h1)
      | (Some va, h1) \<Rightarrow>
          (case pymem_malloc (size_mul 16 len) h1 of
             (None, h2) \<Rightarrow> (None, payload, pymem_free (Some va) h2)
           | (Some ia, h2) \<Rightarrow>
               (case create_vectored_loop (nat len) bufsize [] h2 of
                  (None, h3) \<Rightarrow> (None, payload, pymem_free (Some va) (pymem_free (Some ia) h3))
                | (Some iovs, h3) \<Rightarrow>
                    (let vec = \<lparr>vb_addr = va, vb_iovecs = (ia, iovs), vb_nr_vecs = len mod 2 ^ 32,
                                vb_views = None\<rparr>
                     in (Some vec, payload\<lparr>bp_vector := Some vec, bp_linear := None\<rparr>, h3)))))"

fun serialize_vectored_loop ::
  "pyitem list \<Rightarrow> nat list \<Rightarrow> iovec list \<Rightarrow> heap \<Rightarrow> (nat list \<times> iovec list) option \<times> heap" where
  "serialize_vectored_loop [] vs acc h = (Some (vs, acc), h)"
| "serialize_vectored_loop (item # items) vs acc h =
     (case get_buffer item h of
        (None, h1) \<Rightarrow> (None, fold pybuffer_release vs h1)
      | (Some (v, b, l), h1) \<Rightarrow>
          serialize_vectored_loop items (vs @ [v])
            (acc @ [\<lparr>iov_base = Some b, iov_len = l mod 2 ^ 64\<rparr>]) h1)"

definition serialize_vectored_buffers ::
  "pyseq \<Rightarrow> BufferPayload \<Rightarrow> heap \<Rightarrow> VectoredBuffer option \<times> BufferPayload \<times> heap" where
  "serialize_vectored_buffers ob payload h =
     (if \<not> sq_iterable ob then (None, payload, h)
      else
        let len = c_int (int (length (sq_items ob)))
        in case pymem_malloc (size_mul 80 len) h of (views, h1) \<Rightarrow>
           case pymem_malloc 24 h1 of (vec, h2) \<Rightarrow>
           (case (views, vec) of
              (Some va, Some ca) \<Rightarrow>
                (case pymem_malloc (size_mul 16 len) h2 of
                   (None, h3) \<Rightarrow> (None, payload, pymem_free (Some ca) (pymem_free (Some va) h3))
                 | (Some ia, h3) \<Rightarrow>
                     (case serialize_vectored_loop (take (nat len) (sq_items ob)) [] [] h3 of
                        (None, h4) \<Rightarrow>
                          (None, payload,
                           pymem_free (Some ca) (pymem_free (Some ia) (pymem_free (Some va) h4)))
                      | (Some (vs, iovs), h4) \<Rightarrow>
                          (let v = \<lparr>vb_addr = ca, vb_iovecs = (ia, iovs),
                                    vb_nr_vecs = len mod 2 ^ 32, vb_views = Some (va, vs)\<rparr>
                           in (Some v, payload\<lparr>bp_vector := Some v, bp_linear := None\<rparr>, h4))))
            | _ \<Rightarrow> (None, payload, pymem_free vec (pymem_free views h2))))"

section \<open>Payloads with both views of the same buffers\<close>

text \<open>
  \<^verbatim>\<open>serialize_buffers\<close> and \<^verbatim>\<open>make_buffers\<close> work on a payload whose origin and amount are not yet
  set. Where they fail with an array already attached, \<^verbatim>\<open>free_buffer_payload\<close> goes on to read
  these fields: undefined behaviour, recorded as the fault \<open>Indeterminate\<close>. Before that point
  the payload has neither array and the call releases the payload's own block only.
\<close>

fun serialize_both_loop ::
  "nat \<Rightarrow> nat \<Rightarrow> pyseq \<Rightarrow> nat list \<Rightarrow> LinearBuffer list \<Rightarrow> iovec list \<Rightarrow> heap
     \<Rightarrow> (nat list \<times> LinearBuffer list \<times> iovec list) option \<times> heap" where
  "serialize_both_loop 0 i ob vs bs iovs h = (Some (vs, bs, iovs), h)"
| "serialize_both_loop (Suc n) i ob vs bs iovs h =
     (case seq_get_item ob i of
        None \<Rightarrow> (None, add_fault Indeterminate h)
      | Some item \<Rightarrow>
          (case get_buffer item h of
             (None, h1) \<Rightarrow> (None, add_fault Indeterminate h1)
           | (Some (v, b, l), h1) \<Rightarrow>
               serialize_both_loop n (Suc i) ob (vs @ [v])
                 (bs @ [\<lparr>lb_buffer = Some b, lb_len = l mod 2 ^ 64, lb_views = None\<rparr>])
                 (iovs @ [\<lparr>iov_base = Some b, iov_len = l mod 2 ^ 64\<rparr>]) h1))"

definition serialize_buffers ::
  "pyseq \<Rightarrow> int \<Rightarrow> nat \<times> BufferPayload \<Rightarrow> heap \<Rightarrow> (nat \<times> BufferPayload) option \<times> heap" where
  "serialize_buffers ob len pp h =
     (let a = fst pp; p = (snd pp)\<lparr>bp_linear := None, bp_vector := None\<rparr>
      in case pymem_malloc (size_mul 80 len) h of
           (None, h1) \<Rightarrow> (None, free_buffer_payload (Some (a, p)) True h1)
         | (Some va, h1) \<Rightarrow>
         (case pymem_malloc (size_mul 24 len) h1 of
            (None, h2) \<Rightarrow> (None, free_buffer_payload (Some (a, p)) True h2)
          | (Some la, h2) \<Rightarrow>
          (case pymem_malloc 24 h2 of
             (None, h3) \<Rightarrow> (None, add_fault Indeterminate h3)
           | (Some ca, h3) \<Rightarrow>
           (case pymem_malloc (size_mul 16 len) h3 of
              (None, h4) \<Rightarrow> (None, add_fault Indeterminate h4)
            | (Some ia, h4) \<Rightarrow>
            (case serialize_both_loop (nat len) 0 ob [] [] [] h4 of
               (None, h5) \<Rightarrow> (None, h5)
             | (Some (vs, bs, iovs), h5) \<Rightarrow>
                 (Some (a, p\<lparr>bp_linear := Some (la, set_first_views (Some (va, vs)) bs),
                             bp_vector := Some \<lparr>vb_addr = ca, vb_iovecs = (ia, iovs),
                                                vb_nr_vecs = len mod 2 ^ 32, vb_views = None\<rparr>\<rparr>),
                  (if bs = [] then add_fault OutOfBounds h5 else h5)))))))"

fun make_both_loop ::
  "nat \<Rightarrow> int \<Rightarrow> LinearBuffer list \<Rightarrow> iovec list \<Rightarrow> heap
     \<Rightarrow> (LinearBuffer list \<times> iovec list) option \<times> heap" where
  "make_both_loop 0 bufsize bs iovs h = (Some (bs, iovs), h)"
| "make_both_loop (Suc n) bufsize bs iovs h =
     (case pymem_malloc bufsize h of
        (None, h1) \<Rightarrow> (None, add_fault Indeterminate h1)
      | (Some b, h1) \<Rightarrow>
          make_both_loop n bufsize
            (bs @ [\<lparr>lb_buffer = Some b, lb_len = bufsize, lb_views = None\<rparr>])
            (iovs @ [\<lparr>iov_base = Some b, iov_len = bufsize\<rparr>]) h1)"

definition make_buffers ::
  "junk \<Rightarrow> int \<Rightarrow> int \<Rightarrow> nat \<times> BufferPayload \<Rightarrow> heap \<Rightarrow> (nat \<times> BufferPayload) option \<times> heap"
where
  "make_buffers J len bufsize pp h =
     (let a = fst pp; p = (snd pp)\<lparr>bp_linear := None, bp_vector := None\<rparr>
      in case pymem_malloc (size_mul 24 len) h of
           (None, h1) \<Rightarrow> (None, free_buffer_payload (Some (a, p)) True h1)
         | (Some la, h1) \<Rightarrow>
         (case pymem_malloc 24 h1 of
            (None, h2) \<Rightarrow> (None, add_fault Indeterminate h2)
          | (Some ca, h2) \<Rightarrow>
          (case pymem_malloc (size_mul 16 len) h2 of
             (None, h3) \<Rightarrow> (None, add_fault Indeterminate h3)
           | (Some ia, h3) \<Rightarrow>
           (case make_both_loop (nat len) bufsize [] [] h3 of
              (None, h4) \<Rightarrow> (None, h4)
            | (Some (bs, iovs), h4) \<Rightarrow>
                (Some (a, p\<lparr>bp_linear := Some (la, bs),
                            bp_vector := Some \<lparr>vb_addr = ca, vb_iovecs = (ia, iovs),
                                               vb_nr_vecs = len mod 2 ^ 32,
                                               vb_views = j_views J\<rparr>\<rparr>), h4)))))"

section \<open>Creating a payload\<close>

definition get_buffer_metadata ::
  "pyseq option \<Rightarrow> BufferMode \<Rightarrow> PayloadType \<Rightarrow> int \<Rightarrow> int \<Rightarrow> heap \<Rightarrow> BufferMetadata \<times> heap" where
  "get_buffer_metadata buffers_obj mode0 payload_type0 amount bufsize h =
     (let mode = (if mode0 = BUF_NO_VAL then NORMAL_BUF else mode0);
          ptype = (if payload_type0 = PAYLOAD_TYPE_NO_VAL then PAYLOAD_LINEAR else payload_type0);
          zero = \<lparr>bm_payload_origin = PAYLOAD_USER, bm_payload_type = PAYLOAD_LINEAR,
                  bm_mode = NORMAL_BUF, bm_amount = 0, bm_bufsize = 0\<rparr>
      in case buffers_obj of
           None \<Rightarrow>
             (\<lparr>bm_payload_origin = PAYLOAD_RUNTIME, bm_payload_type = ptype, bm_mode = mode,
               bm_amount = amount, bm_bufsize = bufsize\<rparr>, h)
         | Some ob \<Rightarrow>
             if \<not> sq_check ob then (zero, h)
             else if sq_length ob < 0 then (zero, h)
             else
               let n = c_int (sq_length ob)
               in (\<lparr>bm_payload_origin = PAYLOAD_USER, bm_payload_type = ptype, bm_mode = mode,
                    bm_amount = n, bm_bufsize = c_int (sq_size ob div n)\<rparr>,
                   (if n = 0 then add_fault DivByZero h else h)))"

text \<open>The two ways each kind of payload is filled, by its origin.\<close>

definition fill_linear ::
  "PayloadOrigin \<Rightarrow> pyseq option \<Rightarrow> int \<Rightarrow> int \<Rightarrow> nat \<times> BufferPayload \<Rightarrow> heap
     \<Rightarrow> (nat \<times> BufferPayload) option \<times> heap" where
  "fill_linear origin buffers_obj amount bufsize pp h =
     (case (origin, buffers_obj) of
        (PAYLOAD_RUNTIME, _) \<Rightarrow>
          (case create_linear_buffers amount bufsize (snd pp) h of
             (None, _, h1) \<Rightarrow> (None, h1) | (Some _, p, h1) \<Rightarrow> (Some (fst pp, p), h1))
      | (PAYLOAD_USER, Some ob) \<Rightarrow>
          (case serialize_linear_buffers ob amount (snd pp) h of
             (None, _, h1) \<Rightarrow> (None, h1) | (Some _, p, h1) \<Rightarrow> (Some (fst pp, p), h1))
      | _ \<Rightarrow> (None, h))"

definition fill_vector ::
  "PayloadOrigin \<Rightarrow> pyseq option \<Rightarrow> int \<Rightarrow> int \<Rightarrow> nat \<times> BufferPayload \<Rightarrow> heap
     \<Rightarrow> (nat \<times> BufferPayload) option \<times> heap" where
  "fill_vector origin buffers_obj amount bufsize pp h =
     (case (origin, buffers_obj) of
        (PAYLOAD_RUNTIME, _) \<Rightarrow>
          (case create_vectored_buffers amount bufsize (snd pp) h of
             (None, _, h1) \<Rightarrow> (None, h1) | (Some _, p, h1) \<Rightarrow> (Some (fst pp, p), h1))
      | (PAYLOAD_USER, Some ob) \<Rightarrow>
          (case serialize_vectored_buffers ob (snd pp) h of
             (None, _, h1) \<Rightarrow> (None, h1) | (Some _, p, h1) \<Rightarrow> (Some (fst pp, p), h1))
      | _ \<Rightarrow> (None, h))"

definition fill_both ::
  "junk \<Rightarrow> PayloadOrigin \<Rightarrow> pyseq option \<Rightarrow> int \<Rightarrow> int \<Rightarrow> nat \<times> BufferPayload \<Rightarrow> heap
     \<Rightarrow> (nat \<times> BufferPayload) option \<times> heap" where
  "fill_both J origin buffers_obj amount bufsize pp h =
     (case (origin, buffers_obj) of
        (PAYLOAD_RUNTIME, _) \<Rightarrow> make_buffers J amount (bufsize mod 2 ^ 64) pp h
      | (PAYLOAD_USER, Some ob) \<Rightarrow> serialize_buffers ob amount pp h
      | _ \<Rightarrow> (None, h))"

text \<open>
  \<^verbatim>\<open>create_buffer_payload\<close>: the case \<^verbatim>\<open>NORMAL_BUF\<close> has no \<^verbatim>\<open>break\<close> after its inner switch, so it
  goes on into the case \<^verbatim>\<open>FIXED\<close>. \<open>rnd\<close> is the value of \<^verbatim>\<open>rand()\<close>.
\<close>

definition create_buffer_payload ::
  "junk \<Rightarrow> int \<Rightarrow> BufferMode \<Rightarrow> PayloadType \<Rightarrow> pyseq option \<Rightarrow> int \<Rightarrow> int \<Rightarrow> heap
     \<Rightarrow> (nat \<times> BufferPayload) option \<times> heap" where
  "create_buffer_payload J rnd mode ptype buffers_obj amount_i bufsize_i h0 =
     (case get_buffer_metadata buffers_obj mode ptype amount_i bufsize_i h0 of (meta, h1) \<Rightarrow>
      case c_malloc 56 h1 of
        (None, h2) \<Rightarrow> (None, h2)
      | (Some a, h2) \<Rightarrow>
          (let pp = (a, (j_payload J)\<lparr>bp_bgid := 0\<rparr>);
               origin = bm_payload_origin meta; amount = bm_amount meta; bufsize = bm_bufsize meta;
               finish = (\<lambda>t (b, p). (b, p\<lparr>bp_amount := amount, payload_origin := origin,
                                           bp_mode := mode, payload_type := t\<rparr>));
               fixed = (\<lambda>(q, h). (case fill_both J origin buffers_obj amount bufsize q h of
                                    (None, h') \<Rightarrow> (None, h')
                                  | (Some q', h') \<Rightarrow> (Some (finish PAYLOAD_LINEAR_AND_IOVEC q'), h')))
           in case mode of
                NORMAL_BUF \<Rightarrow>
                  (case (case ptype of
                           PAYLOAD_LINEAR \<Rightarrow> fill_linear origin buffers_obj amount bufsize pp h2
                         | PAYLOAD_IOVEC \<Rightarrow> fill_vector origin buffers_obj amount bufsize pp h2
                         | PAYLOAD_LINEAR_AND_IOVEC \<Rightarrow>
                             fill_both J origin buffers_obj amount bufsize pp h2
                         | PAYLOAD_TYPE_NO_VAL \<Rightarrow> (None, h2)) of
                     (None, h3) \<Rightarrow> (None, h3)
                   | (Some q, h3) \<Rightarrow> fixed (q, h3))
              | FIXED \<Rightarrow> fixed (pp, h2)
              | BUF_NO_VAL \<Rightarrow> (None, h2)
              | _ \<Rightarrow>
                  (let q = (if mode = PROVIDED then (a, (snd pp)\<lparr>bp_bgid := rnd\<rparr>) else pp)
                   in case fill_linear origin buffers_obj amount bufsize q h2 of
                        (None, h3) \<Rightarrow> (None, h3)
                      | (Some q', h3) \<Rightarrow> (Some (finish PAYLOAD_LINEAR q'), h3))))"

text \<open>
  The raw iovecs of \<^verbatim>\<open>readv_raw\<close> and \<^verbatim>\<open>writev_raw\<close>: \<open>v\<close> is the view the caller holds and \<open>iovs\<close>
  the iovecs its memory contains (\<^verbatim>\<open>len / sizeof(struct iovec)\<close> of them).
\<close>

definition create_buffer_payload_from_pybuffer ::
  "nat \<Rightarrow> iovec list \<Rightarrow> heap \<Rightarrow> (nat \<times> BufferPayload) option \<times> heap" where
  "create_buffer_payload_from_pybuffer v iovs h =
     (case c_malloc 56 h of
        (None, h1) \<Rightarrow> (None, h1)
      | (Some a, h1) \<Rightarrow>
      (let nr_vecs = int (length iovs) mod 2 ^ 32 in
       case pymem_malloc 24 h1 of
         (None, h2) \<Rightarrow> (None, c_free (Some a) h2)
       | (Some ca, h2) \<Rightarrow>
       (case pymem_malloc (size_mul 16 nr_vecs) h2 of
          (None, h3) \<Rightarrow> (None, c_free (Some a) (pymem_free (Some ca) h3))
        | (Some ia, h3) \<Rightarrow>
        (case pymem_malloc 80 h3 of
           (None, h4) \<Rightarrow>
             (None, c_free (Some a) (pymem_free (Some ca) (pymem_free (Some ia) h4)))
         | (Some va, h4) \<Rightarrow>
             (Some (a, zero_payload
                \<lparr>payload_type := PAYLOAD_IOVEC, bp_amount := 1, bp_linear := None,
                 bp_vector := Some \<lparr>vb_addr = ca, vb_iovecs = (ia, take (nat nr_vecs) iovs),
                                    vb_nr_vecs = nr_vecs, vb_views = Some (va, [v])\<rparr>,
                 bp_mode := NORMAL_BUF, payload_origin := PAYLOAD_USER\<rparr>), h4)))))"

definition create_buffer_payload_from_data ::
  "pyitem \<Rightarrow> heap \<Rightarrow> (nat \<times> BufferPayload) option \<times> heap" where
  "create_buffer_payload_from_data data h =
     (case c_malloc 56 h of
        (None, h1) \<Rightarrow> (None, h1)
      | (Some a, h1) \<Rightarrow>
      (case pymem_malloc 24 h1 of
         (None, h2) \<Rightarrow> (None, c_free (Some a) h2)
       | (Some la, h2) \<Rightarrow>
       (case pymem_malloc 80 h2 of
          (None, h3) \<Rightarrow> (None, c_free (Some a) (pymem_free (Some la) h3))
        | (Some va, h3) \<Rightarrow>
        (case get_buffer data h3 of
           (None, h4) \<Rightarrow>
             (None, c_free (Some a) (pymem_free (Some la) (pymem_free (Some va) h4)))
         | (Some (v, b, l), h4) \<Rightarrow>
             (Some (a, zero_payload
                \<lparr>payload_type := PAYLOAD_LINEAR, bp_vector := None, bp_amount := 1,
                 bp_linear := Some (la, [\<lparr>lb_buffer = Some b, lb_len = l mod 2 ^ 64,
                                          lb_views = Some (va, [v])\<rparr>]),
                 payload_origin := PAYLOAD_USER\<rparr>), h4)))))"

text \<open>
  The two functions below take the payload of the current execution context (\<^verbatim>\<open>_get_buffer()\<close>),
  with its block, as the argument \<open>ctx\<close>. \<^verbatim>\<open>get_or_create_linear_buffer\<close> ignores whether filling
  the payload succeeded.
\<close>

definition get_or_create_linear_buffer_new ::
  "junk \<Rightarrow> pyseq option \<Rightarrow> int \<Rightarrow> heap \<Rightarrow> (nat \<times> BufferPayload) option \<times> heap" where
  "get_or_create_linear_buffer_new J buffers_obj bufsize h =
     (case c_malloc 56 h of
        (None, h1) \<Rightarrow> (None, h1)
      | (Some a, h1) \<Rightarrow>
          (let (origin, p, h2) =
             (case buffers_obj of
                Some ob \<Rightarrow>
                  (PAYLOAD_USER, snd (serialize_linear_buffers ob 1 (j_payload J) h1))
              | None \<Rightarrow>
                  (PAYLOAD_RUNTIME, snd (create_linear_buffers 1 bufsize (j_payload J) h1)))
           in (Some (a, p\<lparr>bp_amount := 1, bp_mode := NORMAL_BUF, payload_origin := origin,
                          payload_type := PAYLOAD_LINEAR\<rparr>), h2)))"

definition get_or_create_linear_buffer ::
  "junk \<Rightarrow> (nat \<times> BufferPayload) option \<Rightarrow> pyseq option \<Rightarrow> int \<Rightarrow> heap
     \<Rightarrow> (nat \<times> BufferPayload) option \<times> heap" where
  "get_or_create_linear_buffer J ctx buffers_obj bufsize h =
     (case (buffers_obj, ctx) of
        (None, Some (c, p)) \<Rightarrow>
          if payload_type p = PAYLOAD_LINEAR \<and> bp_linear p \<noteq> None then (Some (c, p), h)
          else get_or_create_linear_buffer_new J None bufsize h
      | _ \<Rightarrow> get_or_create_linear_buffer_new J buffers_obj bufsize h)"

definition get_or_create_vectored_buffer ::
  "(nat \<times> BufferPayload) option \<Rightarrow> pyseq option \<Rightarrow> heap
     \<Rightarrow> (nat \<times> BufferPayload) option \<times> heap" where
  "get_or_create_vectored_buffer ctx buffers_obj h =
     (if buffers_obj = None \<and> (\<exists>q \<in> set_option ctx. payload_type (snd q) = PAYLOAD_IOVEC \<and> bp_vector (snd q) \<noteq> None)
      then (ctx, h)
      else
        case c_malloc 56 h of
          (None, h1) \<Rightarrow> (None, h1)
        | (Some a, h1) \<Rightarrow>
            (let (origin, r) =
               (case buffers_obj of
                  Some ob \<Rightarrow> (PAYLOAD_USER, serialize_vectored_buffers ob zero_payload h1)
                | None \<Rightarrow> (PAYLOAD_RUNTIME, create_vectored_buffers 1 1024 zero_payload h1))
             in case r of
                  (None, _, h2) \<Rightarrow> (None, c_free (Some a) h2)
                | (Some vec, p, h2) \<Rightarrow>
                    (Some (a, p\<lparr>bp_amount := c_int (vb_nr_vecs vec), bp_mode := NORMAL_BUF,
                                payload_origin := origin, payload_type := PAYLOAD_IOVEC\<rparr>), h2)))"

end
