(* ===== verification/Buffer_Ownership.thy ===== *)
theory Buffer_Ownership
  imports Buffers
begin

text \<open>
  Who owns what: the blocks and the views a payload is responsible for, and the facts that
  \<^verbatim>\<open>free_buffer_payload\<close> gives back exactly those, that the constructors of
  \<^verbatim>\<open>src/python_api/buffers/buffers.c\<close> hand out payloads that own what they point to, and that a
  constructor that fails leaves nothing allocated.
\<close>

section \<open>Releasing lists of blocks and views\<close>

definition somes :: "'a option list \<Rightarrow> 'a list" where
  "somes ps = map the (filter (\<lambda>p. p \<noteq> None) ps)"

lemma somes_simps [simp]:
  "somes [] = []" "somes (None # ps) = somes ps" "somes (Some x # ps) = x # somes ps"
  "somes (ps @ qs) = somes ps @ somes qs" "somes (map Some xs) = xs"
  by (auto simp: somes_def comp_def)

lemma fold_pymem_free:
  "distinct (somes ps) \<Longrightarrow> set (somes ps) \<subseteq> h_pymem h \<Longrightarrow>
     fold pymem_free ps h = h\<lparr>h_pymem := h_pymem h - set (somes ps)\<rparr>"
proof (induction ps arbitrary: h)
  case Nil
  then show ?case by simp
next
  case (Cons p ps)
  show ?case
  proof (cases p)
    case None
    with Cons show ?thesis by simp
  next
    case (Some a)
    with Cons.prems have "set (somes ps) \<subseteq> h_pymem (h\<lparr>h_pymem := h_pymem h - {a}\<rparr>)" by auto
    with Cons Some show ?thesis by (simp add: Diff_insert2 [symmetric])
  qed
qed

lemma fold_pybuffer_release:
  "distinct vs \<Longrightarrow> set vs \<subseteq> h_views h \<Longrightarrow>
     fold pybuffer_release vs h = h\<lparr>h_views := h_views h - set vs\<rparr>"
proof (induction vs arbitrary: h)
  case Nil
  then show ?case by simp
next
  case (Cons v vs)
  from Cons.prems have "set vs \<subseteq> h_views (h\<lparr>h_views := h_views h - {v}\<rparr>)" by auto
  with Cons show ?case by (simp add: pybuffer_release_def Diff_insert2 [symmetric])
qed

section \<open>What a payload owns\<close>

fun views_blocks :: "(nat \<times> nat list) option \<Rightarrow> nat list" where
  "views_blocks None = []"
| "views_blocks (Some (va, vs)) = [va]"

fun views_ids :: "(nat \<times> nat list) option \<Rightarrow> nat list" where
  "views_ids None = []"
| "views_ids (Some (va, vs)) = vs"

fun views_fit :: "(nat \<times> nat list) option \<Rightarrow> int \<Rightarrow> bool" where
  "views_fit None n = True"
| "views_fit (Some (va, vs)) n = (n = int (length vs))"

definition linear_blocks :: "BufferPayload \<Rightarrow> nat list" where
  "linear_blocks p =
     (case bp_linear p of
        None \<Rightarrow> []
      | Some (la, bufs) \<Rightarrow>
          (if payload_origin p = PAYLOAD_RUNTIME then somes (map lb_buffer bufs) else []) @
          views_blocks (lb_views (hd bufs)) @ [la])"

definition vector_blocks :: "BufferPayload \<Rightarrow> nat list" where
  "vector_blocks p =
     (case bp_vector p of
        None \<Rightarrow> []
      | Some v \<Rightarrow>
          (if payload_origin p = PAYLOAD_RUNTIME
           then somes (map iov_base (snd (vb_iovecs v))) else []) @
          views_blocks (vb_views v) @ [fst (vb_iovecs v), vb_addr v])"

definition payload_blocks :: "BufferPayload \<Rightarrow> nat list" where
  "payload_blocks p = linear_blocks p @ vector_blocks p"

definition linear_views :: "BufferPayload \<Rightarrow> nat list" where
  "linear_views p = (case bp_linear p of None \<Rightarrow> [] | Some (la, bufs) \<Rightarrow> views_ids (lb_views (hd bufs)))"

definition vector_views :: "BufferPayload \<Rightarrow> nat list" where
  "vector_views p = (case bp_vector p of None \<Rightarrow> [] | Some v \<Rightarrow> views_ids (vb_views v))"

definition payload_views :: "BufferPayload \<Rightarrow> nat list" where
  "payload_views p = linear_views p @ vector_views p"

text \<open>The counts stored in a payload agree with its arrays.\<close>

definition payload_fits :: "BufferPayload \<Rightarrow> bool" where
  "payload_fits p \<longleftrightarrow>
     (case bp_linear p of
        None \<Rightarrow> True
      | Some (la, bufs) \<Rightarrow>
          bufs \<noteq> [] \<and> (payload_origin p = PAYLOAD_RUNTIME \<longrightarrow> bp_amount p = int (length bufs)) \<and>
          views_fit (lb_views (hd bufs)) (bp_amount p)) \<and>
     (case bp_vector p of
        None \<Rightarrow> True
      | Some v \<Rightarrow>
          (payload_origin p = PAYLOAD_RUNTIME \<longrightarrow> vb_nr_vecs v = int (length (snd (vb_iovecs v)))) \<and>
          views_fit (vb_views v) (bp_amount p))"

definition owned :: "nat \<times> BufferPayload \<Rightarrow> heap \<Rightarrow> bool" where
  "owned pp h \<longleftrightarrow>
     payload_fits (snd pp) \<and> fst pp \<in> h_live h \<and>
     distinct (payload_blocks (snd pp)) \<and> set (payload_blocks (snd pp)) \<subseteq> h_pymem h \<and>
     distinct (payload_views (snd pp)) \<and> set (payload_views (snd pp)) \<subseteq> h_views h"

lemma release_views_eval:
  assumes "views_fit vw n" and "distinct (views_ids vw)" and "set (views_ids vw) \<subseteq> h_views h"
    and "set (views_blocks vw) \<subseteq> h_pymem h"
  shows "release_views vw n h =
    h\<lparr>h_pymem := h_pymem h - set (views_blocks vw), h_views := h_views h - set (views_ids vw)\<rparr>"
proof (cases vw)
  case None
  then show ?thesis by simp
next
  case (Some q)
  with assms show ?thesis
    by (cases q) (simp add: release_range_def fold_pybuffer_release)
qed

lemma pymem_free_range_eval:
  assumes "n = int (length ps)" and "distinct (somes ps)" and "set (somes ps) \<subseteq> h_pymem h"
  shows "pymem_free_range ps n h = h\<lparr>h_pymem := h_pymem h - set (somes ps)\<rparr>"
  using assms by (simp add: pymem_free_range_def fold_pymem_free)

lemma free_linear_eval:
  assumes "payload_fits p" and "distinct (linear_blocks p)" and "set (linear_blocks p) \<subseteq> h_pymem h"
    and "distinct (linear_views p)" and "set (linear_views p) \<subseteq> h_views h"
  shows "free_linear p h =
    h\<lparr>h_pymem := h_pymem h - set (linear_blocks p), h_views := h_views h - set (linear_views p)\<rparr>"
proof (cases "bp_linear p")
  case None
  then show ?thesis by (simp add: free_linear_def linear_blocks_def linear_views_def)
next
  case (Some q)
  obtain la bufs where q: "q = (la, bufs)" by force
  obtain b bs where bufs: "bufs = b # bs"
    using assms(1) Some q by (cases bufs) (auto simp: payload_fits_def)
  let ?h1 = "if payload_origin p = PAYLOAD_RUNTIME
             then pymem_free_range (map lb_buffer bufs) (bp_amount p) h else h"
  let ?rt = "if payload_origin p = PAYLOAD_RUNTIME then somes (map lb_buffer bufs) else []"
  have h1: "?h1 = h\<lparr>h_pymem := h_pymem h - set ?rt\<rparr>"
    using assms Some q by (auto simp: pymem_free_range_eval payload_fits_def linear_blocks_def)
  have "release_views (lb_views b) (bp_amount p) ?h1 =
      h\<lparr>h_pymem := h_pymem h - set ?rt - set (views_blocks (lb_views b)),
        h_views := h_views h - set (views_ids (lb_views b))\<rparr>"
    using assms Some q bufs
    by (subst h1, subst release_views_eval)
      (auto simp: payload_fits_def linear_blocks_def linear_views_def)
  moreover have "la \<in> h_pymem h - set ?rt - set (views_blocks (lb_views b))"
    using assms Some q bufs by (auto simp: linear_blocks_def)
  ultimately show ?thesis
    using Some q bufs
    by (simp add: free_linear_def Let_def linear_blocks_def linear_views_def set_diff_eq)
      (auto simp: conj_ac)
qed

lemma free_vector_eval:
  assumes "payload_fits p" and "distinct (vector_blocks p)" and "set (vector_blocks p) \<subseteq> h_pymem h"
    and "distinct (vector_views p)" and "set (vector_views p) \<subseteq> h_views h"
  shows "free_vector p h =
    h\<lparr>h_pymem := h_pymem h - set (vector_blocks p), h_views := h_views h - set (vector_views p)\<rparr>"
proof (cases "bp_vector p")
  case None
  then show ?thesis by (simp add: free_vector_def vector_blocks_def vector_views_def)
next
  case (Some v)
  let ?iovs = "snd (vb_iovecs v)"
  let ?h1 = "if payload_origin p = PAYLOAD_RUNTIME
             then pymem_free_range (map iov_base ?iovs) (vb_nr_vecs v) h else h"
  let ?rt = "if payload_origin p = PAYLOAD_RUNTIME then somes (map iov_base ?iovs) else []"
  have h1: "?h1 = h\<lparr>h_pymem := h_pymem h - set ?rt\<rparr>"
    using assms Some by (auto simp: pymem_free_range_eval payload_fits_def vector_blocks_def)
  have "release_views (vb_views v) (bp_amount p) ?h1 =
      h\<lparr>h_pymem := h_pymem h - set ?rt - set (views_blocks (vb_views v)),
        h_views := h_views h - set (views_ids (vb_views v))\<rparr>"
    using assms Some
    by (subst h1, subst release_views_eval)
      (auto simp: payload_fits_def vector_blocks_def vector_views_def)
  moreover have "fst (vb_iovecs v) \<in> h_pymem h - set ?rt - set (views_blocks (vb_views v))"
    "vb_addr v \<in> h_pymem h - set ?rt - set (views_blocks (vb_views v))"
    "fst (vb_iovecs v) \<noteq> vb_addr v"
    using assms Some by (auto simp: vector_blocks_def)
  ultimately show ?thesis
    using Some
    by (simp add: free_vector_def Let_def vector_blocks_def vector_views_def set_diff_eq)
      (auto simp: conj_ac)
qed

lemma free_buffer_payload_owned:
  assumes "owned (a, p) h" and "bp_mode p = NORMAL_BUF \<or> force"
  shows "free_buffer_payload (Some (a, p)) force h =
    h\<lparr>h_live := h_live h - {a}, h_pymem := h_pymem h - set (payload_blocks p),
      h_views := h_views h - set (payload_views p)\<rparr>"
proof -
  have o: "payload_fits p" "a \<in> h_live h"
      "distinct (linear_blocks p)" "set (linear_blocks p) \<subseteq> h_pymem h"
      "distinct (linear_views p)" "set (linear_views p) \<subseteq> h_views h"
      "distinct (vector_blocks p)" "set (vector_blocks p) \<subseteq> h_pymem h - set (linear_blocks p)"
      "distinct (vector_views p)" "set (vector_views p) \<subseteq> h_views h - set (linear_views p)"
    using assms(1) by (auto simp: owned_def payload_blocks_def payload_views_def)
  have "free_vector p (free_linear p h) =
      h\<lparr>h_pymem := h_pymem h - set (payload_blocks p), h_views := h_views h - set (payload_views p)\<rparr>"
    using o by (simp add: free_linear_eval free_vector_eval payload_blocks_def payload_views_def
        Diff_Un set_diff_eq conj_ac)
  with assms(2) o show ?thesis by (auto simp: free_buffer_payload_def)
qed

section \<open>The constructors hand out what they allocate\<close>

definition same_mem :: "heap \<Rightarrow> heap \<Rightarrow> bool" where
  "same_mem h h' \<longleftrightarrow>
     h_live h' = h_live h \<and> h_pymem h' = h_pymem h \<and> h_views h' = h_views h \<and>
     h_ref h' = h_ref h \<and> h_faults h' = h_faults h"

definition hands_out :: "heap \<Rightarrow> nat \<times> BufferPayload \<Rightarrow> heap \<Rightarrow> bool" where
  "hands_out h pp h' \<longleftrightarrow>
     owned pp h' \<and> h_live h' - {fst pp} = h_live h \<and>
     h_pymem h' - set (payload_blocks (snd pp)) = h_pymem h \<and>
     h_views h' - set (payload_views (snd pp)) = h_views h \<and>
     h_ref h' = h_ref h \<and> h_faults h' = h_faults h"

lemma same_mem_refl [simp]: "same_mem h h" "same_mem h (h\<lparr>h_next := n\<rparr>)"
  by (simp_all add: same_mem_def)

lemma hands_out_free:
  assumes "hands_out h (a, p) h'" and "bp_mode p = NORMAL_BUF \<or> force"
  shows "same_mem h (free_buffer_payload (Some (a, p)) force h')"
  using assms by (simp add: hands_out_def free_buffer_payload_owned same_mem_def)

lemmas payload_defs = payload_blocks_def linear_blocks_def vector_blocks_def payload_views_def
  linear_views_def vector_views_def payload_fits_def

lemma get_buffer_SomeD:
  "get_buffer item h = (Some (v, b, l), h') \<Longrightarrow>
     v = h_next h \<and> h' = h\<lparr>h_next := Suc (h_next h), h_views := insert (h_next h) (h_views h)\<rparr>"
  by (cases item) auto

lemma get_buffer_NoneD: "get_buffer item h = (None, h') \<Longrightarrow> h' = h"
  by (cases item) auto

lemmas alloc_dests = c_malloc_SomeD c_malloc_NoneD pymem_malloc_SomeD pymem_malloc_NoneD
  get_buffer_SomeD get_buffer_NoneD

lemma from_data_shape:
  assumes "create_buffer_payload_from_data data h = (Some pp, h')"
  defines "n \<equiv> h_next h"
  obtains b l where
    "pp = (n, zero_payload\<lparr>bp_amount := 1, bp_linear := Some (Suc n,
       [\<lparr>lb_buffer = Some b, lb_len = l mod 2 ^ 64, lb_views = Some (Suc (Suc n), [Suc (Suc (Suc n))])\<rparr>])\<rparr>)"
    "h' = h\<lparr>h_next := Suc (Suc (Suc (Suc n))), h_live := insert n (h_live h),
           h_pymem := insert (Suc (Suc n)) (insert (Suc n) (h_pymem h)),
           h_views := insert (Suc (Suc (Suc n))) (h_views h)\<rparr>"
  using assms
  by (auto simp: create_buffer_payload_from_data_def zero_payload_def
      dest!: alloc_dests split: prod.splits option.splits)

lemma from_data_Some:
  assumes "heap_wf h" and "create_buffer_payload_from_data data h = (Some pp, h')"
  shows "hands_out h pp h'" and "bp_mode (snd pp) = NORMAL_BUF" and "payload_type (snd pp) = PAYLOAD_LINEAR"
proof -
  define n where "n = h_next h"
  have fr: "n \<notin> h_live h" "Suc n \<notin> h_pymem h" "Suc (Suc n) \<notin> h_pymem h" "Suc (Suc (Suc n)) \<notin> h_views h"
    using heap_wf_fresh_ge [OF assms(1)] by (simp_all add: n_def)
  obtain b l where shape:
    "pp = (n, zero_payload\<lparr>bp_amount := 1, bp_linear := Some (Suc n,
       [\<lparr>lb_buffer = Some b, lb_len = l mod 2 ^ 64, lb_views = Some (Suc (Suc n), [Suc (Suc (Suc n))])\<rparr>])\<rparr>)"
    "h' = h\<lparr>h_next := Suc (Suc (Suc (Suc n))), h_live := insert n (h_live h),
           h_pymem := insert (Suc (Suc n)) (insert (Suc n) (h_pymem h)),
           h_views := insert (Suc (Suc (Suc n))) (h_views h)\<rparr>"
    using from_data_shape [OF assms(2)] unfolding n_def by metis
  have "owned pp h'"
    by (simp add: shape owned_def payload_defs zero_payload_def)
  with fr show "hands_out h pp h'"
    by (simp add: shape hands_out_def payload_defs zero_payload_def insert_Diff_if)
  show "bp_mode (snd pp) = NORMAL_BUF" and "payload_type (snd pp) = PAYLOAD_LINEAR"
    by (simp_all add: shape zero_payload_def)
qed

lemma from_data_None:
  assumes "heap_wf h" and "create_buffer_payload_from_data data h = (None, h')"
  shows "same_mem h h'"
proof -
  have fr: "h_next h \<notin> h_live h" "Suc (h_next h) \<notin> h_pymem h" "Suc (Suc (h_next h)) \<notin> h_pymem h"
    using heap_wf_fresh_ge [OF assms(1)] by simp_all
  consider h1 where "c_malloc 56 h = (None, h1)" "h' = h1"
    | a h1 h2 where "c_malloc 56 h = (Some a, h1)" "pymem_malloc 24 h1 = (None, h2)"
        "h' = c_free (Some a) h2"
    | a h1 la h2 h3 where "c_malloc 56 h = (Some a, h1)" "pymem_malloc 24 h1 = (Some la, h2)"
        "pymem_malloc 80 h2 = (None, h3)" "h' = c_free (Some a) (pymem_free (Some la) h3)"
    | a h1 la h2 va h3 h4 where "c_malloc 56 h = (Some a, h1)" "pymem_malloc 24 h1 = (Some la, h2)"
        "pymem_malloc 80 h2 = (Some va, h3)" "get_buffer data h3 = (None, h4)"
        "h' = c_free (Some a) (pymem_free (Some la) (pymem_free (Some va) h4))"
    using assms(2)
    by (auto simp: create_buffer_payload_from_data_def split: prod.splits option.splits)
  then show ?thesis
  proof cases
    case 1
    with c_malloc_NoneD [OF 1(1)] show ?thesis by simp
  next
    case 2
    with c_malloc_SomeD [OF 2(1)] pymem_malloc_NoneD [OF 2(2)] fr show ?thesis
      by (simp add: same_mem_def)
  next
    case 3
    with c_malloc_SomeD [OF 3(1)] pymem_malloc_SomeD [OF 3(2)] pymem_malloc_NoneD [OF 3(3)] fr
    show ?thesis by (simp add: same_mem_def)
  next
    case 4
    with c_malloc_SomeD [OF 4(1)] pymem_malloc_SomeD [OF 4(2)] pymem_malloc_SomeD [OF 4(3)]
      get_buffer_NoneD [OF 4(4)] fr
    show ?thesis by (simp add: same_mem_def insert_Diff_if)
  qed
qed

section \<open>The filling loops\<close>

lemma create_linear_loop_Some:
  "create_linear_loop n bufsize acc h = (Some bufs, h') \<Longrightarrow>
     bufs = acc @ map (\<lambda>b. \<lparr>lb_buffer = Some b, lb_len = bufsize mod 2 ^ 64, lb_views = None\<rparr>)
                     [h_next h..<h_next h + n] \<and>
     h' = h\<lparr>h_next := h_next h + n, h_pymem := h_pymem h \<union> {h_next h..<h_next h + n}\<rparr>"
proof (induction n arbitrary: acc h)
  case 0
  then show ?case by simp
next
  case (Suc n)
  then obtain b h1 where m: "pymem_malloc (bufsize mod 2 ^ 64) h = (Some b, h1)"
    and r: "create_linear_loop n bufsize
        (acc @ [\<lparr>lb_buffer = Some b, lb_len = bufsize mod 2 ^ 64, lb_views = None\<rparr>]) h1 = (Some bufs, h')"
    by (auto split: prod.splits option.splits)
  have "{h_next h..<h_next h + Suc n} = insert (h_next h) {Suc (h_next h)..<Suc (h_next h + n)}"
    by auto
  with pymem_malloc_SomeD [OF m] Suc.IH [OF r] show ?case
    by (auto simp: upt_conv_Cons simp del: upt_Suc)
qed

lemma create_linear_loop_None:
  assumes "create_linear_loop n bufsize acc h = (None, h')"
    and "distinct (somes (map lb_buffer acc))" "set (somes (map lb_buffer acc)) \<subseteq> h_pymem h"
    and "\<forall>a \<in> h_pymem h. a < h_next h"
  shows "\<exists>m \<ge> h_next h. h' = h\<lparr>h_next := m, h_pymem := h_pymem h - set (somes (map lb_buffer acc))\<rparr>"
  using assms
proof (induction n arbitrary: acc h)
  case 0
  then show ?case by simp
next
  case (Suc n)
  show ?case
  proof (cases "fst (pymem_malloc (bufsize mod 2 ^ 64) h)")
    case None
    with Suc.prems have "h' = fold pymem_free (map lb_buffer acc) (h\<lparr>h_next := Suc (h_next h)\<rparr>)"
      by (auto dest!: pymem_malloc_NoneD split: prod.splits)
    with Suc.prems show ?thesis by (auto simp: fold_pymem_free intro!: exI [of _ "Suc (h_next h)"])
  next
    case (Some b)
    let ?h1 = "h\<lparr>h_next := Suc (h_next h), h_pymem := insert (h_next h) (h_pymem h)\<rparr>"
    let ?acc = "acc @ [\<lparr>lb_buffer = Some (h_next h), lb_len = bufsize mod 2 ^ 64, lb_views = None\<rparr>]"
    from Some have "pymem_malloc (bufsize mod 2 ^ 64) h = (Some (h_next h), ?h1)"
      by (auto simp: pymem_malloc_def split: if_splits)
    with Suc.prems(1) have r: "create_linear_loop n bufsize ?acc ?h1 = (None, h')" by simp
    have "\<exists>m \<ge> h_next ?h1.
        h' = ?h1\<lparr>h_next := m, h_pymem := h_pymem ?h1 - set (somes (map lb_buffer ?acc))\<rparr>"
      by (rule Suc.IH [OF r]) (use Suc.prems(2-4) in auto)
    moreover have "h_next h \<notin> h_pymem h" using Suc.prems(4) by auto
    ultimately show ?thesis by (auto intro: Suc_leD)
  qed
qed

lemma create_vectored_loop_linear:
  "create_vectored_loop n bufsize (map (\<lambda>b. \<lparr>iov_base = lb_buffer b, iov_len = lb_len b\<rparr>) acc) h =
     map_prod (map_option (map (\<lambda>b. \<lparr>iov_base = lb_buffer b, iov_len = lb_len b\<rparr>))) id
       (create_linear_loop n bufsize acc h)"
proof (induction n arbitrary: acc h)
  case 0
  then show ?case by simp
next
  case (Suc n)
  show ?case
    using Suc.IH [of "acc @ [\<lparr>lb_buffer = Some b, lb_len = bufsize mod 2 ^ 64, lb_views = None\<rparr>]" for b]
    by (auto simp: comp_def split: prod.splits option.splits)
qed

lemma create_vectored_loop_Some:
  assumes "create_vectored_loop n bufsize [] h = (Some iovs, h')"
  shows "iovs = map (\<lambda>b. \<lparr>iov_base = Some b, iov_len = bufsize mod 2 ^ 64\<rparr>) [h_next h..<h_next h + n]"
    and "h' = h\<lparr>h_next := h_next h + n, h_pymem := h_pymem h \<union> {h_next h..<h_next h + n}\<rparr>"
proof -
  from assms obtain bufs where
    l: "create_linear_loop n bufsize [] h = (Some bufs, h')"
    and i: "iovs = map (\<lambda>b. \<lparr>iov_base = lb_buffer b, iov_len = lb_len b\<rparr>) bufs"
    using create_vectored_loop_linear [of n bufsize "[]" h]
    by (cases "fst (create_linear_loop n bufsize [] h)"; cases "create_linear_loop n bufsize [] h") auto
  from create_linear_loop_Some [OF l] i
  show "iovs = map (\<lambda>b. \<lparr>iov_base = Some b, iov_len = bufsize mod 2 ^ 64\<rparr>) [h_next h..<h_next h + n]"
    and "h' = h\<lparr>h_next := h_next h + n, h_pymem := h_pymem h \<union> {h_next h..<h_next h + n}\<rparr>"
    by auto
qed

lemma create_vectored_loop_None:
  assumes "create_vectored_loop n bufsize [] h = (None, h')" and "\<forall>a \<in> h_pymem h. a < h_next h"
  shows "\<exists>m \<ge> h_next h. h' = h\<lparr>h_next := m\<rparr>"
proof -
  from assms(1) have "create_linear_loop n bufsize [] h = (None, h')"
    using create_vectored_loop_linear [of n bufsize "[]" h]
    by (cases "fst (create_linear_loop n bufsize [] h)"; cases "create_linear_loop n bufsize [] h") auto
  from create_linear_loop_None [OF this] assms(2) show ?thesis by auto
qed

section \<open>Vectored payloads\<close>

lemma create_vectored_Some:
  assumes "heap_wf h" and "0 \<le> len" and "len < 2 ^ 31"
    and "create_vectored_buffers len bufsize payload h = (Some vec, p, h')"
  defines "n \<equiv> h_next h"
  shows "vec = \<lparr>vb_addr = n, vb_iovecs = (Suc n, map (\<lambda>b. \<lparr>iov_base = Some b, iov_len = bufsize mod 2 ^ 64\<rparr>)
                   [Suc (Suc n)..<Suc (Suc n) + nat len]), vb_nr_vecs = len, vb_views = None\<rparr>"
    and "p = payload\<lparr>bp_vector := Some vec, bp_linear := None\<rparr>"
    and "h' = h\<lparr>h_next := Suc (Suc n) + nat len, h_pymem := h_pymem h \<union> {n..<Suc (Suc n) + nat len}\<rparr>"
proof -
  obtain va h1 ia h2 iovs where
    "pymem_malloc 24 h = (Some va, h1)" "pymem_malloc (size_mul 16 len) h1 = (Some ia, h2)"
    and loop: "create_vectored_loop (nat len) bufsize [] h2 = (Some iovs, h')"
    and vec: "vec = \<lparr>vb_addr = va, vb_iovecs = (ia, iovs), vb_nr_vecs = len mod 2 ^ 32, vb_views = None\<rparr>"
    and p: "p = payload\<lparr>bp_vector := Some vec, bp_linear := None\<rparr>"
    using assms(4) by (auto simp: create_vectored_buffers_def Let_def split: prod.splits option.splits)
  then have m: "va = n" "ia = Suc n"
      "h2 = h\<lparr>h_next := Suc (Suc n), h_pymem := insert (Suc n) (insert n (h_pymem h))\<rparr>"
    by (auto simp: n_def dest!: pymem_malloc_SomeD)
  have "{n..<Suc (Suc n) + nat len} = insert (Suc n) (insert n {Suc (Suc n)..<Suc (Suc n) + nat len})"
    by auto
  then show "h' = h\<lparr>h_next := Suc (Suc n) + nat len, h_pymem := h_pymem h \<union> {n..<Suc (Suc n) + nat len}\<rparr>"
    using create_vectored_loop_Some(2) [OF loop] m by simp
  show "p = payload\<lparr>bp_vector := Some vec, bp_linear := None\<rparr>" by (rule p)
  show "vec = \<lparr>vb_addr = n, vb_iovecs = (Suc n, map (\<lambda>b. \<lparr>iov_base = Some b, iov_len = bufsize mod 2 ^ 64\<rparr>)
                   [Suc (Suc n)..<Suc (Suc n) + nat len]), vb_nr_vecs = len, vb_views = None\<rparr>"
    using create_vectored_loop_Some(1) [OF loop] m vec assms(2,3) by simp
qed

lemma create_vectored_None:
  assumes "heap_wf h" and "create_vectored_buffers len bufsize payload h = (None, p, h')"
  shows "same_mem h h'"
proof -
  have fr: "h_next h \<notin> h_pymem h" "Suc (h_next h) \<notin> h_pymem h"
    using heap_wf_fresh_ge [OF assms(1)] by simp_all
  consider h1 where "pymem_malloc 24 h = (None, h1)" "h' = h1"
    | va h1 h2 where "pymem_malloc 24 h = (Some va, h1)"
        "pymem_malloc (size_mul 16 len) h1 = (None, h2)" "h' = pymem_free (Some va) h2"
    | va h1 ia h2 h3 where "pymem_malloc 24 h = (Some va, h1)"
        "pymem_malloc (size_mul 16 len) h1 = (Some ia, h2)"
        "create_vectored_loop (nat len) bufsize [] h2 = (None, h3)"
        "h' = pymem_free (Some va) (pymem_free (Some ia) h3)"
    using assms(2) by (auto simp: create_vectored_buffers_def Let_def split: prod.splits option.splits)
  then show ?thesis
  proof cases
    case 1
    with pymem_malloc_NoneD [OF 1(1)] show ?thesis by simp
  next
    case 2
    with pymem_malloc_SomeD [OF 2(1)] pymem_malloc_NoneD [OF 2(2)] fr show ?thesis
      by (simp add: same_mem_def)
  next
    case 3
    then have "\<forall>a \<in> h_pymem h2. a < h_next h2"
      using assms(1) by (auto simp: heap_wf_def less_Suc_eq dest!: pymem_malloc_SomeD)
    from create_vectored_loop_None [OF 3(3) this] obtain m where "h3 = h2\<lparr>h_next := m\<rparr>" by auto
    with 3 pymem_malloc_SomeD [OF 3(1)] pymem_malloc_SomeD [OF 3(2)] fr show ?thesis
      by (simp add: same_mem_def insert_Diff_if)
  qed
qed

lemma serialize_vectored_loop_Some:
  "serialize_vectored_loop items vs acc h = (Some (vs', iovs), h') \<Longrightarrow>
     length iovs = length acc + length items \<and> length vs' = length vs + length items \<and>
     vs' = vs @ [h_next h..<h_next h + length items] \<and>
     h' = h\<lparr>h_next := h_next h + length items,
            h_views := h_views h \<union> {h_next h..<h_next h + length items}\<rparr>"
proof (induction items arbitrary: vs acc h)
  case Nil
  then show ?case by simp
next
  case (Cons item items)
  then obtain v b l h1 where g: "get_buffer item h = (Some (v, b, l), h1)"
    and r: "serialize_vectored_loop items (vs @ [v])
        (acc @ [\<lparr>iov_base = Some b, iov_len = l mod 2 ^ 64\<rparr>]) h1 = (Some (vs', iovs), h')"
    by (auto split: prod.splits option.splits)
  have "{h_next h..<h_next h + length (item # items)} =
      insert (h_next h) {Suc (h_next h)..<Suc (h_next h + length items)}"
    by auto
  with get_buffer_SomeD [OF g] Cons.IH [OF r] show ?case
    by (auto simp: upt_conv_Cons simp del: upt_Suc)
qed

lemma serialize_vectored_loop_None:
  assumes "serialize_vectored_loop items vs acc h = (None, h')"
    and "distinct vs" "set vs \<subseteq> h_views h" and "\<forall>v \<in> h_views h. v < h_next h"
  shows "\<exists>m \<ge> h_next h. h' = h\<lparr>h_next := m, h_views := h_views h - set vs\<rparr>"
  using assms
proof (induction items arbitrary: vs acc h)
  case Nil
  then show ?case by simp
next
  case (Cons item items)
  show ?case
  proof (cases item)
    case NoBuffer
    with Cons.prems show ?thesis
      by (auto simp: fold_pybuffer_release intro!: exI [of _ "h_next h"])
  next
    case (HasBuffer b l)
    let ?h1 = "h\<lparr>h_next := Suc (h_next h), h_views := insert (h_next h) (h_views h)\<rparr>"
    from Cons.prems(1) HasBuffer have r: "serialize_vectored_loop items (vs @ [h_next h])
        (acc @ [\<lparr>iov_base = Some b, iov_len = l mod 2 ^ 64\<rparr>]) ?h1 = (None, h')"
      by simp
    have "\<exists>m \<ge> h_next ?h1. h' = ?h1\<lparr>h_next := m, h_views := h_views ?h1 - set (vs @ [h_next h])\<rparr>"
      by (rule Cons.IH [OF r]) (use Cons.prems(2-4) in auto)
    moreover have "h_next h \<notin> h_views h" using Cons.prems(4) by auto
    ultimately show ?thesis by (auto intro: Suc_leD)
  qed
qed

lemma serialize_vectored_Some:
  assumes "heap_wf h" and "length (sq_items ob) < 2 ^ 31"
    and "serialize_vectored_buffers ob payload h = (Some vec, p, h')"
  defines "n \<equiv> h_next h" and "k \<equiv> length (sq_items ob)"
  obtains iovs where "length iovs = k"
    and "vec = \<lparr>vb_addr = Suc n, vb_iovecs = (Suc (Suc n), iovs), vb_nr_vecs = int k,
                vb_views = Some (n, [Suc (Suc (Suc n))..<Suc (Suc (Suc n)) + k])\<rparr>"
    and "p = payload\<lparr>bp_vector := Some vec, bp_linear := None\<rparr>"
    and "h' = h\<lparr>h_next := Suc (Suc (Suc n)) + k, h_pymem := {n, Suc n, Suc (Suc n)} \<union> h_pymem h,
               h_views := h_views h \<union> {Suc (Suc (Suc n))..<Suc (Suc (Suc n)) + k}\<rparr>"
proof -
  let ?len = "c_int (int (length (sq_items ob)))"
  have len: "?len = int k"
    using assms(2) by (simp add: k_def c_int_range_def of_nat_less_numeral_iff)
  obtain va h1 ca h2 ia h3 vs iovs where
    m: "pymem_malloc (size_mul 80 ?len) h = (Some va, h1)" "pymem_malloc 24 h1 = (Some ca, h2)"
       "pymem_malloc (size_mul 16 ?len) h2 = (Some ia, h3)"
    and loop: "serialize_vectored_loop (take (nat ?len) (sq_items ob)) [] [] h3 = (Some (vs, iovs), h')"
    and vec: "vec = \<lparr>vb_addr = ca, vb_iovecs = (ia, iovs), vb_nr_vecs = ?len mod 2 ^ 32,
                    vb_views = Some (va, vs)\<rparr>"
    and p: "p = payload\<lparr>bp_vector := Some vec, bp_linear := None\<rparr>"
    using assms(3)
    by (auto simp: serialize_vectored_buffers_def Let_def split: prod.splits option.splits if_splits)
  have st: "va = n" "ca = Suc n" "ia = Suc (Suc n)"
      "h3 = h\<lparr>h_next := Suc (Suc (Suc n)), h_pymem := {n, Suc n, Suc (Suc n)} \<union> h_pymem h\<rparr>"
    using pymem_malloc_SomeD [OF m(1)] pymem_malloc_SomeD [OF m(2)] pymem_malloc_SomeD [OF m(3)]
    by (simp_all add: n_def insert_commute)
  have items: "take (nat ?len) (sq_items ob) = sq_items ob" unfolding len by (simp add: k_def)
  have mod: "?len mod 2 ^ 32 = int k"
    unfolding len using assms(2) by (simp add: k_def of_nat_less_numeral_iff)
  show thesis
    using serialize_vectored_loop_Some [OF loop [unfolded items]] st vec [unfolded mod] p
    by (intro that [of iovs]) (simp_all add: k_def del: upt_Suc)
qed

lemma serialize_vectored_None:
  assumes "heap_wf h" and "serialize_vectored_buffers ob payload h = (None, p, h')"
  shows "same_mem h h'"
proof (cases "sq_iterable ob")
  case False
  with assms(2) show ?thesis by (simp add: serialize_vectored_buffers_def)
next
  case True
  let ?len = "c_int (int (length (sq_items ob)))"
  have fr: "h_next h \<notin> h_pymem h" "Suc (h_next h) \<notin> h_pymem h" "Suc (Suc (h_next h)) \<notin> h_pymem h"
    using heap_wf_fresh_ge [OF assms(1)] by simp_all
  obtain views h1 vec h2 where m: "pymem_malloc (size_mul 80 ?len) h = (views, h1)"
    "pymem_malloc 24 h1 = (vec, h2)" by (meson surj_pair)
  consider "views = None \<or> vec = None" "h' = pymem_free vec (pymem_free views h2)"
    | va ca h3 where "views = Some va" "vec = Some ca"
        "pymem_malloc (size_mul 16 ?len) h2 = (None, h3)"
        "h' = pymem_free (Some ca) (pymem_free (Some va) h3)"
    | va ca ia h3 h4 where "views = Some va" "vec = Some ca"
        "pymem_malloc (size_mul 16 ?len) h2 = (Some ia, h3)"
        "serialize_vectored_loop (take (nat ?len) (sq_items ob)) [] [] h3 = (None, h4)"
        "h' = pymem_free (Some ca) (pymem_free (Some ia) (pymem_free (Some va) h4))"
    using assms(2) True m
    by (auto simp: serialize_vectored_buffers_def Let_def split: prod.splits option.splits)
  then show ?thesis
  proof cases
    case 1
    then show ?thesis using m fr
      by (cases views; cases vec; simp)
        (auto simp: same_mem_def dest!: pymem_malloc_SomeD pymem_malloc_NoneD)
  next
    case 2
    note e = pymem_malloc_SomeD [OF m(1) [unfolded 2(1)]] pymem_malloc_SomeD [OF m(2) [unfolded 2(2)]]
      pymem_malloc_NoneD [OF 2(3)]
    from 2(4) e fr show ?thesis by (simp add: same_mem_def insert_Diff_if)
  next
    case 3
    have e: "va = h_next h" "ca = Suc (h_next h)" "ia = Suc (Suc (h_next h))"
        "h3 = h\<lparr>h_next := Suc (Suc (Suc (h_next h))),
               h_pymem := {h_next h, Suc (h_next h), Suc (Suc (h_next h))} \<union> h_pymem h\<rparr>"
      using pymem_malloc_SomeD [OF m(1) [unfolded 3(1)]] pymem_malloc_SomeD [OF m(2) [unfolded 3(2)]]
        pymem_malloc_SomeD [OF 3(3)] by (simp_all add: insert_commute)
    have "\<forall>v \<in> h_views h3. v < h_next h3" using assms(1) e by (auto simp: heap_wf_def less_Suc_eq)
    from serialize_vectored_loop_None [OF 3(4) _ _ this] obtain q where
      "h4 = h3\<lparr>h_next := q\<rparr>" by auto
    with 3(5) e fr show ?thesis by (simp add: same_mem_def insert_Diff_if)
  qed
qed

text \<open>A fresh vectored payload, of the extension's own buffers or of the caller's.\<close>

lemma get_or_create_vectored_Some:
  assumes "heap_wf h" and "\<forall>ob \<in> set_option buffers_obj. length (sq_items ob) < 2 ^ 31"
    and "get_or_create_vectored_buffer None buffers_obj h = (Some pp, h')"
  shows "hands_out h pp h'" and "bp_mode (snd pp) = NORMAL_BUF" and "payload_type (snd pp) = PAYLOAD_IOVEC"
    and "bp_vector (snd pp) \<noteq> None"
proof -
  obtain a h1 where m: "c_malloc 56 h = (Some a, h1)"
    using assms(3) by (auto simp: get_or_create_vectored_buffer_def split: prod.splits option.splits)
  note st = c_malloc_SomeD [OF m]
  have wf1: "heap_wf h1" using assms(1) st by (auto simp: heap_wf_def less_Suc_eq)
  have fr: "n \<notin> h_live h \<and> n \<notin> h_pymem h \<and> n \<notin> h_views h" if "h_next h \<le> n" for n
    using heap_wf_fresh_ge [OF assms(1)] that by blast
  have "hands_out h pp h' \<and> bp_mode (snd pp) = NORMAL_BUF \<and> payload_type (snd pp) = PAYLOAD_IOVEC \<and>
      bp_vector (snd pp) \<noteq> None"
  proof (cases buffers_obj)
    case None
    then obtain vec p where c: "create_vectored_buffers 1 1024 zero_payload h1 = (Some vec, p, h')"
      and pp: "pp = (a, p\<lparr>bp_amount := c_int (vb_nr_vecs vec), bp_mode := NORMAL_BUF,
        payload_origin := PAYLOAD_RUNTIME, payload_type := PAYLOAD_IOVEC\<rparr>)"
      using assms(3) m
      by (auto simp: get_or_create_vectored_buffer_def split: prod.splits option.splits)
    from create_vectored_Some [OF wf1 _ _ c] st pp show ?thesis
      using fr [of "h_next h"] fr [of "Suc (h_next h)"] fr [of "Suc (Suc (h_next h))"]
        fr [of "Suc (Suc (Suc (h_next h)))"]
      by (auto simp: hands_out_def owned_def payload_defs zero_payload_def upt_conv_Cons
          atLeastLessThanSuc)
  next
    case (Some ob)
    then obtain vec p where c: "serialize_vectored_buffers ob zero_payload h1 = (Some vec, p, h')"
      and pp: "pp = (a, p\<lparr>bp_amount := c_int (vb_nr_vecs vec), bp_mode := NORMAL_BUF,
        payload_origin := PAYLOAD_USER, payload_type := PAYLOAD_IOVEC\<rparr>)"
      using assms(3) m
      by (auto simp: get_or_create_vectored_buffer_def split: prod.splits option.splits)
    have k: "length (sq_items ob) < 2 ^ 31" using assms(2) Some by simp
    obtain iovs where "length iovs = length (sq_items ob)" and v:
      "vec = \<lparr>vb_addr = Suc (h_next h1), vb_iovecs = (Suc (Suc (h_next h1)), iovs),
         vb_nr_vecs = int (length (sq_items ob)),
         vb_views = Some (h_next h1, [Suc (Suc (Suc (h_next h1)))..<Suc (Suc (Suc (h_next h1))) + length (sq_items ob)])\<rparr>"
      "p = zero_payload\<lparr>bp_vector := Some vec, bp_linear := None\<rparr>"
      "h' = h1\<lparr>h_next := Suc (Suc (Suc (h_next h1))) + length (sq_items ob),
         h_pymem := {h_next h1, Suc (h_next h1), Suc (Suc (h_next h1))} \<union> h_pymem h1,
         h_views := h_views h1 \<union> {Suc (Suc (Suc (h_next h1)))..<Suc (Suc (Suc (h_next h1))) + length (sq_items ob)}\<rparr>"
      by (rule serialize_vectored_Some [OF wf1 k c])
    have "h_views h \<inter> {Suc (Suc (Suc (h_next h1)))..<Suc (Suc (Suc (h_next h1))) + length (sq_items ob)} = {}"
      using fr st by force
    moreover have "c_int (int (length (sq_items ob))) = int (length (sq_items ob))"
      using k by (simp add: c_int_range_def of_nat_less_numeral_iff)
    ultimately show ?thesis
      using v st pp fr [of "h_next h"] fr [of "Suc (h_next h)"] fr [of "Suc (Suc (h_next h))"]
        fr [of "Suc (Suc (Suc (h_next h)))"]
      by (auto simp: hands_out_def owned_def payload_defs zero_payload_def simp del: upt_Suc)
  qed
  then show "hands_out h pp h'" and "bp_mode (snd pp) = NORMAL_BUF"
    and "payload_type (snd pp) = PAYLOAD_IOVEC" and "bp_vector (snd pp) \<noteq> None" by blast+
qed

lemma get_or_create_vectored_None:
  assumes "heap_wf h" and "get_or_create_vectored_buffer None buffers_obj h = (None, h')"
  shows "same_mem h h'"
proof (cases "fst (c_malloc 56 h)")
  case None
  then obtain h1 where "c_malloc 56 h = (None, h1)" by (metis prod.collapse)
  with assms(2) c_malloc_NoneD [OF this] show ?thesis
    by (auto simp: get_or_create_vectored_buffer_def split: option.splits)
next
  case (Some a)
  then obtain h1 where m: "c_malloc 56 h = (Some a, h1)" by (metis prod.collapse)
  note st = c_malloc_SomeD [OF m]
  have wf1: "heap_wf h1" using assms(1) st by (auto simp: heap_wf_def less_Suc_eq)
  obtain h2 where "same_mem h1 h2" and h': "h' = c_free (Some a) h2"
    using assms(2) m create_vectored_None [OF wf1] serialize_vectored_None [OF wf1]
    by (fastforce simp: get_or_create_vectored_buffer_def split: prod.splits option.splits)
  moreover have "h_next h \<notin> h_live h" using heap_wf_fresh_ge [OF assms(1)] by simp
  ultimately show ?thesis using st by (simp add: same_mem_def)
qed

section \<open>Linear payloads\<close>

lemma create_linear_Some:
  assumes "0 < len" and "create_linear_buffers len bufsize payload h = (Some (arr, bufs), p, h')"
  defines "n \<equiv> h_next h"
  shows "arr = n" and "bufs = map (\<lambda>b. \<lparr>lb_buffer = Some b, lb_len = bufsize mod 2 ^ 64, lb_views = None\<rparr>)
                   [Suc n..<Suc n + nat len]"
    and "p = payload\<lparr>bp_linear := Some (arr, bufs), bp_vector := None\<rparr>"
    and "h' = h\<lparr>h_next := Suc n + nat len, h_pymem := h_pymem h \<union> {n..<Suc n + nat len}\<rparr>"
proof -
  obtain h1 h2 where m: "pymem_malloc (size_mul 24 len) h = (Some arr, h1)"
    and loop: "create_linear_loop (nat len) bufsize [] h1 = (Some bufs, h2)"
    and p: "p = payload\<lparr>bp_linear := Some (arr, bufs), bp_vector := None\<rparr>"
    and h': "h' = (if bufs = [] then add_fault OutOfBounds h2 else h2)"
    using assms(2) by (auto simp: create_linear_buffers_def split: prod.splits option.splits)
  note e = pymem_malloc_SomeD [OF m] and l = create_linear_loop_Some [OF loop]
  have "bufs \<noteq> []" using l assms(1) by auto
  moreover have "{n..<Suc n + nat len} = insert n {Suc n..<Suc n + nat len}" by auto
  ultimately show "h' = h\<lparr>h_next := Suc n + nat len, h_pymem := h_pymem h \<union> {n..<Suc n + nat len}\<rparr>"
    using h' e l by (simp add: n_def)
  show "arr = n" using e by (simp add: n_def)
  show "bufs = map (\<lambda>b. \<lparr>lb_buffer = Some b, lb_len = bufsize mod 2 ^ 64, lb_views = None\<rparr>)
                   [Suc n..<Suc n + nat len]"
    using e l by (simp add: n_def del: upt_Suc)
  show "p = payload\<lparr>bp_linear := Some (arr, bufs), bp_vector := None\<rparr>" by (rule p)
qed

lemma create_linear_None:
  assumes "heap_wf h" and "create_linear_buffers len bufsize payload h = (None, p, h')"
  shows "same_mem h h'" and "p = payload"
proof -
  have fr: "h_next h \<notin> h_pymem h" using heap_wf_fresh_ge [OF assms(1)] by simp
  consider h1 where "pymem_malloc (size_mul 24 len) h = (None, h1)" "h' = h1"
    | arr h1 h2 where "pymem_malloc (size_mul 24 len) h = (Some arr, h1)"
        "create_linear_loop (nat len) bufsize [] h1 = (None, h2)" "h' = pymem_free (Some arr) h2"
    using assms(2) by (auto simp: create_linear_buffers_def split: prod.splits option.splits)
  then show "same_mem h h'"
  proof cases
    case 1
    with pymem_malloc_NoneD [OF 1(1)] show ?thesis by simp
  next
    case 2
    note e = pymem_malloc_SomeD [OF 2(1)]
    have "\<forall>a \<in> h_pymem h1. a < h_next h1" using assms(1) e by (auto simp: heap_wf_def less_Suc_eq)
    from create_linear_loop_None [OF 2(2) _ _ this] obtain m where "h2 = h1\<lparr>h_next := m\<rparr>" by auto
    with 2(3) e fr show ?thesis by (simp add: same_mem_def)
  qed
  show "p = payload"
    using assms(2) by (auto simp: create_linear_buffers_def split: prod.splits option.splits)
qed

text \<open>
  The payload \<^verbatim>\<open>File.read\<close> and \<^verbatim>\<open>Socket.recv\<close> use when neither the context nor the caller gives one:
  where its buffer could be allocated, it owns it.
\<close>

lemma get_or_create_linear_runtime:
  assumes "heap_wf h" and "get_or_create_linear_buffer_new J None bufsize h = (Some pp, h')"
    and "fst (create_linear_buffers 1 bufsize (j_payload J) (snd (c_malloc 56 h))) \<noteq> None"
  shows "hands_out h pp h'" and "bp_mode (snd pp) = NORMAL_BUF"
    and "\<exists>la b. bp_linear (snd pp) =
           Some (la, [\<lparr>lb_buffer = Some b, lb_len = bufsize mod 2 ^ 64, lb_views = None\<rparr>])"
proof -
  obtain a h1 where m: "c_malloc 56 h = (Some a, h1)"
    using assms(2) by (auto simp: get_or_create_linear_buffer_new_def split: prod.splits option.splits)
  obtain arr bufs p where c: "create_linear_buffers 1 bufsize (j_payload J) h1 = (Some (arr, bufs), p, h')"
    and pp: "pp = (a, p\<lparr>bp_amount := 1, bp_mode := NORMAL_BUF, payload_origin := PAYLOAD_RUNTIME,
                       payload_type := PAYLOAD_LINEAR\<rparr>)"
    using assms(2,3) m
    by (cases "create_linear_buffers 1 bufsize (j_payload J) h1")
      (auto simp: get_or_create_linear_buffer_new_def)
  note e = c_malloc_SomeD [OF m] and l = create_linear_Some [OF _ c]
  have fr: "h_next h \<notin> h_live h" "Suc (h_next h) \<notin> h_pymem h" "Suc (Suc (h_next h)) \<notin> h_pymem h"
    using heap_wf_fresh_ge [OF assms(1)] by simp_all
  show "hands_out h pp h'"
    using e l pp fr
    by (auto simp: hands_out_def owned_def payload_defs upt_conv_Cons atLeastLessThanSuc)
  show "bp_mode (snd pp) = NORMAL_BUF" by (simp add: pp)
  show "\<exists>la b. bp_linear (snd pp) =
           Some (la, [\<lparr>lb_buffer = Some b, lb_len = bufsize mod 2 ^ 64, lb_views = None\<rparr>])"
    using l pp by (simp add: upt_conv_Cons)
qed

section \<open>Payloads that hold a buffer twice\<close>

text \<open>A recorded fault stays recorded.\<close>

definition faults_kept :: "heap \<Rightarrow> heap \<Rightarrow> bool" where
  "faults_kept h h' \<longleftrightarrow> set (h_faults h) \<subseteq> set (h_faults h')"

lemma faults_kept_refl [simp, intro]: "faults_kept h h"
  by (simp add: faults_kept_def)

lemma faults_kept_trans: "faults_kept h h1 \<Longrightarrow> faults_kept h1 h2 \<Longrightarrow> faults_kept h h2"
  by (auto simp: faults_kept_def)

lemma faults_kept_add [simp]: "faults_kept h (add_fault f h)"
  by (auto simp: faults_kept_def)

lemma faults_kept_pymem_free [simp]: "faults_kept h (pymem_free p h)"
  by (cases p) (auto simp: faults_kept_def)

lemma faults_kept_c_free [simp]: "faults_kept h (c_free p h)"
  by (cases p) (auto simp: faults_kept_def)

lemma faults_kept_fold: "(\<And>x h. faults_kept h (f x h)) \<Longrightarrow> faults_kept h (fold f xs h)"
  by (induction xs arbitrary: h) (simp, metis fold_simps(2) faults_kept_trans)

lemma faults_kept_release_views [simp]: "faults_kept h (release_views vw n h)"
proof (cases vw)
  case None
  then show ?thesis by simp
next
  case (Some q)
  have r: "faults_kept h (pybuffer_release v h)" for v h
    by (auto simp: pybuffer_release_def faults_kept_def)
  have "faults_kept h (release_range (snd q) n h)"
    unfolding release_range_def
    by (auto intro: faults_kept_fold [OF r] faults_kept_trans [OF faults_kept_fold [OF r] faults_kept_add])
  with Some show ?thesis
    by (cases q) (auto simp: faults_kept_def)
qed

lemma make_both_loop_Some:
  "make_both_loop n bufsize bs iovs h = (Some (bs', iovs'), h') \<Longrightarrow>
     bs' = bs @ map (\<lambda>b. \<lparr>lb_buffer = Some b, lb_len = bufsize, lb_views = None\<rparr>) [h_next h..<h_next h + n] \<and>
     iovs' = iovs @ map (\<lambda>b. \<lparr>iov_base = Some b, iov_len = bufsize\<rparr>) [h_next h..<h_next h + n] \<and>
     h' = h\<lparr>h_next := h_next h + n, h_pymem := h_pymem h \<union> {h_next h..<h_next h + n}\<rparr>"
proof (induction n arbitrary: bs iovs h)
  case 0
  then show ?case by simp
next
  case (Suc n)
  then obtain b h1 where m: "pymem_malloc bufsize h = (Some b, h1)"
    and r: "make_both_loop n bufsize (bs @ [\<lparr>lb_buffer = Some b, lb_len = bufsize, lb_views = None\<rparr>])
        (iovs @ [\<lparr>iov_base = Some b, iov_len = bufsize\<rparr>]) h1 = (Some (bs', iovs'), h')"
    by (auto split: prod.splits option.splits)
  note e = pymem_malloc_SomeD [OF m]
  have u: "[h_next h..<h_next h + Suc n] = h_next h # [Suc (h_next h)..<Suc (h_next h) + n]"
    by (simp add: upt_conv_Cons del: upt_Suc)
  have i: "{h_next h..<h_next h + Suc n} = insert (h_next h) {Suc (h_next h)..<Suc (h_next h) + n}" by auto
  from Suc.IH [OF r] e show ?case unfolding u i by (simp del: upt_Suc)
qed

lemma free_twice_fault:
  assumes "bp_linear p = Some (la, bs)" and "bp_vector p = Some v" and "payload_origin p = PAYLOAD_RUNTIME"
    and "bs = map (\<lambda>b. \<lparr>lb_buffer = Some b, lb_len = l, lb_views = None\<rparr>) (b # blocks)"
    and "snd (vb_iovecs v) = map (\<lambda>b. \<lparr>iov_base = Some b, iov_len = l\<rparr>) (b # blocks)"
    and "bp_amount p = int (length (b # blocks))" and "0 < vb_nr_vecs v"
    and "distinct (la # b # blocks)" and "set (la # b # blocks) \<subseteq> h_pymem h"
  shows "BadFree b \<in> set (h_faults (free_vector p (free_linear p h)))"
proof -
  have bufs: "map lb_buffer bs = map Some (b # blocks)" using assms(4) by simp
  have "pymem_free_range (map lb_buffer bs) (bp_amount p) h = h\<lparr>h_pymem := h_pymem h - set (b # blocks)\<rparr>"
    unfolding bufs using assms(6,8,9) pymem_free_range_eval [of "bp_amount p" "map Some (b # blocks)" h]
    by (simp del: list.map)
  then have "free_linear p h = h\<lparr>h_pymem := h_pymem h - set (la # b # blocks)\<rparr>"
    using assms(1,3,4,8,9) Diff_insert [of "h_pymem h" la "set (b # blocks)"]
    by (auto simp: free_linear_def Let_def simp del: Diff_insert)
  then have nb: "b \<notin> h_pymem (free_linear p h)" by simp
  define h1 where "h1 = free_linear p h"
  define ps where "ps = map (\<lambda>b. Some b) blocks"
  have ps: "map iov_base (snd (vb_iovecs v)) = Some b # ps"
    using assms(5) by (simp add: ps_def)
  have f0: "BadFree b \<in> set (h_faults (pymem_free (Some b) h1))" using nb by (simp add: h1_def)
  have "faults_kept (pymem_free (Some b) h1) (fold pymem_free qs (pymem_free (Some b) h1))" for qs
    by (rule faults_kept_fold) simp
  moreover have "nat (vb_nr_vecs v) = Suc (nat (vb_nr_vecs v - 1))" using assms(7) by simp
  ultimately have "BadFree b \<in> set (h_faults (pymem_free_range (map iov_base (snd (vb_iovecs v))) (vb_nr_vecs v) h1))"
    using f0 unfolding ps pymem_free_range_def by (auto simp: faults_kept_def simp del: pymem_free.simps)
  moreover have "faults_kept x (pymem_free q1 (pymem_free q2 (release_views vw n x)))" for q1 q2 vw n x
    by (meson faults_kept_trans faults_kept_pymem_free faults_kept_release_views)
  ultimately show ?thesis
    using assms(2,3) unfolding free_vector_def h1_def [symmetric] faults_kept_def
    by (simp add: subset_iff del: pymem_free.simps)
qed

section \<open>Properties\<close>

text \<open>
  C18. \<^verbatim>\<open>free_buffer_payload\<close> on a payload whose counts agree with its arrays releases exactly what the payload
  owns, each block and each view once, and commits no fault; a payload that belongs to an
  execution context is kept, unless its release is forced.
\<close>

theorem free_buffer_payload_exact:
  assumes "owned (a, p) h"
  shows "free_buffer_payload (Some (a, p)) force h =
    (if bp_mode p = NORMAL_BUF \<or> force
     then h\<lparr>h_live := h_live h - {a}, h_pymem := h_pymem h - set (payload_blocks p),
            h_views := h_views h - set (payload_views p)\<rparr>
     else h)"
proof (cases "bp_mode p = NORMAL_BUF \<or> force")
  case True
  with free_buffer_payload_owned [OF assms True] show ?thesis by simp
next
  case False
  then show ?thesis by (simp add: free_buffer_payload_def)
qed

theorem free_buffer_payload_exact_witness:
  "\<exists>a p h. owned (a, p) h \<and> h_pymem h = {1, 2} \<and>
     h_pymem (free_buffer_payload (Some (a, p)) False h) = {} \<and>
     h_faults (free_buffer_payload (Some (a, p)) False h) = []"
proof -
  let ?c = "create_buffer_payload_from_data (HasBuffer 40 5) init_heap"
  obtain pp h where c: "?c = (Some pp, h)" and pm: "h_pymem h = {1, 2}" "h_faults h = []"
    by (simp add: create_buffer_payload_from_data_def c_malloc_def pymem_malloc_def init_heap_def
        alloc_max_def insert_commute numeral_2_eq_2)
  note f = from_data_Some [OF init_heap_wf c]
  have o: "owned (fst pp, snd pp) h" using f(1) by (simp add: hands_out_def)
  have "h_pymem h - set (payload_blocks (snd pp)) = {}" using f(1) by (simp add: hands_out_def init_heap_def)
  with free_buffer_payload_exact [OF o, of False] o pm f(2) show ?thesis
    by (intro exI [of _ "fst pp"] exI [of _ "snd pp"] exI [of _ h]) simp
qed

text \<open>
  C21. The payload of a write is balanced: when \<^verbatim>\<open>create_buffer_payload_from_data\<close> succeeds, the payload owns
  what was allocated and the view it holds, and releasing it restores the memory; when it fails, at any of
  its allocations or because the object exports no buffer, nothing stays allocated and no view stays
  held.
\<close>

theorem payload_from_data_balanced:
  assumes "heap_wf h"
  shows "case create_buffer_payload_from_data data h of
      (None, h') \<Rightarrow> same_mem h h'
    | (Some pp, h') \<Rightarrow> owned pp h' \<and> same_mem h (free_buffer_payload (Some pp) False h')"
proof (cases "create_buffer_payload_from_data data h")
  case (Pair r h')
  show ?thesis
  proof (cases r)
    case None
    with Pair from_data_None [OF assms] show ?thesis by simp
  next
    case (Some pp)
    with Pair have c: "create_buffer_payload_from_data data h = (Some pp, h')" by simp
    note f = from_data_Some [OF assms c]
    have "same_mem h (free_buffer_payload (Some (fst pp, snd pp)) False h')"
      by (rule hands_out_free) (use f in simp_all)
    with f(1) c show ?thesis by (simp add: hands_out_def)
  qed
qed

theorem payload_from_data_balanced_witness:
  "case create_buffer_payload_from_data (HasBuffer 40 5) init_heap of
      (None, h') \<Rightarrow> same_mem init_heap h'
    | (Some pp, h') \<Rightarrow> owned pp h' \<and> same_mem init_heap (free_buffer_payload (Some pp) False h')"
  by (rule payload_from_data_balanced) simp

text \<open>
  C20. The payload of a vectored operation outside of an execution context is balanced in the same way,
  whether the iovecs point into the caller's objects or into a buffer the extension allocates, for any
  sequence of fewer than \<open>2^31\<close> objects.
\<close>

theorem vectored_payload_balanced:
  assumes "heap_wf h" and "\<forall>ob \<in> set_option buffers_obj. length (sq_items ob) < 2 ^ 31"
  shows "case get_or_create_vectored_buffer None buffers_obj h of
      (None, h') \<Rightarrow> same_mem h h'
    | (Some pp, h') \<Rightarrow> owned pp h' \<and> same_mem h (free_buffer_payload (Some pp) False h')"
proof (cases "get_or_create_vectored_buffer None buffers_obj h")
  case (Pair r h')
  show ?thesis
  proof (cases r)
    case None
    with Pair get_or_create_vectored_None [OF assms(1)] show ?thesis by simp
  next
    case (Some pp)
    with Pair have c: "get_or_create_vectored_buffer None buffers_obj h = (Some pp, h')" by simp
    note f = get_or_create_vectored_Some [OF assms c]
    have "same_mem h (free_buffer_payload (Some (fst pp, snd pp)) False h')"
      by (rule hands_out_free) (use f in simp_all)
    with f(1) c show ?thesis by (simp add: hands_out_def)
  qed
qed

theorem vectored_payload_balanced_witness:
  "case get_or_create_vectored_buffer None
       (Some \<lparr>sq_check = True, sq_iterable = True, sq_length = 2, sq_size = 2,
              sq_items = [HasBuffer 40 5, NoBuffer]\<rparr>) init_heap of
      (None, h') \<Rightarrow> same_mem init_heap h'
    | (Some pp, h') \<Rightarrow> owned pp h' \<and> same_mem init_heap (free_buffer_payload (Some pp) False h')"
  by (rule vectored_payload_balanced) simp_all

text \<open>
  C37. A payload made for the fixed buffer mode without caller's buffers stores every buffer twice, in the
  linear array and in the iovecs; its forced release frees each of them twice.
\<close>

theorem fixed_payload_double_free:
  assumes "heap_wf h" and "0 < amount" and "amount < 2 ^ 31"
    and "create_buffer_payload J rnd FIXED ptype None amount bufsize h = (Some pp, h')"
  shows "\<exists>b. BadFree b \<in> set (h_faults (free_buffer_payload (Some pp) True h'))"
proof -
  obtain a h2 where m: "c_malloc 56 h = (Some a, h2)"
    using assms(4) by (auto simp: create_buffer_payload_def get_buffer_metadata_def split: prod.splits option.splits)
  obtain q where mk: "make_buffers J amount (bufsize mod 2 ^ 64) (a, (j_payload J)\<lparr>bp_bgid := 0\<rparr>) h2 = (Some q, h')"
    and pp: "pp = (fst q, (snd q)\<lparr>bp_amount := amount, payload_origin := PAYLOAD_RUNTIME, bp_mode := FIXED,
                    payload_type := PAYLOAD_LINEAR_AND_IOVEC\<rparr>)"
    using assms(4) m
    by (cases "make_buffers J amount (bufsize mod 2 ^ 64) (a, (j_payload J)\<lparr>bp_bgid := 0\<rparr>) h2")
      (auto simp: create_buffer_payload_def get_buffer_metadata_def fill_both_def Let_def
        split: option.splits)
  obtain la h3 ca h4 ia h5 bs iovs where
      ms: "pymem_malloc (size_mul 24 amount) h2 = (Some la, h3)" "pymem_malloc 24 h3 = (Some ca, h4)"
        "pymem_malloc (size_mul 16 amount) h4 = (Some ia, h5)"
    and loop: "make_both_loop (nat amount) (bufsize mod 2 ^ 64) [] [] h5 = (Some (bs, iovs), h')"
    and q: "bp_linear (snd q) = Some (la, bs)" "bp_vector (snd q) = Some \<lparr>vb_addr = ca, vb_iovecs = (ia, iovs),
          vb_nr_vecs = amount mod 2 ^ 32, vb_views = j_views J\<rparr>"
    using mk by (auto simp: make_buffers_def Let_def split: prod.splits option.splits)
  note e = pymem_malloc_SomeD [OF ms(1)] pymem_malloc_SomeD [OF ms(2)] pymem_malloc_SomeD [OF ms(3)]
    make_both_loop_Some [OF loop]
  obtain n where n: "nat amount = Suc n" using assms(2) by (metis zero_less_nat_eq gr0_implies_Suc)
  have u: "[h_next h5..<h_next h5 + nat amount] = h_next h5 # [Suc (h_next h5)..<Suc (h_next h5) + n]"
    by (simp add: n upt_conv_Cons del: upt_Suc)
  have i: "{h_next h5..<h_next h5 + nat amount} = insert (h_next h5) {Suc (h_next h5)..<Suc (h_next h5) + n}"
    by (auto simp: n)
  have la: "la \<in> h_pymem h5" "la < h_next h5" using e by simp_all
  let ?bl = "h_next h5 # [Suc (h_next h5)..<Suc (h_next h5) + n]"
  have bsu: "bs = map (\<lambda>b. \<lparr>lb_buffer = Some b, lb_len = bufsize mod 2 ^ 64, lb_views = None\<rparr>) ?bl"
      "iovs = map (\<lambda>b. \<lparr>iov_base = Some b, iov_len = bufsize mod 2 ^ 64\<rparr>) ?bl"
    using e(4) unfolding u by simp_all
  have sub: "la \<in> h_pymem h'" "h_next h5 \<in> h_pymem h'" "{Suc (h_next h5)..<Suc (h_next h5) + n} \<subseteq> h_pymem h'"
    using e(4) la(1) unfolding i by auto
  have "BadFree (h_next h5) \<in> set (h_faults (free_vector (snd pp) (free_linear (snd pp) h')))"
    by (rule free_twice_fault [of _ la bs "\<lparr>vb_addr = ca, vb_iovecs = (ia, iovs),
          vb_nr_vecs = amount mod 2 ^ 32, vb_views = j_views J\<rparr>" "bufsize mod 2 ^ 64" _ "[Suc (h_next h5)..<Suc (h_next h5) + n]"])
      (use q bsu sub assms(2,3) n la(2) in \<open>simp_all add: pp del: upt_Suc\<close>)
  moreover have "faults_kept x (c_free y x)" for x y by simp
  ultimately show ?thesis
    unfolding faults_kept_def free_buffer_payload_def by (auto simp: case_prod_beta)
qed

theorem fixed_payload_double_free_witness:
  "\<exists>pp h' b. create_buffer_payload \<lparr>j_payload = zero_payload, j_views = None\<rparr> 0 FIXED PAYLOAD_LINEAR None 1 1024
       init_heap = (Some pp, h') \<and> BadFree b \<in> set (h_faults (free_buffer_payload (Some pp) True h'))"
proof -
  let ?c = "create_buffer_payload \<lparr>j_payload = zero_payload, j_views = None\<rparr> 0 FIXED PAYLOAD_LINEAR None 1 1024 init_heap"
  obtain pp h' where c: "?c = (Some pp, h')"
    by (simp add: create_buffer_payload_def get_buffer_metadata_def fill_both_def make_buffers_def Let_def
        c_malloc_def pymem_malloc_def init_heap_def alloc_max_def size_mul_def)
  from fixed_payload_double_free [OF init_heap_wf _ _ c] c show ?thesis by auto
qed

end
