(* ===== verification/Index_Pool.thy ===== *)
theory Index_Pool
  imports Uringio_Prelude
begin

text \<open>
  The contract of a pool of indices kept as a stack, which two components of uringio implement:
  the request registry (\<^verbatim>\<open>src/registry/registry.c\<close>) and the registry of fixed-buffer indices
  (\<^verbatim>\<open>src/buffer_controllers/buffer_index.c\<close>). Both keep an array of the free indices and the
  position of its top, hand out the top and push back on release.

  \<open>free p\<close> is the list of free indices, the top of the stack last. The lemmas of the locale
  are what clients rely on: an index handed out is one nobody holds, an exhausted pool says so,
  a taken index that is put back restores the pool, and the indices handed out by a run of
  allocations are distinct.
\<close>

locale index_pool =
  fixes take_idx :: "'p \<Rightarrow> int \<times> 'p"
    and put_idx :: "int \<Rightarrow> 'p \<Rightarrow> 'p"
    and free :: "'p \<Rightarrow> int list"
    and cap :: "'p \<Rightarrow> int"
    and held :: "'p \<Rightarrow> int \<Rightarrow> bool"
    and invar :: "'p \<Rightarrow> bool"
  assumes invar_distinct: "invar p \<Longrightarrow> distinct (free p)"
    and invar_range: "invar p \<Longrightarrow> set (free p) \<subseteq> {0..<cap p}"
    and held_iff: "invar p \<Longrightarrow> held p i \<longleftrightarrow> 0 \<le> i \<and> i < cap p \<and> i \<notin> set (free p)"
    and take_empty: "invar p \<Longrightarrow> free p = [] \<Longrightarrow> take_idx p = (- 1, p)"
    and take_idx_top: "invar p \<Longrightarrow> free p \<noteq> [] \<Longrightarrow> fst (take_idx p) = last (free p)"
    and take_free: "invar p \<Longrightarrow> free p \<noteq> [] \<Longrightarrow> free (snd (take_idx p)) = butlast (free p)"
    and take_cap: "invar p \<Longrightarrow> cap (snd (take_idx p)) = cap p"
    and take_invar: "invar p \<Longrightarrow> invar (snd (take_idx p))"
    and put_free: "invar p \<Longrightarrow> held p i \<Longrightarrow> free (put_idx i p) = free p @ [i]"
    and put_cap: "invar p \<Longrightarrow> held p i \<Longrightarrow> cap (put_idx i p) = cap p"
    and put_invar: "invar p \<Longrightarrow> held p i \<Longrightarrow> invar (put_idx i p)"
begin

lemma take_in_free: "invar p \<Longrightarrow> free p \<noteq> [] \<Longrightarrow> fst (take_idx p) \<in> set (free p)"
  by (simp add: take_idx_top)

lemma take_fail_iff: "invar p \<Longrightarrow> fst (take_idx p) < 0 \<longleftrightarrow> free p = []"
  using take_in_free [of p] invar_range [of p] take_empty [of p] by force

lemma take_range:
  assumes "invar p" and "0 \<le> fst (take_idx p)"
  shows "fst (take_idx p) < cap p"
proof -
  from assms have "free p \<noteq> []" using take_fail_iff [of p] by force
  with assms show ?thesis using take_in_free [of p] invar_range [of p] by force
qed

lemma take_fresh:
  assumes "invar p" and "0 \<le> fst (take_idx p)"
  shows "\<not> held p (fst (take_idx p))" and "held (snd (take_idx p)) (fst (take_idx p))"
proof -
  from assms have ne: "free p \<noteq> []" using take_fail_iff [of p] by force
  with assms show "\<not> held p (fst (take_idx p))"
    by (simp add: held_iff take_in_free)
  have "last (free p) \<notin> set (butlast (free p))"
    using invar_distinct [OF assms(1)] ne
    by (metis append_butlast_last_id distinct_append disjoint_iff list.set_intros(1))
  then show "held (snd (take_idx p)) (fst (take_idx p))"
    using assms ne take_range [OF assms]
    by (simp add: held_iff take_invar take_free take_cap take_idx_top)
qed

lemma take_keeps_held:
  assumes "invar p" and "held p i"
  shows "held (snd (take_idx p)) i"
proof (cases "free p = []")
  case True
  with assms show ?thesis by (simp add: take_empty)
next
  case False
  with assms show ?thesis
    by (auto simp: held_iff take_invar take_cap take_free dest: in_set_butlastD)
qed

lemma put_take:
  assumes "invar p" and "held p i"
  shows "fst (take_idx (put_idx i p)) = i" and "free (snd (take_idx (put_idx i p))) = free p"
  using assms by (simp_all add: put_invar put_free take_idx_top take_free)

lemma take_put_free:
  assumes "invar p" and "0 \<le> fst (take_idx p)"
  shows "free (put_idx (fst (take_idx p)) (snd (take_idx p))) = free p"
proof -
  from assms have ne: "free p \<noteq> []" using take_fail_iff [of p] by force
  have "free (put_idx (fst (take_idx p)) (snd (take_idx p))) =
      free (snd (take_idx p)) @ [fst (take_idx p)]"
    by (rule put_free [OF take_invar [OF assms(1)] take_fresh(2) [OF assms]])
  with assms ne show ?thesis by (simp add: take_free take_idx_top)
qed

lemma put_not_held:
  "invar p \<Longrightarrow> held p i \<Longrightarrow> \<not> held (put_idx i p) i"
  by (simp add: held_iff put_invar put_free)

lemma free_bounded: "invar p \<Longrightarrow> 0 \<le> cap p \<Longrightarrow> int (length (free p)) \<le> cap p"
proof -
  assume inv: "invar p" and c: "0 \<le> cap p"
  have "card (set (free p)) \<le> card {0..<cap p}"
    by (rule card_mono) (use inv in \<open>auto dest!: invar_range\<close>)
  with inv c show ?thesis by (simp add: distinct_card invar_distinct)
qed

text \<open>A run of \<open>n\<close> allocations.\<close>

fun takes :: "nat \<Rightarrow> 'p \<Rightarrow> int list \<times> 'p" where
  "takes 0 p = ([], p)"
| "takes (Suc n) p =
     (let (i, p1) = take_idx p; (is, p2) = takes n p1 in (i # is, p2))"

lemma takes_run:
  "invar p \<Longrightarrow> n \<le> length (free p) \<Longrightarrow>
     fst (takes n p) = take n (rev (free p)) \<and>
     free (snd (takes n p)) = take (length (free p) - n) (free p) \<and>
     invar (snd (takes n p)) \<and> cap (snd (takes n p)) = cap p"
proof (induction n arbitrary: p)
  case 0
  then show ?case by simp
next
  case (Suc n)
  then have ne: "free p \<noteq> []" by auto
  define q where "q = snd (take_idx p)"
  have fq: "free q = butlast (free p)" and iq: "invar q" and cq: "cap q = cap p"
    using Suc.prems ne by (simp_all add: q_def take_free take_invar take_cap)
  have "n \<le> length (free q)" using Suc.prems fq by simp
  note IH = Suc.IH [OF iq this]
  have "rev (free p) = last (free p) # rev (butlast (free p))"
    using ne by (metis append_butlast_last_id rev.simps(2) rev_rev_ident rev_append)
  then have "take (Suc n) (rev (free p)) = last (free p) # take n (rev (butlast (free p)))"
    by (metis take_Suc_Cons)
  then show ?case
    using IH ne Suc.prems fq cq
    by (auto simp: q_def case_prod_beta Let_def take_idx_top take_butlast)
qed

lemma takes_distinct:
  "invar p \<Longrightarrow> n \<le> length (free p) \<Longrightarrow> distinct (fst (takes n p))"
  by (simp add: takes_run invar_distinct)

end

end
