(* ===== verification/Buffer_Index.thy ===== *)
theory Buffer_Index
  imports C_Heap Index_Pool
begin

text \<open>
  \<^verbatim>\<open>src/buffer_controllers/buffer_index.c\<close>: the pool of indices of the buffers registered with
  the ring in the fixed buffer mode. The struct holds a pointer to the array of free indices
  (its block and its contents), the position of the top, and the size.
\<close>

definition DEFAULT_BUFFER_IDX_REGISTRY_SIZE :: int where
  "DEFAULT_BUFFER_IDX_REGISTRY_SIZE = 128"

record FixedBufferIdxRegistry =
  bi_available_indices :: "(nat \<times> int list) option"
  bi_top :: int
  bi_size :: int

text \<open>
  The loop \<^verbatim>\<open>for (int i = 0; i < (int)size; i++) available_indices[i] = i\<close> over a fresh array
  of its size: where the bound, read as an \<^verbatim>\<open>int\<close>, is smaller than the array, the rest
  of the array keeps its indeterminate contents.
\<close>

definition fill_indices :: "int \<Rightarrow> (nat \<Rightarrow> int) \<Rightarrow> int list" where
  "fill_indices sz junk = map (\<lambda>i. if int i < c_int sz then int i else junk i) [0..<nat sz]"

definition buffer_idx_registry_create ::
  "int \<Rightarrow> heap \<Rightarrow> (nat \<times> FixedBufferIdxRegistry) option \<times> heap" where
  "buffer_idx_registry_create size0 h0 =
     (case c_malloc 16 h0 of
        (None, h1) \<Rightarrow> (None, h1)
      | (Some reg, h1) \<Rightarrow>
          (let size = (if size0 = 0 then DEFAULT_BUFFER_IDX_REGISTRY_SIZE else size0)
           in case c_malloc (size * 4) h1 of
                (None, h2) \<Rightarrow> (None, c_free (Some reg) h2)
              | (Some arr, h2) \<Rightarrow>
                  (Some (reg,
                     \<lparr>bi_available_indices = Some (arr, fill_indices size (h_junk h2 arr)),
                      bi_top = c_int (c_int size - 1), bi_size = size\<rparr>), h2)))"

definition buffer_idx_registry_destroy ::
  "FixedBufferIdxRegistry \<Rightarrow> heap \<Rightarrow> FixedBufferIdxRegistry \<times> heap" where
  "buffer_idx_registry_destroy reg h =
     (\<lparr>bi_available_indices = None, bi_top = - 1, bi_size = 0\<rparr>,
      c_free (map_option fst (bi_available_indices reg)) h)"

definition bi_array :: "FixedBufferIdxRegistry \<Rightarrow> int list" where
  "bi_array reg = (case bi_available_indices reg of None \<Rightarrow> [] | Some (_, xs) \<Rightarrow> xs)"

definition bi_set_array :: "int list \<Rightarrow> FixedBufferIdxRegistry \<Rightarrow> FixedBufferIdxRegistry" where
  "bi_set_array xs reg =
     reg\<lparr>bi_available_indices := map_option (\<lambda>(a, _). (a, xs)) (bi_available_indices reg)\<rparr>"

definition get_buffer_idx :: "FixedBufferIdxRegistry \<Rightarrow> int \<times> FixedBufferIdxRegistry" where
  "get_buffer_idx reg =
     (if bi_top reg < 0 then (- 1, reg)
      else (bi_array reg ! nat (bi_top reg), reg\<lparr>bi_top := bi_top reg - 1\<rparr>))"

definition release_buffer_idx ::
  "FixedBufferIdxRegistry \<Rightarrow> int \<Rightarrow> int \<times> FixedBufferIdxRegistry" where
  "release_buffer_idx reg index =
     (if c_int (bi_top reg + 1) \<ge> c_int (bi_size reg) then (- 1, reg)
      else (0, bi_set_array ((bi_array reg)[nat (bi_top reg + 1) := index])
                 (reg\<lparr>bi_top := bi_top reg + 1\<rparr>)))"

section \<open>The invariant and the pool contract\<close>

definition bi_free :: "FixedBufferIdxRegistry \<Rightarrow> int list" where
  "bi_free reg = take (nat (bi_top reg + 1)) (bi_array reg)"

definition bi_held :: "FixedBufferIdxRegistry \<Rightarrow> int \<Rightarrow> bool" where
  "bi_held reg i \<longleftrightarrow> 0 \<le> i \<and> i < bi_size reg \<and> i \<notin> set (bi_free reg)"

definition bi_inv :: "FixedBufferIdxRegistry \<Rightarrow> bool" where
  "bi_inv reg \<longleftrightarrow>
     0 < bi_size reg \<and> bi_size reg < 2 ^ 31 \<and> bi_available_indices reg \<noteq> None \<and>
     int (length (bi_array reg)) = bi_size reg \<and>
     - 1 \<le> bi_top reg \<and> bi_top reg < bi_size reg \<and>
     distinct (bi_free reg) \<and> set (bi_free reg) \<subseteq> {0..<bi_size reg}"

lemma bi_invI:
  assumes "0 < bi_size reg" and "bi_size reg < 2 ^ 31" and "bi_available_indices reg \<noteq> None"
    and "int (length (bi_array reg)) = bi_size reg"
    and "- 1 \<le> bi_top reg" and "bi_top reg < bi_size reg"
    and "distinct (bi_free reg)" and "set (bi_free reg) \<subseteq> {0..<bi_size reg}"
  shows "bi_inv reg"
  using assms by (simp add: bi_inv_def)

lemma bi_invD:
  assumes "bi_inv reg"
  shows "0 < bi_size reg" and "bi_size reg < 2 ^ 31" and "bi_available_indices reg \<noteq> None"
    and "int (length (bi_array reg)) = bi_size reg"
    and "- 1 \<le> bi_top reg" and "bi_top reg < bi_size reg"
    and "distinct (bi_free reg)" and "set (bi_free reg) \<subseteq> {0..<bi_size reg}"
  using assms by (simp_all add: bi_inv_def)

lemma bi_set_array_simps [simp]:
  "bi_top (bi_set_array xs reg) = bi_top reg" "bi_size (bi_set_array xs reg) = bi_size reg"
  "bi_available_indices reg \<noteq> None \<Longrightarrow> bi_array (bi_set_array xs reg) = xs"
  "bi_available_indices (bi_set_array xs reg) = None \<longleftrightarrow> bi_available_indices reg = None"
  by (auto simp: bi_set_array_def bi_array_def split: option.splits)

lemma bi_array_update [simp]:
  "bi_array (reg\<lparr>bi_top := t\<rparr>) = bi_array reg" "bi_array (reg\<lparr>bi_size := s\<rparr>) = bi_array reg"
  by (simp_all add: bi_array_def)

lemma fill_indices_small:
  "0 \<le> sz \<Longrightarrow> sz < 2 ^ 31 \<Longrightarrow> fill_indices sz junk = map int [0..<nat sz]"
  by (auto simp: fill_indices_def c_int_range_def)

lemma bi_free_length: "bi_inv reg \<Longrightarrow> int (length (bi_free reg)) = bi_top reg + 1"
  by (auto simp: bi_inv_def bi_free_def)

lemma bi_free_empty: "bi_inv reg \<Longrightarrow> bi_free reg = [] \<longleftrightarrow> bi_top reg < 0"
  by (auto simp: bi_inv_def bi_free_def)

lemma bi_free_snoc:
  assumes "bi_inv reg" and "0 \<le> bi_top reg"
  shows "bi_free reg = take (nat (bi_top reg)) (bi_array reg) @ [bi_array reg ! nat (bi_top reg)]"
proof -
  have "nat (bi_top reg + 1) = Suc (nat (bi_top reg))" using assms by simp
  moreover have "nat (bi_top reg) < length (bi_array reg)" using assms by (auto simp: bi_inv_def)
  ultimately show ?thesis by (simp add: bi_free_def take_Suc_conv_app_nth)
qed

lemma bi_held_top: 
  assumes "bi_inv reg" and "bi_held reg i"
  shows "bi_top reg + 1 < bi_size reg"
proof (rule ccontr)
  assume "\<not> bi_top reg + 1 < bi_size reg"
  with assms have "int (card (set (bi_free reg))) = bi_size reg"
    using bi_free_length [of reg] by (auto simp: bi_inv_def distinct_card)
  moreover have "finite {0..<bi_size reg}" "set (bi_free reg) \<subseteq> {0..<bi_size reg}"
    using assms by (auto simp: bi_inv_def)
  ultimately have "set (bi_free reg) = {0..<bi_size reg}"
    using assms by (intro card_subset_eq) (auto simp: bi_inv_def)
  with assms show False by (auto simp: bi_held_def)
qed

lemma release_buffer_idx_held:
  assumes "bi_inv reg" and "bi_held reg i"
  shows "fst (release_buffer_idx reg i) = 0"
    and "bi_free (snd (release_buffer_idx reg i)) = bi_free reg @ [i]"
    and "bi_size (snd (release_buffer_idx reg i)) = bi_size reg"
    and "bi_inv (snd (release_buffer_idx reg i))"
proof -
  note lt = bi_held_top [OF assms]
  have guard: "\<not> c_int (bi_top reg + 1) \<ge> c_int (bi_size reg)"
    using lt assms by (simp add: bi_inv_def c_int_range_def)
  then show "fst (release_buffer_idx reg i) = 0"
    by (simp add: release_buffer_idx_def)
  show s: "bi_size (snd (release_buffer_idx reg i)) = bi_size reg"
    by (simp add: release_buffer_idx_def)
  have "nat (bi_top reg + 1 + 1) = Suc (nat (bi_top reg + 1))"
    using assms(1) by (auto simp: bi_inv_def)
  moreover have "nat (bi_top reg + 1) < length (bi_array reg)"
    using lt assms(1) by (auto simp: bi_inv_def)
  ultimately show f: "bi_free (snd (release_buffer_idx reg i)) = bi_free reg @ [i]"
    using guard lt assms
    by (simp add: release_buffer_idx_def bi_free_def bi_inv_def take_Suc_update_last)
  show "bi_inv (snd (release_buffer_idx reg i))"
    using bi_invD [OF assms(1)] assms(2) guard lt f s
    by (intro bi_invI) (auto simp: bi_held_def release_buffer_idx_def)
qed

lemma get_buffer_idx_inv:
  assumes "bi_inv reg"
  shows "bi_inv (snd (get_buffer_idx reg))"
proof (cases "bi_top reg < 0")
  case True
  with assms show ?thesis by (simp add: get_buffer_idx_def)
next
  case False
  let ?reg = "reg\<lparr>bi_top := bi_top reg - 1\<rparr>"
  have f: "bi_free ?reg = take (nat (bi_top reg)) (bi_array reg)" by (simp add: bi_free_def)
  have "bi_free reg = bi_free ?reg @ [bi_array reg ! nat (bi_top reg)]"
    using bi_free_snoc [OF assms] False by (simp add: f)
  then have "distinct (bi_free ?reg)" "set (bi_free ?reg) \<subseteq> {0..<bi_size reg}"
    using bi_invD(7,8) [OF assms] by simp_all
  then have "bi_inv ?reg"
    using bi_invD(1-6) [OF assms] False by (intro bi_invI) simp_all
  with False show ?thesis by (simp add: get_buffer_idx_def)
qed

interpretation bpool: index_pool get_buffer_idx "\<lambda>i reg. snd (release_buffer_idx reg i)"
  bi_free bi_size bi_held bi_inv
proof (unfold_locales, goal_cases)
  case (4 p)
  then show ?case by (simp add: get_buffer_idx_def bi_free_empty)
next
  case (5 p)
  then show ?case using bi_free_empty [of p] bi_free_snoc [of p] by (simp add: get_buffer_idx_def)
next
  case (6 p)
  then show ?case
    using bi_free_empty [of p] bi_free_snoc [of p] by (simp add: get_buffer_idx_def bi_free_def)
next
  case (7 p)
  show ?case by (simp add: get_buffer_idx_def)
qed (simp_all add: bi_invD bi_held_def [of p for p] get_buffer_idx_inv
    release_buffer_idx_held [unfolded bi_held_def])

section \<open>Creation\<close>

lemma buffer_idx_registry_create_inv:
  assumes "buffer_idx_registry_create n h = (Some (a, reg), h')" and "0 \<le> n" and "n < 2 ^ 31"
  shows "bi_inv reg" and "bi_size reg = (if n = 0 then DEFAULT_BUFFER_IDX_REGISTRY_SIZE else n)"
    and "bi_free reg = map int [0..<nat (bi_size reg)]"
proof -
  define sz where "sz = (if n = 0 then DEFAULT_BUFFER_IDX_REGISTRY_SIZE else n)"
  have sz: "0 < sz" "sz < 2 ^ 31" using assms(2,3) by (auto simp: sz_def DEFAULT_BUFFER_IDX_REGISTRY_SIZE_def)
  then have ci: "c_int sz = sz" "c_int (sz - 1) = sz - 1" by (simp_all add: c_int_range_def)
  have r: "bi_size reg = sz" "bi_top reg = sz - 1" "\<exists>b. bi_available_indices reg = Some (b, map int [0..<nat sz])"
    using assms(1) sz ci
    by (auto simp: buffer_idx_registry_create_def Let_def sz_def [symmetric] fill_indices_small
        split: prod.splits option.splits)
  then have arr: "bi_array reg = map int [0..<nat sz]" by (auto simp: bi_array_def)
  show "bi_size reg = (if n = 0 then DEFAULT_BUFFER_IDX_REGISTRY_SIZE else n)" using r by (simp add: sz_def)
  show f: "bi_free reg = map int [0..<nat (bi_size reg)]" using sz by (simp add: bi_free_def r arr)
  show "bi_inv reg" using sz f r by (intro bi_invI) (auto simp: arr distinct_map inj_on_def)
qed

section \<open>Properties\<close>

definition pool2 :: FixedBufferIdxRegistry where
  "pool2 = \<lparr>bi_available_indices = Some (1, [0, 1]), bi_top = 1, bi_size = 2\<rparr>"

lemma create_pool2:
  "buffer_idx_registry_create 2 init_heap = (Some (0, pool2), init_heap\<lparr>h_next := 2, h_live := {0, 1}\<rparr>)"
  by (simp add: buffer_idx_registry_create_def c_malloc_def init_heap_def alloc_max_def fill_indices_def
      pool2_def Let_def c_int_range_def insert_commute upt_conv_Cons numeral_2_eq_2)

lemma pool2_inv [simp]: "bi_inv pool2" "bi_free pool2 = [0, 1]"
  using buffer_idx_registry_create_inv [OF create_pool2] by (simp_all add: pool2_def upt_conv_Cons)

text \<open>
  C26. A pool of fixed-buffer indices made for \<open>n\<close> buffers (128 when \<open>n\<close> is 0) hands out each of the
  indices below its size exactly once, the largest first, and then reports that none is left.
\<close>

theorem fixed_buffer_pool_exhausts:
  assumes "buffer_idx_registry_create n h = (Some (a, reg), h')" and "0 \<le> n" and "n < 2 ^ 31"
  shows "bi_inv reg \<and>
    fst (bpool.takes (nat (bi_size reg)) reg) = rev (map int [0..<nat (bi_size reg)]) \<and>
    fst (get_buffer_idx (snd (bpool.takes (nat (bi_size reg)) reg))) = - 1"
proof -
  note c = buffer_idx_registry_create_inv [OF assms]
  have "nat (bi_size reg) \<le> length (bi_free reg)" by (simp add: c(3))
  note run = bpool.takes_run [OF c(1) this]
  have "free_left = []" if "free_left = bi_free (snd (bpool.takes (nat (bi_size reg)) reg))" for free_left
    using run that by (simp add: c(3))
  with run c show ?thesis using bpool.take_empty by simp
qed

theorem fixed_buffer_pool_exhausts_witness:
  "fst (bpool.takes 2 pool2) = [1, 0]"
  using fixed_buffer_pool_exhausts [OF create_pool2] by (simp add: pool2_def numeral_2_eq_2)

text \<open>
  C27. Giving back an index that is held succeeds, keeps the pool well formed, makes the index the next
  one to be handed out, and does not touch the others; a pool whose indices are all free refuses.
\<close>

theorem release_buffer_idx_correct:
  assumes "bi_inv reg"
  shows "(bi_held reg i \<longrightarrow> (\<exists>reg'. release_buffer_idx reg i = (0, reg') \<and> bi_inv reg' \<and>
            \<not> bi_held reg' i \<and> fst (get_buffer_idx reg') = i \<and>
            (\<forall>j. j \<noteq> i \<longrightarrow> bi_held reg' j = bi_held reg j))) \<and>
    ((\<forall>j. \<not> bi_held reg j) \<longrightarrow> release_buffer_idx reg i = (- 1, reg))"
proof (intro conjI impI)
  assume held: "bi_held reg i"
  note r = release_buffer_idx_held [OF assms held]
  have "\<forall>j. j \<noteq> i \<longrightarrow> bi_held (snd (release_buffer_idx reg i)) j = bi_held reg j"
    using r by (auto simp: bi_held_def)
  moreover have "\<not> bi_held (snd (release_buffer_idx reg i)) i"
    by (rule bpool.put_not_held [OF assms held])
  moreover have "fst (get_buffer_idx (snd (release_buffer_idx reg i))) = i"
    by (rule bpool.put_take(1) [OF assms held])
  ultimately show "\<exists>reg'. release_buffer_idx reg i = (0, reg') \<and> bi_inv reg' \<and> \<not> bi_held reg' i \<and>
      fst (get_buffer_idx reg') = i \<and> (\<forall>j. j \<noteq> i \<longrightarrow> bi_held reg' j = bi_held reg j)"
    using r by (intro exI [of _ "snd (release_buffer_idx reg i)"]) (simp add: prod_eq_iff)
next
  assume none: "\<forall>j. \<not> bi_held reg j"
  have "{0..<bi_size reg} \<subseteq> set (bi_free reg)" using none by (auto simp: bi_held_def)
  then have "card {0..<bi_size reg} \<le> card (set (bi_free reg))" by (intro card_mono) simp_all
  then have "bi_size reg \<le> bi_top reg + 1"
    using bi_free_length [OF assms] bi_invD(7) [OF assms] by (simp add: distinct_card)
  then show "release_buffer_idx reg i = (- 1, reg)"
    using bi_invD [OF assms] by (simp add: release_buffer_idx_def c_int_range_def)
qed

theorem release_buffer_idx_correct_witness:
  "release_buffer_idx pool2 1 = (- 1, pool2) \<and>
   (\<exists>reg'. release_buffer_idx (snd (get_buffer_idx pool2)) 1 = (0, reg') \<and> bi_inv reg')"
proof -
  have "\<forall>j. \<not> bi_held pool2 j" by (auto simp: bi_held_def) (simp add: pool2_def)
  moreover have "bi_held (snd (get_buffer_idx pool2)) 1"
    by (simp add: bi_held_def get_buffer_idx_def pool2_def bi_free_def bi_array_def)
  ultimately show ?thesis
    using release_buffer_idx_correct [OF pool2_inv(1), of 1]
      release_buffer_idx_correct [OF get_buffer_idx_inv [OF pool2_inv(1)], of 1] by blast
qed

text \<open>
  Giving back an index that is free already, while another one is held, is accepted: the index is
  in the pool twice, and two operations in flight may be given the same registered buffer.
\<close>

lemma release_free_buffer_idx_duplicates:
  assumes "bi_inv reg" and "bi_held reg j" and "i \<in> set (bi_free reg)"
  shows "\<exists>reg'. release_buffer_idx reg i = (0, reg') \<and> bi_free reg' = bi_free reg @ [i] \<and> \<not> bi_inv reg'"
proof -
  note lt = bi_held_top [OF assms(1,2)] and inv = bi_invD [OF assms(1)]
  have guard: "\<not> c_int (bi_top reg + 1) \<ge> c_int (bi_size reg)" using lt inv by (simp add: c_int_range_def)
  have "nat (bi_top reg + 1 + 1) = Suc (nat (bi_top reg + 1))" using inv(5) by simp
  moreover have "nat (bi_top reg + 1) < length (bi_array reg)" using lt inv(4,5) by linarith
  ultimately have f: "bi_free (snd (release_buffer_idx reg i)) = bi_free reg @ [i]"
    using guard inv(3) by (simp add: release_buffer_idx_def bi_free_def take_Suc_update_last)
  then have "\<not> bi_inv (snd (release_buffer_idx reg i))" using assms(3) bi_invD(7) by fastforce
  with f guard show ?thesis by (simp add: release_buffer_idx_def)
qed

end
