(* ===== verification/Registry.thy ===== *)
theory Registry
  imports Buffer_Ownership Buffer_Index
begin

text \<open>
  \<^verbatim>\<open>src/registry/registry.c\<close>: the table that maps the index of a request, which travels through
  the kernel as user data, to what the request was made for. The table is an array of slots with
  a stack of free indices. A slot holds references to its future and to the file or socket, and
  owns its buffer payload and its message header. \<open>P\<close> gives the contents of the payload at a
  block; the model of \<^verbatim>\<open>abort()\<close> is \<open>None\<close>.
\<close>

datatype StreamStrategy = ONESHOT | MULTISHOT

datatype TransferMode = NORMAL_TRANSFER | ZERO_COPY

record RequestSlot =
  sl_user_data :: u64
  sl_future :: "nat option"
  sl_stream_strategy :: StreamStrategy
  sl_buffer_payload :: "nat option"
  sl_opcode :: int
  sl_file :: "nat option"
  sl_socket :: "nat option"
  sl_addr :: "nat option"
  sl_msghdr :: "nat option"

record RequestRegistry =
  rr_addr :: nat
  rr_slots_addr :: nat
  rr_slots :: "RequestSlot list"
  rr_available_addr :: nat
  rr_available_indices :: "int list"
  rr_top :: int
  rr_size :: int

definition DEFAULT_REGISTRY_SIZE :: int where
  "DEFAULT_REGISTRY_SIZE = 25000"

definition zero_slot :: RequestSlot where
  "zero_slot =
     \<lparr>sl_user_data = 0, sl_future = None, sl_stream_strategy = ONESHOT, sl_buffer_payload = None,
      sl_opcode = 0, sl_file = None, sl_socket = None, sl_addr = None, sl_msghdr = None\<rparr>"

definition payload_at :: "(nat \<Rightarrow> BufferPayload) \<Rightarrow> nat option \<Rightarrow> (nat \<times> BufferPayload) option" where
  "payload_at P pa = map_option (\<lambda>a. (a, P a)) pa"

definition registry_new :: "int \<Rightarrow> heap \<Rightarrow> RequestRegistry option \<times> heap" where
  "registry_new size0 h0 =
     (case c_malloc 24 h0 of
        (None, h1) \<Rightarrow> (None, h1)
      | (Some reg, h1) \<Rightarrow>
          (let sz = (if size0 = 0 then DEFAULT_REGISTRY_SIZE else size0)
           in case c_malloc (sz * 72) h1 of
                (None, h2) \<Rightarrow> (None, c_free (Some reg) h2)
              | (Some sa, h2) \<Rightarrow>
                  (case c_malloc (sz * 4) h2 of
                     (None, h3) \<Rightarrow> (None, c_free (Some reg) (c_free (Some sa) h3))
                   | (Some aa, h3) \<Rightarrow>
                       (Some \<lparr>rr_addr = reg, rr_slots_addr = sa,
                              rr_slots = replicate (nat sz) zero_slot,
                              rr_available_addr = aa,
                              rr_available_indices = fill_indices sz (h_junk h3 aa),
                              rr_top = c_int (c_int sz - 1), rr_size = sz\<rparr>, h3))))"

definition registry_add ::
  "RequestRegistry \<Rightarrow> nat \<Rightarrow> nat option \<Rightarrow> StreamStrategy \<Rightarrow> int \<Rightarrow> nat option \<Rightarrow> nat option
     \<Rightarrow> nat option \<Rightarrow> nat option \<Rightarrow> heap \<Rightarrow> int \<times> RequestRegistry \<times> heap" where
  "registry_add reg future buffer_payload stream_strategy opcode file socket sockaddr msghdr h =
     (if rr_top reg < 0 then (- 1, reg, h)
      else
        let index = rr_available_indices reg ! nat (rr_top reg);
            slot = (rr_slots reg ! nat index)
              \<lparr>sl_user_data := idx_to_data index, sl_opcode := opcode,
               sl_future := Some future, sl_buffer_payload := buffer_payload,
               sl_socket := socket, sl_file := file, sl_addr := sockaddr,
               sl_stream_strategy := stream_strategy, sl_msghdr := msghdr\<rparr>
        in (index,
            reg\<lparr>rr_top := rr_top reg - 1, rr_slots := (rr_slots reg)[nat index := slot]\<rparr>,
            py_xincref file (py_xincref socket (py_incref future h))))"

definition registry_get :: "RequestRegistry \<Rightarrow> int \<Rightarrow> RequestSlot option" where
  "registry_get reg index =
     (if index < 0 \<or> index \<ge> c_int (rr_size reg) then None else Some (rr_slots reg ! nat index))"

definition clear_slot :: "RequestSlot \<Rightarrow> RequestSlot" where
  "clear_slot slot =
     slot\<lparr>sl_future := None, sl_buffer_payload := None, sl_socket := None, sl_file := None,
          sl_msghdr := None, sl_opcode := 0\<rparr>"

definition release_slot :: "(nat \<Rightarrow> BufferPayload) \<Rightarrow> RequestSlot \<Rightarrow> heap \<Rightarrow> heap" where
  "release_slot P slot h =
     c_free (sl_msghdr slot)
       (py_xdecref (sl_file slot)
         (py_xdecref (sl_socket slot)
           (free_buffer_payload (payload_at P (sl_buffer_payload slot)) False
             (py_xdecref (sl_future slot) h))))"

definition registry_remove ::
  "(nat \<Rightarrow> BufferPayload) \<Rightarrow> RequestRegistry \<Rightarrow> int \<Rightarrow> heap \<Rightarrow> (RequestRegistry \<times> heap) option" where
  "registry_remove P reg index h =
     (if index < 0 \<or> index \<ge> c_int (rr_size reg) then Some (reg, h)
      else if rr_top reg \<ge> c_int (c_int (rr_size reg) - 1) then None
      else
        let slot = rr_slots reg ! nat index
        in Some (reg\<lparr>rr_slots := (rr_slots reg)[nat index := clear_slot slot],
                     rr_top := rr_top reg + 1,
                     rr_available_indices := (rr_available_indices reg)[nat (rr_top reg + 1) := index]\<rparr>,
                 release_slot P slot h))"

definition destroy_slot :: "(nat \<Rightarrow> BufferPayload) \<Rightarrow> RequestSlot \<Rightarrow> heap \<Rightarrow> heap" where
  "destroy_slot P slot h =
     py_xdecref (sl_file slot)
       (py_xdecref (sl_socket slot)
         (free_buffer_payload (payload_at P (sl_buffer_payload slot)) True
           (py_xdecref (sl_future slot) h)))"

definition registry_destroy :: "(nat \<Rightarrow> BufferPayload) \<Rightarrow> RequestRegistry option \<Rightarrow> heap \<Rightarrow> heap" where
  "registry_destroy P reg_ptr h =
     (case reg_ptr of
        None \<Rightarrow> h
      | Some reg \<Rightarrow>
          c_free (Some (rr_addr reg))
            (c_free (Some (rr_available_addr reg))
              (c_free (Some (rr_slots_addr reg))
                (fold (destroy_slot P) (take (nat (rr_size reg)) (rr_slots reg)) h))))"

section \<open>The invariant\<close>

definition reg_free :: "RequestRegistry \<Rightarrow> int list" where
  "reg_free reg = take (nat (rr_top reg + 1)) (rr_available_indices reg)"

definition slot_blank :: "RequestSlot \<Rightarrow> bool" where
  "slot_blank s \<longleftrightarrow> sl_future s = None \<and> sl_buffer_payload s = None \<and> sl_socket s = None \<and>
     sl_file s = None \<and> sl_msghdr s = None \<and> sl_opcode s = 0"

definition reg_inv :: "RequestRegistry \<Rightarrow> bool" where
  "reg_inv reg \<longleftrightarrow>
     0 < rr_size reg \<and> rr_size reg < 2 ^ 31 \<and>
     int (length (rr_slots reg)) = rr_size reg \<and>
     int (length (rr_available_indices reg)) = rr_size reg \<and>
     - 1 \<le> rr_top reg \<and> rr_top reg < rr_size reg \<and>
     distinct (reg_free reg) \<and> set (reg_free reg) \<subseteq> {0..<rr_size reg} \<and>
     (\<forall>i < length (rr_slots reg). sl_future (rr_slots reg ! i) = None \<longleftrightarrow> int i \<in> set (reg_free reg)) \<and>
     (\<forall>i < length (rr_slots reg). sl_future (rr_slots reg ! i) = None \<longrightarrow> slot_blank (rr_slots reg ! i))"

text \<open>The abstract table: a finite map from indices to the slots in use.\<close>

definition reg_abs :: "RequestRegistry \<Rightarrow> int \<rightharpoonup> RequestSlot" where
  "reg_abs reg i =
     (if 0 \<le> i \<and> i < rr_size reg \<and> sl_future (rr_slots reg ! nat i) \<noteq> None
      then Some (rr_slots reg ! nat i) else None)"

lemma reg_invI:
  assumes "0 < rr_size reg" and "rr_size reg < 2 ^ 31"
    and "int (length (rr_slots reg)) = rr_size reg"
    and "int (length (rr_available_indices reg)) = rr_size reg"
    and "- 1 \<le> rr_top reg" and "rr_top reg < rr_size reg"
    and "distinct (reg_free reg)" and "set (reg_free reg) \<subseteq> {0..<rr_size reg}"
    and "\<And>i. i < length (rr_slots reg) \<Longrightarrow>
           sl_future (rr_slots reg ! i) = None \<longleftrightarrow> int i \<in> set (reg_free reg)"
    and "\<And>i. i < length (rr_slots reg) \<Longrightarrow> sl_future (rr_slots reg ! i) = None \<Longrightarrow>
           slot_blank (rr_slots reg ! i)"
  shows "reg_inv reg"
  using assms by (simp add: reg_inv_def)

lemma reg_invD:
  assumes "reg_inv reg"
  shows "0 < rr_size reg" and "rr_size reg < 2 ^ 31"
    and "int (length (rr_slots reg)) = rr_size reg"
    and "int (length (rr_available_indices reg)) = rr_size reg"
    and "- 1 \<le> rr_top reg" and "rr_top reg < rr_size reg"
    and "distinct (reg_free reg)" and "set (reg_free reg) \<subseteq> {0..<rr_size reg}"
    and "\<And>i. i < length (rr_slots reg) \<Longrightarrow>
           sl_future (rr_slots reg ! i) = None \<longleftrightarrow> int i \<in> set (reg_free reg)"
    and "\<And>i. i < length (rr_slots reg) \<Longrightarrow> sl_future (rr_slots reg ! i) = None \<Longrightarrow>
           slot_blank (rr_slots reg ! i)"
  using assms by (simp_all add: reg_inv_def)

lemma reg_inv_c_int [simp]: "reg_inv reg \<Longrightarrow> c_int (rr_size reg) = rr_size reg"
  by (simp add: reg_inv_def c_int_range_def)

lemma reg_inv_c_int_pred [simp]: "reg_inv reg \<Longrightarrow> c_int (rr_size reg - 1) = rr_size reg - 1"
  by (simp add: reg_inv_def c_int_range_def)

lemma reg_abs_iff:
  assumes "reg_inv reg" and "0 \<le> i" and "i < rr_size reg"
  shows "reg_abs reg i = None \<longleftrightarrow> i \<in> set (reg_free reg)"
proof -
  have "nat i < length (rr_slots reg)" using reg_invD(3) [OF assms(1)] assms(2,3) by linarith
  from reg_invD(9) [OF assms(1) this] assms show ?thesis by (auto simp: reg_abs_def)
qed

lemma reg_abs_range: "reg_abs reg i = Some s \<Longrightarrow> 0 \<le> i \<and> i < rr_size reg"
  by (simp add: reg_abs_def split: if_splits)

lemma reg_abs_dom:
  assumes "reg_inv reg"
  shows "dom (reg_abs reg) = {0..<rr_size reg} - set (reg_free reg)"
proof (rule set_eqI)
  fix i
  show "i \<in> dom (reg_abs reg) \<longleftrightarrow> i \<in> {0..<rr_size reg} - set (reg_free reg)"
  proof (cases "0 \<le> i \<and> i < rr_size reg")
    case True
    then show ?thesis using reg_abs_iff [OF assms, of i] by (simp add: domIff)
  next
    case False
    then have "reg_abs reg i = None" using reg_abs_range [of reg i] by (cases "reg_abs reg i") simp_all
    with False show ?thesis by (auto simp: domIff)
  qed
qed

lemma reg_free_snoc:
  assumes "reg_inv reg" and "0 \<le> rr_top reg"
  shows "reg_free reg =
    take (nat (rr_top reg)) (rr_available_indices reg) @ [rr_available_indices reg ! nat (rr_top reg)]"
proof -
  have "nat (rr_top reg + 1) = Suc (nat (rr_top reg))" using assms(2) by simp
  moreover have "nat (rr_top reg) < length (rr_available_indices reg)"
    using reg_invD(4,6) [OF assms(1)] assms(2) by linarith
  ultimately show ?thesis by (simp add: reg_free_def take_Suc_conv_app_nth)
qed

lemma reg_free_length: "reg_inv reg \<Longrightarrow> int (length (reg_free reg)) = rr_top reg + 1"
  using reg_invD(4-6) [of reg] by (simp add: reg_free_def)

lemma reg_free_empty: "reg_inv reg \<Longrightarrow> reg_free reg = [] \<longleftrightarrow> rr_top reg < 0"
  using reg_free_length [of reg] reg_invD(5) [of reg] by (cases "reg_free reg") simp_all

section \<open>Creation\<close>

lemma registry_new_inv:
  assumes "registry_new n h = (Some reg, h')" and "0 \<le> n" and "n < 2 ^ 31"
  shows "reg_inv reg" and "reg_abs reg = Map.empty"
    and "rr_size reg = (if n = 0 then DEFAULT_REGISTRY_SIZE else n)"
    and "reg_free reg = map int [0..<nat (rr_size reg)]"
proof -
  define sz where "sz = (if n = 0 then DEFAULT_REGISTRY_SIZE else n)"
  have sz: "0 < sz" "sz < 2 ^ 31" using assms(2,3) by (auto simp: sz_def DEFAULT_REGISTRY_SIZE_def)
  then have ci: "c_int sz = sz" "c_int (sz - 1) = sz - 1" by (simp_all add: c_int_range_def)
  have r: "rr_size reg = sz" "rr_top reg = sz - 1" "rr_slots reg = replicate (nat sz) zero_slot"
      "rr_available_indices reg = map int [0..<nat sz]"
    using assms(1) sz ci
    by (auto simp: registry_new_def Let_def sz_def [symmetric] fill_indices_small
        split: prod.splits option.splits)
  then show "rr_size reg = (if n = 0 then DEFAULT_REGISTRY_SIZE else n)" by (simp add: sz_def)
  show f: "reg_free reg = map int [0..<nat (rr_size reg)]"
    using sz by (simp add: reg_free_def r)
  show "reg_inv reg"
    using sz f by (intro reg_invI) (auto simp: r zero_slot_def slot_blank_def distinct_map inj_on_def)
  show "reg_abs reg = Map.empty"
    by (rule ext) (auto simp: reg_abs_def r zero_slot_def)
qed

section \<open>Adding a request\<close>

lemma registry_add_full:
  "reg_inv reg \<Longrightarrow> reg_free reg = [] \<Longrightarrow>
     registry_add reg fu bp st oc fi so ad ms h = (- 1, reg, h)"
  by (simp add: registry_add_def reg_free_empty)

lemma registry_add_shape:
  assumes "reg_inv reg" and "reg_free reg \<noteq> []"
  defines "i \<equiv> last (reg_free reg)"
  shows "registry_add reg fu bp st oc fi so ad ms h =
    (i, reg\<lparr>rr_top := rr_top reg - 1,
          rr_slots := (rr_slots reg)[nat i := (rr_slots reg ! nat i)
            \<lparr>sl_user_data := idx_to_data i, sl_opcode := oc, sl_future := Some fu,
             sl_buffer_payload := bp, sl_socket := so, sl_file := fi, sl_addr := ad,
             sl_stream_strategy := st, sl_msghdr := ms\<rparr>]\<rparr>,
     py_xincref fi (py_xincref so (py_incref fu h)))"
  and "0 \<le> i" and "i < rr_size reg" and "nat i < length (rr_slots reg)" and "reg_abs reg i = None"
proof -
  have top: "0 \<le> rr_top reg" using assms(1,2) reg_free_empty [of reg] by simp
  then have "i = rr_available_indices reg ! nat (rr_top reg)"
    using reg_free_snoc [OF assms(1)] by (simp add: i_def)
  then show "registry_add reg fu bp st oc fi so ad ms h =
    (i, reg\<lparr>rr_top := rr_top reg - 1,
          rr_slots := (rr_slots reg)[nat i := (rr_slots reg ! nat i)
            \<lparr>sl_user_data := idx_to_data i, sl_opcode := oc, sl_future := Some fu,
             sl_buffer_payload := bp, sl_socket := so, sl_file := fi, sl_addr := ad,
             sl_stream_strategy := st, sl_msghdr := ms\<rparr>]\<rparr>,
     py_xincref fi (py_xincref so (py_incref fu h)))"
    using top by (simp add: registry_add_def Let_def)
  have mem: "i \<in> set (reg_free reg)" using assms(2) by (simp add: i_def)
  then show r: "0 \<le> i" "i < rr_size reg" using reg_invD(8) [OF assms(1)] by auto
  then show "nat i < length (rr_slots reg)" using reg_invD(3) [OF assms(1)] by linarith
  show "reg_abs reg i = None" using reg_abs_iff [OF assms(1) r] mem by simp
qed

lemma registry_add_free:
  assumes "reg_inv reg" and "reg_free reg \<noteq> []"
    and "registry_add reg fu bp st oc fi so ad ms h = (i, reg', h')"
  shows "reg_free reg' = butlast (reg_free reg)" and "rr_size reg' = rr_size reg"
    and "rr_available_indices reg' = rr_available_indices reg"
proof -
  have top: "0 \<le> rr_top reg" using assms(1,2) reg_free_empty [of reg] by simp
  note sh = registry_add_shape(1) [OF assms(1,2), of fu bp st oc fi so ad ms h]
  from sh assms(3) have r: "rr_top reg' = rr_top reg - 1" "rr_size reg' = rr_size reg"
      "rr_available_indices reg' = rr_available_indices reg" by auto
  then show "rr_size reg' = rr_size reg" "rr_available_indices reg' = rr_available_indices reg" by auto
  show "reg_free reg' = butlast (reg_free reg)"
    using reg_free_snoc [OF assms(1) top] by (simp add: reg_free_def r)
qed

lemma registry_add_inv:
  assumes "reg_inv reg" and "registry_add reg fu bp st oc fi so ad ms h = (i, reg', h')"
  shows "reg_inv reg'"
proof (cases "reg_free reg = []")
  case True
  with assms registry_add_full [OF assms(1) True, of fu bp st oc fi so ad ms h] show ?thesis by simp
next
  case False
  note sh = registry_add_shape(1) [OF assms(1) False, of fu bp st oc fi so ad ms h]
    registry_add_shape(2-5) [OF assms(1) False]
  note fr = registry_add_free [OF assms(1) False assms(2)]
  let ?i = "last (reg_free reg)"
  from sh(1) assms(2) have i: "i = ?i" and r: "rr_top reg' = rr_top reg - 1"
    "rr_slots reg' = (rr_slots reg)[nat ?i := (rr_slots reg ! nat ?i)
            \<lparr>sl_user_data := idx_to_data ?i, sl_opcode := oc, sl_future := Some fu,
             sl_buffer_payload := bp, sl_socket := so, sl_file := fi, sl_addr := ad,
             sl_stream_strategy := st, sl_msghdr := ms\<rparr>]" by auto
  have snoc: "reg_free reg = reg_free reg' @ [?i]" using fr(1) False by simp
  then have d: "?i \<notin> set (reg_free reg')" "distinct (reg_free reg')"
    using reg_invD(7) [OF assms(1)] by (metis distinct_append disjoint_iff list.set_intros(1), metis distinct_append)
  note inv = reg_invD [OF assms(1)]
  show ?thesis
  proof (rule reg_invI)
    show "set (reg_free reg') \<subseteq> {0..<rr_size reg'}" using inv(8) snoc fr(2) by (metis Un_subset_iff set_append)
    show "- 1 \<le> rr_top reg'" using r reg_free_empty [OF assms(1)] False by simp
    fix j assume j: "j < length (rr_slots reg')"
    then have j': "j < length (rr_slots reg)" by (simp add: r)
    have mem: "int j \<in> set (reg_free reg) \<longleftrightarrow> int j = ?i \<or> int j \<in> set (reg_free reg')"
      using snoc by (metis Un_iff empty_iff insert_iff list.set(1) list.simps(15) set_append)
    show "sl_future (rr_slots reg' ! j) = None \<longleftrightarrow> int j \<in> set (reg_free reg')"
      using inv(9) [OF j'] mem d(1) sh(2) j' by (cases "j = nat ?i") (auto simp: r)
    show "slot_blank (rr_slots reg' ! j)" if "sl_future (rr_slots reg' ! j) = None"
      using inv(10) [OF j'] that j' by (cases "j = nat ?i") (auto simp: r)
  qed (use inv(1-6) fr r d in simp_all)
qed

lemma registry_add_abs:
  assumes "reg_inv reg" and "reg_free reg \<noteq> []"
    and "registry_add reg fu bp st oc fi so ad ms h = (i, reg', h')"
  shows "i = last (reg_free reg)" and "reg_abs reg i = None"
    and "reg_abs reg' = (reg_abs reg)(i \<mapsto>
      \<lparr>sl_user_data = idx_to_data i, sl_future = Some fu, sl_stream_strategy = st,
       sl_buffer_payload = bp, sl_opcode = oc, sl_file = fi, sl_socket = so, sl_addr = ad,
       sl_msghdr = ms\<rparr>)"
    and "h' = py_xincref fi (py_xincref so (py_incref fu h))"
proof -
  note sh = registry_add_shape(1) [OF assms(1,2), of fu bp st oc fi so ad ms h]
    registry_add_shape(2-5) [OF assms(1,2)]
  show i: "i = last (reg_free reg)" and "h' = py_xincref fi (py_xincref so (py_incref fu h))"
    using sh(1) assms(3) by simp_all
  show "reg_abs reg i = None" using sh(5) i by simp
  show "reg_abs reg' = (reg_abs reg)(i \<mapsto>
      \<lparr>sl_user_data = idx_to_data i, sl_future = Some fu, sl_stream_strategy = st,
       sl_buffer_payload = bp, sl_opcode = oc, sl_file = fi, sl_socket = so, sl_addr = ad,
       sl_msghdr = ms\<rparr>)"
  proof (rule ext)
    fix j
    have reg': "reg' = fst (snd (registry_add reg fu bp st oc fi so ad ms h))" using assms(3) by simp
    have "nat j \<noteq> nat i" if "j \<noteq> i" "0 \<le> j" using that sh(2) i by simp
    then show "reg_abs reg' j = ((reg_abs reg)(i \<mapsto>
      \<lparr>sl_user_data = idx_to_data i, sl_future = Some fu, sl_stream_strategy = st,
       sl_buffer_payload = bp, sl_opcode = oc, sl_file = fi, sl_socket = so, sl_addr = ad,
       sl_msghdr = ms\<rparr>)) j"
      using sh(2-4) unfolding reg' sh(1) i [symmetric]
      by (cases "j = i"; cases "0 \<le> j") (simp_all add: reg_abs_def)
  qed
qed

section \<open>Looking up and removing a request\<close>

lemma registry_get_abs:
  assumes "reg_inv reg" and "reg_abs reg i = Some s"
  shows "registry_get reg i = Some s"
  using assms by (simp add: registry_get_def reg_abs_def split: if_splits)

lemma registry_get_None_iff:
  "reg_inv reg \<Longrightarrow> registry_get reg i = None \<longleftrightarrow> i \<notin> {0..<rr_size reg}"
  by (auto simp: registry_get_def)

lemma registry_get_free:
  assumes "reg_inv reg" and "i \<in> set (reg_free reg)"
  shows "\<exists>s. registry_get reg i = Some s \<and> slot_blank s"
proof -
  have r: "0 \<le> i" "i < rr_size reg" using reg_invD(8) [OF assms(1)] assms(2) by auto
  then have n: "nat i < length (rr_slots reg)" using reg_invD(3) [OF assms(1)] by linarith
  have "slot_blank (rr_slots reg ! nat i)"
    using reg_invD(10) [OF assms(1) n] reg_invD(9) [OF assms(1) n] r assms(2) by simp
  with r assms(1) show ?thesis by (simp add: registry_get_def)
qed

lemma reg_held_top:
  assumes "reg_inv reg" and "0 \<le> i" and "i < rr_size reg" and "i \<notin> set (reg_free reg)"
  shows "rr_top reg + 1 < rr_size reg"
proof (rule ccontr)
  note inv = reg_invD [OF assms(1)]
  assume "\<not> rr_top reg + 1 < rr_size reg"
  then have "int (card (set (reg_free reg))) = rr_size reg"
    using reg_free_length [OF assms(1)] inv(6,7) by (simp add: distinct_card)
  then have "set (reg_free reg) = {0..<rr_size reg}"
    using inv(1,8) by (intro card_subset_eq) simp_all
  with assms(2-4) show False by simp
qed

lemma registry_remove_held:
  assumes "reg_inv reg" and "reg_abs reg i = Some s"
  shows "registry_remove P reg i h =
    Some (reg\<lparr>rr_slots := (rr_slots reg)[nat i := clear_slot s], rr_top := rr_top reg + 1,
              rr_available_indices := (rr_available_indices reg)[nat (rr_top reg + 1) := i]\<rparr>,
          release_slot P s h)"
proof -
  have r: "0 \<le> i" "i < rr_size reg" "s = rr_slots reg ! nat i"
    using assms(2) by (auto simp: reg_abs_def split: if_splits)
  have "i \<notin> set (reg_free reg)" using reg_abs_iff [OF assms(1) r(1,2)] assms(2) by simp
  note lt = reg_held_top [OF assms(1) r(1,2) this]
  then show ?thesis using r assms(1) by (simp add: registry_remove_def Let_def)
qed

lemma registry_remove_effect:
  assumes "reg_inv reg" and "reg_abs reg i = Some s"
    and "registry_remove P reg i h = Some (reg', h')"
  shows "reg_inv reg'" and "reg_abs reg' = (reg_abs reg)(i := None)"
    and "reg_free reg' = reg_free reg @ [i]" and "rr_size reg' = rr_size reg"
    and "h' = release_slot P s h"
proof -
  note inv = reg_invD [OF assms(1)]
  have r: "0 \<le> i" "i < rr_size reg" "s = rr_slots reg ! nat i"
    using assms(2) by (auto simp: reg_abs_def split: if_splits)
  have nf: "i \<notin> set (reg_free reg)" using reg_abs_iff [OF assms(1) r(1,2)] assms(2) by simp
  note lt = reg_held_top [OF assms(1) r(1,2) nf]
  have reg': "rr_slots reg' = (rr_slots reg)[nat i := clear_slot s]" "rr_top reg' = rr_top reg + 1"
      "rr_available_indices reg' = (rr_available_indices reg)[nat (rr_top reg + 1) := i]"
      and sz: "rr_size reg' = rr_size reg" and h': "h' = release_slot P s h"
    using registry_remove_held [OF assms(1,2), of P h] assms(3) by auto
  show "rr_size reg' = rr_size reg" "h' = release_slot P s h" by fact+
  have "nat (rr_top reg + 1 + 1) = Suc (nat (rr_top reg + 1))" using inv(5) by simp
  moreover have "nat (rr_top reg + 1) < length (rr_available_indices reg)"
    using lt inv(4,5) by linarith
  ultimately show f: "reg_free reg' = reg_free reg @ [i]"
    by (simp add: reg_free_def reg' take_Suc_update_last)
  show abs: "reg_abs reg' = (reg_abs reg)(i := None)"
  proof (rule ext)
    fix j
    have "nat i < length (rr_slots reg)" using r inv(3) by linarith
    moreover have "nat j \<noteq> nat i" if "j \<noteq> i" "0 \<le> j" using that r by simp
    ultimately show "reg_abs reg' j = ((reg_abs reg)(i := None)) j"
      by (cases "j = i"; cases "0 \<le> j") (simp_all add: reg_abs_def reg' sz clear_slot_def)
  qed
  show "reg_inv reg'"
  proof (rule reg_invI)
    fix j assume j: "j < length (rr_slots reg')"
    then have j': "j < length (rr_slots reg)" by (simp add: reg')
    have ij: "int j = i \<longleftrightarrow> j = nat i" using r by auto
    show "sl_future (rr_slots reg' ! j) = None \<longleftrightarrow> int j \<in> set (reg_free reg')"
      using inv(9) [OF j'] ij j' by (cases "j = nat i") (auto simp: f reg' clear_slot_def)
    show "slot_blank (rr_slots reg' ! j)" if "sl_future (rr_slots reg' ! j) = None"
      using inv(10) [OF j'] that j' by (cases "j = nat i") (auto simp: reg' clear_slot_def slot_blank_def)
  qed (use inv(1-8) r lt nf in \<open>auto simp: f reg' sz\<close>)
qed

lemma registry_remove_ignored:
  "reg_inv reg \<Longrightarrow> i \<notin> {0..<rr_size reg} \<Longrightarrow> registry_remove P reg i h = Some (reg, h)"
  by (auto simp: registry_remove_def)

lemma registry_remove_abort_iff:
  assumes "reg_inv reg"
  shows "registry_remove P reg i h = None \<longleftrightarrow> i \<in> {0..<rr_size reg} \<and> reg_abs reg = Map.empty"
proof (cases "i \<in> {0..<rr_size reg}")
  case False
  with assms registry_remove_ignored [OF assms False, of P h] show ?thesis by auto
next
  case True
  note inv = reg_invD [OF assms]
  have "reg_abs reg = Map.empty \<longleftrightarrow> {0..<rr_size reg} \<subseteq> set (reg_free reg)"
    using reg_abs_dom [OF assms] by (metis Diff_eq_empty_iff dom_eq_empty_conv)
  also have "\<dots> \<longleftrightarrow> rr_top reg \<ge> rr_size reg - 1"
  proof
    assume "{0..<rr_size reg} \<subseteq> set (reg_free reg)"
    then have "card {0..<rr_size reg} \<le> card (set (reg_free reg))" by (intro card_mono) simp_all
    then show "rr_top reg \<ge> rr_size reg - 1"
      using reg_free_length [OF assms] inv(7) by (simp add: distinct_card)
  next
    assume "rr_top reg \<ge> rr_size reg - 1"
    then show "{0..<rr_size reg} \<subseteq> set (reg_free reg)"
      using reg_held_top [OF assms] by force
  qed
  finally show ?thesis using True assms by (simp add: registry_remove_def Let_def)
qed

section \<open>A request that is withdrawn\<close>

text \<open>
  A handler that has registered a request and could not submit it removes it again: the references
  the registry took are given back, the payload and the message header are released.
\<close>

lemma py_incref_alt: "py_incref ob h = h\<lparr>h_ref := (\<lambda>x. h_ref h x + of_bool (x = ob))\<rparr>"
  by (simp add: py_incref_def fun_eq_iff)

lemma py_xincref_alt: "py_xincref p h = h\<lparr>h_ref := (\<lambda>x. h_ref h x + of_bool (p = Some x))\<rparr>"
  by (cases p) (auto simp: py_incref_alt intro!: heap.equality)

lemma py_xdecref_alt:
  "(\<And>x. p = Some x \<Longrightarrow> 0 < h_ref h x) \<Longrightarrow>
     py_xdecref p h = h\<lparr>h_ref := (\<lambda>x. h_ref h x - of_bool (p = Some x))\<rparr>"
  by (cases p) (auto intro!: heap.equality)

lemma registry_add_remove:
  assumes "reg_inv reg" and "reg_free reg \<noteq> []" and "\<And>x. 0 \<le> h_ref h x"
    and "registry_add reg fu None st oc fi so ad None h = (i, reg', h')"
    and "registry_remove P reg' i h' = Some (reg'', h'')"
  shows "h'' = h" and "reg_abs reg'' = reg_abs reg" and "reg_free reg'' = reg_free reg" and "reg_inv reg''"
proof -
  note add = registry_add_abs [OF assms(1,2,4)]
  note inv' = registry_add_inv [OF assms(1,4)]
  have "reg_abs reg' i = Some
      \<lparr>sl_user_data = idx_to_data i, sl_future = Some fu, sl_stream_strategy = st,
       sl_buffer_payload = None, sl_opcode = oc, sl_file = fi, sl_socket = so, sl_addr = ad,
       sl_msghdr = None\<rparr>" using add(3) by simp
  note rem = registry_remove_effect [OF inv' this assms(5)]
  show "reg_inv reg''" by (rule rem(1))
  show "reg_abs reg'' = reg_abs reg" using rem(2) add(2,3) by auto
  show "reg_free reg'' = reg_free reg"
    using rem(3) registry_add_free(1) [OF assms(1,2,4)] add(1) assms(2) by simp
  have h': "h' = h\<lparr>h_ref := (\<lambda>x. h_ref h x + of_bool (x = fu) + of_bool (so = Some x) + of_bool (fi = Some x))\<rparr>"
    by (simp add: add(4) py_xincref_alt py_incref_alt)
  have pos: "0 \<le> h_ref h x" for x by (rule assms(3))
  have d1: "py_xdecref (Some fu) h' = h\<lparr>h_ref := (\<lambda>x. h_ref h x + of_bool (so = Some x) + of_bool (fi = Some x))\<rparr>"
    by (subst py_xdecref_alt) (use pos [of fu] in \<open>auto simp: h' intro!: heap.equality\<close>)
  have d2: "py_xdecref so (py_xdecref (Some fu) h') = h\<lparr>h_ref := (\<lambda>x. h_ref h x + of_bool (fi = Some x))\<rparr>"
    unfolding d1 by (subst py_xdecref_alt) (use pos [of "the so"] in \<open>auto intro!: heap.equality\<close>)
  have d3: "py_xdecref fi (py_xdecref so (py_xdecref (Some fu) h')) = h"
    unfolding d2 by (subst py_xdecref_alt) (use pos [of "the fi"] in \<open>auto intro!: heap.equality\<close>)
  show "h'' = h" using rem(5) d3 by (simp add: release_slot_def payload_at_def free_buffer_payload_def)
qed

section \<open>The registry as a pool of indices\<close>

definition reg_held :: "RequestRegistry \<Rightarrow> int \<Rightarrow> bool" where
  "reg_held reg i \<longleftrightarrow> reg_abs reg i \<noteq> None"

definition reg_take :: "nat \<Rightarrow> nat option \<Rightarrow> StreamStrategy \<Rightarrow> int \<Rightarrow> nat option \<Rightarrow> nat option
     \<Rightarrow> nat option \<Rightarrow> nat option \<Rightarrow> heap \<Rightarrow> RequestRegistry \<Rightarrow> int \<times> RequestRegistry" where
  "reg_take fu bp st oc fi so ad ms h reg =
     (let (i, reg', h') = registry_add reg fu bp st oc fi so ad ms h in (i, reg'))"

definition reg_put :: "(nat \<Rightarrow> BufferPayload) \<Rightarrow> heap \<Rightarrow> int \<Rightarrow> RequestRegistry \<Rightarrow> RequestRegistry" where
  "reg_put P h i reg = (case registry_remove P reg i h of None \<Rightarrow> reg | Some (reg', h') \<Rightarrow> reg')"

lemma reg_held_iff:
  "reg_inv reg \<Longrightarrow> reg_held reg i \<longleftrightarrow> 0 \<le> i \<and> i < rr_size reg \<and> i \<notin> set (reg_free reg)"
  using reg_abs_dom [of reg] by (auto simp: reg_held_def)

lemma reg_take_Ex:
  "\<exists>h'. registry_add reg fu bp st oc fi so ad ms h =
     (fst (reg_take fu bp st oc fi so ad ms h reg), snd (reg_take fu bp st oc fi so ad ms h reg), h')"
  by (cases "registry_add reg fu bp st oc fi so ad ms h") (simp add: reg_take_def)

lemma reg_put_held:
  assumes "reg_inv reg" and "reg_held reg i"
  shows "\<exists>s h'. reg_abs reg i = Some s \<and> registry_remove P reg i h = Some (reg_put P h i reg, h')"
proof -
  obtain s where s: "reg_abs reg i = Some s" using assms(2) by (auto simp: reg_held_def)
  show ?thesis using registry_remove_held [OF assms(1) s, of P h] s by (simp add: reg_put_def)
qed

interpretation rpool: index_pool "reg_take fu bp st oc fi so ad ms h" "reg_put P h'" reg_free rr_size
  reg_held reg_inv
  for fu bp st oc fi so ad ms h P h'
proof (unfold_locales, goal_cases)
  case (4 p)
  then show ?case by (simp add: reg_take_def registry_add_full)
next
  case (5 p)
  then show ?case using reg_take_Ex registry_add_abs(1) by metis
next
  case (6 p)
  then show ?case using reg_take_Ex registry_add_free(1) by metis
next
  case (7 p)
  then show ?case
    using reg_take_Ex registry_add_free(2) by (cases "reg_free p = []") (simp add: reg_take_def registry_add_full, metis)
next
  case (8 p)
  then show ?case using reg_take_Ex registry_add_inv by metis
next
  case (9 p i)
  then show ?case using reg_put_held registry_remove_effect(3) by metis
next
  case (10 p i)
  then show ?case using reg_put_held registry_remove_effect(4) by metis
next
  case (11 p i)
  then show ?case using reg_put_held registry_remove_effect(1) by metis
qed (simp_all add: reg_invD reg_held_iff)

section \<open>Runs of the registry\<close>

text \<open>
  A step of the registry is an addition, or a removal the way the handlers and the reader make them:
  of an index whose slot holds a future, or of an index the registry ignores. The label is the
  index that was removed.
\<close>

inductive reg_step :: "int option \<Rightarrow> RequestRegistry \<Rightarrow> RequestRegistry \<Rightarrow> bool" where
  step_add: "registry_add reg fu bp st oc fi so ad ms h = (i, reg', h') \<Longrightarrow> reg_step None reg reg'"
| step_remove: "registry_remove P reg i h = Some (reg', h') \<Longrightarrow>
    (case registry_get reg i of None \<Rightarrow> True | Some s \<Rightarrow> sl_future s \<noteq> None) \<Longrightarrow>
    reg_step (Some i) reg reg'"

inductive_cases reg_stepE: "reg_step l reg reg'"

definition reg_run :: "int set \<Rightarrow> RequestRegistry \<Rightarrow> RequestRegistry \<Rightarrow> bool" where
  "reg_run avoid = (\<lambda>reg reg'. \<exists>l. (\<forall>i \<in> avoid. l \<noteq> Some i) \<and> reg_step l reg reg')\<^sup>*\<^sup>*"

lemma registry_get_live:
  assumes "reg_inv reg" and "registry_get reg i = Some s" and "sl_future s \<noteq> None"
  shows "reg_abs reg i = Some s"
  using assms by (auto simp: registry_get_def reg_abs_def split: if_splits)

lemma reg_step_add_cases:
  assumes "reg_inv reg" and "registry_add reg fu bp st oc fi so ad ms h = (i, reg', h')"
  shows "reg_inv reg' \<and> rr_size reg' = rr_size reg \<and>
    (\<forall>j. reg_abs reg j \<noteq> None \<longrightarrow> reg_abs reg' j = reg_abs reg j)"
proof (cases "reg_free reg = []")
  case True
  with registry_add_full [OF assms(1) True, of fu bp st oc fi so ad ms h] assms show ?thesis by simp
next
  case False
  with registry_add_abs [OF assms(1) False assms(2)] registry_add_free [OF assms(1) False assms(2)]
    registry_add_inv [OF assms] show ?thesis by auto
qed

lemma reg_step_inv:
  assumes "reg_inv reg" and "reg_step l reg reg'"
  shows "reg_inv reg' \<and> rr_size reg' = rr_size reg \<and>
    (\<forall>j. l \<noteq> Some j \<longrightarrow> reg_abs reg j \<noteq> None \<longrightarrow> reg_abs reg' j = reg_abs reg j)"
  using assms(2)
proof (rule reg_stepE)
  fix fu bp st oc fi so ad ms h i h'
  assume "registry_add reg fu bp st oc fi so ad ms h = (i, reg', h')"
  from reg_step_add_cases [OF assms(1) this] show ?thesis by blast
next
  fix P i h h'
  assume 2: "l = Some i" "registry_remove P reg i h = Some (reg', h')"
    "case registry_get reg i of None \<Rightarrow> True | Some s \<Rightarrow> sl_future s \<noteq> None"
  show ?thesis
  proof (cases "registry_get reg i")
    case None
    then have "i \<notin> {0..<rr_size reg}" using registry_get_None_iff [OF assms(1)] by simp
    with registry_remove_ignored [OF assms(1) this, of P h] 2 assms(1) show ?thesis by simp
  next
    case (Some s)
    then have "reg_abs reg i = Some s" using registry_get_live [OF assms(1) Some] 2 by simp
    note eff = registry_remove_effect [OF assms(1) this 2(2)]
    with 2(1) show ?thesis by simp
  qed
qed

lemma reg_run_inv:
  assumes "reg_run A reg reg'" and "reg_inv reg"
  shows "reg_inv reg' \<and> rr_size reg' = rr_size reg \<and>
    (\<forall>j \<in> A. reg_abs reg j \<noteq> None \<longrightarrow> reg_abs reg' j = reg_abs reg j)"
  using assms(1) unfolding reg_run_def
proof (induction rule: rtranclp_induct)
  case base
  with assms(2) show ?case by simp
next
  case (step y z)
  then obtain l where l: "\<forall>i \<in> A. l \<noteq> Some i" "reg_step l y z" by blast
  from reg_step_inv [OF _ l(2)] step.IH l(1) show ?case by auto
qed

lemma reg_count:
  assumes "reg_inv reg"
  shows "int (card (dom (reg_abs reg))) + int (length (reg_free reg)) = rr_size reg"
proof -
  note inv = reg_invD [OF assms]
  have "card (dom (reg_abs reg)) = card {0..<rr_size reg} - card (set (reg_free reg))"
    unfolding reg_abs_dom [OF assms] by (rule card_Diff_subset) (use inv(8) in auto)
  moreover have "card (set (reg_free reg)) \<le> card {0..<rr_size reg}"
    by (rule card_mono) (use inv(8) in auto)
  ultimately show ?thesis using inv(1,7) by (simp add: distinct_card)
qed

section \<open>A registry of three slots\<close>

definition reg3 :: RequestRegistry where
  "reg3 = \<lparr>rr_addr = 0, rr_slots_addr = 1, rr_slots = replicate 3 zero_slot, rr_available_addr = 2,
           rr_available_indices = [0, 1, 2], rr_top = 2, rr_size = 3\<rparr>"

lemma registry_new_3:
  "registry_new 3 init_heap = (Some reg3, init_heap\<lparr>h_next := 3, h_live := {0, 1, 2}\<rparr>)"
  by (simp add: registry_new_def c_malloc_def init_heap_def alloc_max_def fill_indices_def reg3_def
      Let_def c_int_range_def insert_commute upt_conv_Cons numeral_2_eq_2)

lemma reg3_inv [simp]: "reg_inv reg3" "reg_abs reg3 = Map.empty" "rr_size reg3 = 3" "reg_free reg3 = [0, 1, 2]"
  using registry_new_inv [OF registry_new_3] by (simp_all add: reg3_def reg_free_def)

section \<open>Properties\<close>



text \<open>
  C13. \<^verbatim>\<open>registry_add\<close> refines an update of the finite map from indices to requests: when every index
  is in use it returns -1 and changes nothing; otherwise it returns an index nobody holds, binds
  it to exactly the request it was given, leaves every other request alone, and takes one reference to the
  future and one to the socket and the file when there is one.
\<close>

theorem registry_add_refines:
  assumes "reg_inv reg" and "registry_add reg fu bp st oc fi so ad ms h = (i, reg', h')"
  shows "if dom (reg_abs reg) = {0..<rr_size reg} then i = - 1 \<and> reg' = reg \<and> h' = h
    else 0 \<le> i \<and> i < rr_size reg \<and> reg_abs reg i = None \<and> reg_inv reg' \<and>
      reg_abs reg' = (reg_abs reg)(i \<mapsto>
        \<lparr>sl_user_data = idx_to_data i, sl_future = Some fu, sl_stream_strategy = st,
         sl_buffer_payload = bp, sl_opcode = oc, sl_file = fi, sl_socket = so, sl_addr = ad,
         sl_msghdr = ms\<rparr>) \<and>
      h' = py_xincref fi (py_xincref so (py_incref fu h))"
proof (cases "reg_free reg = []")
  case True
  with assms registry_add_full [OF assms(1) True, of fu bp st oc fi so ad ms h] reg_abs_dom [OF assms(1)]
  show ?thesis by simp
next
  case False
  then have "last (reg_free reg) \<in> set (reg_free reg)" by simp
  then have "dom (reg_abs reg) \<noteq> {0..<rr_size reg}"
    using reg_abs_dom [OF assms(1)] reg_invD(8) [OF assms(1)] by blast
  with False registry_add_abs [OF assms(1) False assms(2)] registry_add_inv [OF assms]
    registry_add_shape(2,3) [OF assms(1) False]
  show ?thesis by simp
qed

theorem registry_add_refines_witness:
  "let (i, reg', h') = registry_add reg3 7 None ONESHOT 22 (Some 9) None None None init_heap
   in 0 \<le> i \<and> reg_inv reg' \<and> dom (reg_abs reg') = {i} \<and> h_ref h' 7 = 1 \<and> h_ref h' 9 = 1"
proof -
  obtain i reg' h' where a: "registry_add reg3 7 None ONESHOT 22 (Some 9) None None None init_heap = (i, reg', h')"
    using prod_cases3 by blast
  have "{} \<noteq> {0..<3::int}" by simp
  then show ?thesis using registry_add_refines [OF reg3_inv(1) a] a by (simp add: init_heap_def)
qed

text \<open>
  C14. \<^verbatim>\<open>registry_remove\<close> refines a deletion from that map: an index outside of the table is ignored; the
  index of a request in flight is unbound, what its slot holds is released, every other request
  stays, and the index is the next one to be handed out; and the program aborts exactly when the table
  is empty.
\<close>

theorem registry_remove_refines:
  assumes "reg_inv reg"
  shows "(i \<notin> {0..<rr_size reg} \<longrightarrow> registry_remove P reg i h = Some (reg, h)) \<and>
    (\<forall>s. reg_abs reg i = Some s \<longrightarrow>
       (\<exists>reg'. registry_remove P reg i h = Some (reg', release_slot P s h) \<and> reg_inv reg' \<and>
          reg_abs reg' = (reg_abs reg)(i := None) \<and> reg_free reg' = reg_free reg @ [i])) \<and>
    (registry_remove P reg i h = None \<longleftrightarrow> i \<in> {0..<rr_size reg} \<and> reg_abs reg = Map.empty)"
proof (intro conjI allI impI)
  fix s assume s: "reg_abs reg i = Some s"
  obtain reg' h' where r: "registry_remove P reg i h = Some (reg', h')"
    using registry_remove_held [OF assms s, of P h] by blast
  with registry_remove_effect [OF assms s r]
  show "\<exists>reg'. registry_remove P reg i h = Some (reg', release_slot P s h) \<and> reg_inv reg' \<and>
          reg_abs reg' = (reg_abs reg)(i := None) \<and> reg_free reg' = reg_free reg @ [i]" by auto
qed (use registry_remove_ignored [OF assms] registry_remove_abort_iff [OF assms] in auto)

theorem registry_remove_refines_witness:
  "registry_remove (\<lambda>_. zero_payload) reg3 3 init_heap = Some (reg3, init_heap) \<and>
   registry_remove (\<lambda>_. zero_payload) reg3 1 init_heap = None"
  using registry_remove_refines [OF reg3_inv(1), of 3 "\<lambda>_. zero_payload" init_heap]
    registry_remove_refines [OF reg3_inv(1), of 1 "\<lambda>_. zero_payload" init_heap] by simp

text \<open>
  C6. The completion of a request finds it: the index \<^verbatim>\<open>registry_add\<close> returned, stored in the SQE as user data
  and read back from the CQE, leads to the slot of that request, whatever other requests were added and
  whatever other requests were removed in between.
\<close>

theorem completion_finds_request:
  assumes "reg_inv reg" and "registry_add reg fu bp st oc fi so ad ms h = (i, reg1, h1)" and "0 \<le> i"
    and "reg_run {i} reg1 reg2"
  shows "\<exists>s. registry_get reg2 (data_to_idx (idx_to_data i)) = Some s \<and> sl_future s = Some fu \<and>
    sl_opcode s = oc \<and> sl_buffer_payload s = bp \<and> sl_file s = fi \<and> sl_socket s = so \<and>
    sl_stream_strategy s = st \<and> sl_addr s = ad \<and> sl_msghdr s = ms"
proof -
  have ne: "reg_free reg \<noteq> []"
    using registry_add_full [OF assms(1), of fu bp st oc fi so ad ms h] assms(2,3) by auto
  note add = registry_add_abs [OF assms(1) ne assms(2)]
  note run = reg_run_inv [OF assms(4) registry_add_inv [OF assms(1,2)]]
  have "i < rr_size reg" "rr_size reg < 2 ^ 31"
    using registry_add_shape(3) [OF assms(1) ne] add(1) reg_invD(2) [OF assms(1)] by simp_all
  then have "data_to_idx (idx_to_data i) = i" using assms(3) by (simp add: c_int_range_def)
  moreover have "reg_abs reg2 i = reg_abs reg1 i" using run add(3) by simp
  ultimately show ?thesis
    using registry_get_abs [of reg2 i] run add(3) by simp
qed

theorem completion_finds_request_witness:
  "\<exists>i reg1 h1 s. registry_add reg3 7 None MULTISHOT 22 (Some 9) None None None init_heap = (i, reg1, h1) \<and>
     registry_get reg1 (data_to_idx (idx_to_data i)) = Some s \<and> sl_future s = Some 7"
proof -
  obtain i reg1 h1 where a: "registry_add reg3 7 None MULTISHOT 22 (Some 9) None None None init_heap = (i, reg1, h1)"
    using prod_cases3 by blast
  have "0 \<le> i" using a by (simp add: registry_add_def reg3_def Let_def numeral_2_eq_2)
  moreover have "reg_run {i} reg1 reg1" by (simp add: reg_run_def)
  ultimately show ?thesis using completion_finds_request [OF reg3_inv(1) a] a by blast
qed

text \<open>
  A request that is registered and then withdrawn because it could not be submitted leaves no
  trace: the free indices, the requests in flight and every reference count are as they were.
\<close>

lemma registry_withdraw:
  assumes "reg_inv reg" and "reg_free reg \<noteq> []" and "\<And>x. 0 \<le> h_ref h x"
  shows "\<exists>reg''. registry_remove P (fst (snd (registry_add reg fu None st oc fi so ad None h)))
             (fst (registry_add reg fu None st oc fi so ad None h))
             (snd (snd (registry_add reg fu None st oc fi so ad None h))) = Some (reg'', h) \<and>
    reg_inv reg'' \<and> reg_abs reg'' = reg_abs reg \<and> reg_free reg'' = reg_free reg"
proof -
  obtain i reg' h' where a: "registry_add reg fu None st oc fi so ad None h = (i, reg', h')"
    using prod_cases3 by blast
  have "reg_abs reg' i \<noteq> None" using registry_add_abs(3) [OF assms(1,2) a] by simp
  then obtain s where "reg_abs reg' i = Some s" by blast
  from registry_remove_held [OF registry_add_inv [OF assms(1) a] this, of P h']
  obtain reg'' h'' where r: "registry_remove P reg' i h' = Some (reg'', h'')" by blast
  from registry_add_remove [OF assms a r] r show ?thesis by (simp add: a)
qed

text \<open>
  Removing an index whose slot is already blank, while another request is in flight, is not ignored:
  the index is on the stack twice afterwards, the invariant is lost, and the index is handed out
  again. Callers have to test the slot first, as \<^verbatim>\<open>on_uring_ready\<close> does and \<^verbatim>\<open>graceful_shutdown\<close> does not.
\<close>

lemma registry_remove_blank_slot:
  assumes "reg_inv reg" and "reg_abs reg j \<noteq> None" and "i \<in> set (reg_free reg)"
  shows "\<exists>reg' h'. registry_remove P reg i h = Some (reg', h') \<and>
    reg_free reg' = reg_free reg @ [i] \<and> \<not> distinct (reg_free reg') \<and> \<not> reg_inv reg'"
proof -
  note inv = reg_invD [OF assms(1)]
  have i: "0 \<le> i" "i < rr_size reg" using inv(8) assms(3) by auto
  from assms(2) obtain s where "reg_abs reg j = Some s" by blast
  then have "0 \<le> j" "j < rr_size reg" "j \<notin> set (reg_free reg)"
    using reg_abs_range [of reg j s] reg_abs_iff [OF assms(1), of j] by auto
  note lt = reg_held_top [OF assms(1) this]
  obtain reg' h' where r: "registry_remove P reg i h = Some (reg', h')"
      and f: "rr_top reg' = rr_top reg + 1"
        "rr_available_indices reg' = (rr_available_indices reg)[nat (rr_top reg + 1) := i]"
    using i lt assms(1) by (simp add: registry_remove_def Let_def)
  have "nat (rr_top reg + 1 + 1) = Suc (nat (rr_top reg + 1))" using inv(5) by simp
  moreover have "nat (rr_top reg + 1) < length (rr_available_indices reg)" using lt inv(4,5) by linarith
  ultimately have "reg_free reg' = reg_free reg @ [i]"
    by (simp add: reg_free_def f take_Suc_update_last)
  with r assms(3) show ?thesis using reg_invD(7) [of reg'] by auto
qed

end
