(* ===== verification/Liburing.thy ===== *)
theory Liburing
  imports C_Heap
begin

text \<open>
  The interface to liburing. The library itself is not part of uringio: its functions are the
  fields of a record that every definition using them takes as an argument, and what the code
  relies on is the predicate \<open>liburing_ok\<close>, the behaviour the manual pages document. The ring is
  what an application can see of it: the SQEs acquired and not yet consumed, the SQEs the kernel has
  consumed, the completions not yet seen. The rest of its state is the opaque number \<open>r_state\<close>.

  A preparation helper is one constructor of \<open>prep_call\<close>, with the arguments the code
  passes, converted as the call converts them. A pointer argument says whether it is null, a block, or
  the address of a local variable of a named function together with the contents of that variable.
\<close>

record kernel_timespec =
  tv_sec :: int
  tv_nsec :: int

record open_how =
  how_flags :: u64
  how_mode :: u64
  how_resolve :: u64

datatype 'a ptr = Null | Addr nat | HeapCell nat 'a | LocalVar string 'a

record kernel_iovec =
  k_iov_base :: "unit ptr"
  k_iov_len :: u64

record kernel_msghdr =
  msg_name :: "unit ptr"
  msg_namelen :: u32
  msg_iov :: "kernel_iovec ptr"
  msg_iovlen :: u64
  msg_control :: "unit ptr"
  msg_controllen :: u64

type_synonym data_ptr = "unit ptr"
type_synonym iov_ptr = "kernel_iovec ptr"
type_synonym msg_ptr = "kernel_msghdr ptr"

datatype prep_call =
    Prep_cancel data_ptr int
  | Prep_timeout "kernel_timespec ptr" u32 u32
  | Prep_link_timeout "kernel_timespec ptr" u32
  | Prep_openat2 int string "open_how ptr"
  | Prep_read int data_ptr u32 u64
  | Prep_readv2 int iov_ptr u32 u64 int
  | Prep_write int data_ptr u32 u64
  | Prep_writev2 int iov_ptr u32 u64 int
  | Prep_close int
  | Prep_fsync int u32
  | Prep_splice int int int int u32 u32
  | Prep_read_fixed int data_ptr u32 u64 int
  | Prep_write_fixed int data_ptr u32 u64 int
  | Prep_read_multishot int u32 u64 int
  | Prep_socket int int int u32
  | Prep_bind int data_ptr u32
  | Prep_connect int data_ptr u32
  | Prep_listen int int
  | Prep_accept int data_ptr data_ptr int
  | Prep_multishot_accept int data_ptr data_ptr int
  | Prep_send int data_ptr u64 int
  | Prep_recv int data_ptr u64 int
  | Prep_sendto int data_ptr u64 int data_ptr u32
  | Prep_recv_multishot int data_ptr u64 int
  | Prep_sendmsg int msg_ptr u32
  | Prep_recvmsg int msg_ptr u32
  | Prep_recvmsg_multishot int msg_ptr u32
  | Prep_send_zc int data_ptr u64 int u32
  | Prep_send_zc_fixed int data_ptr u64 int u32 u32
  | Prep_sendmsg_zc int msg_ptr u32
  | Prep_provide_buffers data_ptr int int int int
  | Prep_remove_buffers int int
  | Prep_poll_add int u32

text \<open>\<^verbatim>\<open>buf_index\<close> and \<^verbatim>\<open>buf_group\<close> are one field, a union.\<close>

record sqe =
  sqe_prep :: "prep_call option"
  sqe_flags :: u8
  sqe_ioprio :: u16
  sqe_buf :: u16
  sqe_user_data :: u64

record cqe =
  cqe_user_data :: u64
  cqe_res :: int
  cqe_flags :: u32

record io_uring =
  r_pending :: "sqe list"
  r_submitted :: "sqe list"
  r_cq :: "cqe list"
  r_state :: nat

record liburing =
  io_uring_queue_init :: "nat \<Rightarrow> io_uring \<Rightarrow> int \<times> io_uring"
  io_uring_queue_exit :: "io_uring \<Rightarrow> io_uring"
  io_uring_get_sqe :: "io_uring \<Rightarrow> nat option \<times> io_uring"
  io_uring_prep :: "prep_call \<Rightarrow> sqe \<Rightarrow> sqe"
  io_uring_sqe_set_data64 :: "u64 \<Rightarrow> sqe \<Rightarrow> sqe"
  io_uring_submit :: "io_uring \<Rightarrow> int \<times> io_uring"

definition IOSQE_IO_LINK :: u8 where "IOSQE_IO_LINK = 4"
definition IOSQE_BUFFER_SELECT :: u8 where "IOSQE_BUFFER_SELECT = 32"
definition IORING_RECVSEND_POLL_FIRST :: int where "IORING_RECVSEND_POLL_FIRST = 1"
definition IORING_RECVSEND_FIXED_BUF :: u16 where "IORING_RECVSEND_FIXED_BUF = 4"
definition IORING_TIMEOUT_MULTISHOT :: int where "IORING_TIMEOUT_MULTISHOT = 64"
definition IORING_FSYNC_DATASYNC :: u32 where "IORING_FSYNC_DATASYNC = 1"
definition IORING_ASYNC_CANCEL_ANY :: int where "IORING_ASYNC_CANCEL_ANY = 4"
definition RWF_NOWAIT :: int where "RWF_NOWAIT = 8"

text \<open>An access through the pointer to an acquired SQE.\<close>

definition with_sqe :: "nat \<Rightarrow> (sqe \<Rightarrow> sqe) \<Rightarrow> io_uring \<Rightarrow> io_uring" where
  "with_sqe p f r = r\<lparr>r_pending := (r_pending r)[p := f (r_pending r ! p)]\<rparr>"

text \<open>Every SQE the application has filled in, in order, consumed by the kernel or still queued.\<close>

definition issued :: "io_uring \<Rightarrow> sqe list" where
  "issued r = r_submitted r @ r_pending r"

section \<open>What the manual pages promise\<close>

definition get_sqe_ok :: "liburing \<Rightarrow> bool" where
  "get_sqe_ok L \<longleftrightarrow>
     (\<forall>r r'. io_uring_get_sqe L r = (None, r') \<longrightarrow>
        r_pending r' = r_pending r \<and> r_submitted r' = r_submitted r) \<and>
     (\<forall>r r' p. io_uring_get_sqe L r = (Some p, r') \<longrightarrow>
        p = length (r_pending r) \<and> r_submitted r' = r_submitted r \<and>
        (\<exists>s. r_pending r' = r_pending r @ [s] \<and> sqe_flags s = 0 \<and> sqe_ioprio s = 0))"

definition prep_ok :: "liburing \<Rightarrow> bool" where
  "prep_ok L \<longleftrightarrow> (\<forall>c s. sqe_prep (io_uring_prep L c s) = Some c)"

definition set_data_ok :: "liburing \<Rightarrow> bool" where
  "set_data_ok L \<longleftrightarrow> (\<forall>d s. io_uring_sqe_set_data64 L d s = s\<lparr>sqe_user_data := d\<rparr>)"

text \<open>A negative result consumes nothing; otherwise the result is the number of SQEs consumed.\<close>

definition submit_ok :: "liburing \<Rightarrow> bool" where
  "submit_ok L \<longleftrightarrow>
     (\<forall>r n r'. io_uring_submit L r = (n, r') \<longrightarrow>
        nat n \<le> length (r_pending r) \<and>
        r_submitted r' = r_submitted r @ take (nat n) (r_pending r) \<and>
        r_pending r' = drop (nat n) (r_pending r))"

definition liburing_ok :: "liburing \<Rightarrow> bool" where
  "liburing_ok L \<longleftrightarrow> get_sqe_ok L \<and> prep_ok L \<and> set_data_ok L \<and> submit_ok L"

text \<open>
  Releases of liburing differ in whether a preparation helper clears the flags set before it; what
  depends on the flag of a linked timeout says so with this hypothesis.
\<close>

definition prep_keeps_flags :: "liburing \<Rightarrow> prep_call \<Rightarrow> bool" where
  "prep_keeps_flags L c \<longleftrightarrow> (\<forall>s. sqe_flags (io_uring_prep L c s) = sqe_flags s)"

lemma get_sqe_NoneD:
  "liburing_ok L \<Longrightarrow> io_uring_get_sqe L r = (None, r') \<Longrightarrow>
     r_pending r' = r_pending r \<and> r_submitted r' = r_submitted r"
  by (simp add: liburing_ok_def get_sqe_ok_def)

lemma get_sqe_SomeD:
  "liburing_ok L \<Longrightarrow> io_uring_get_sqe L r = (Some p, r') \<Longrightarrow>
     p = length (r_pending r) \<and> r_submitted r' = r_submitted r \<and>
     (\<exists>s. r_pending r' = r_pending r @ [s] \<and> sqe_flags s = 0 \<and> sqe_ioprio s = 0)"
  unfolding liburing_ok_def get_sqe_ok_def by blast

lemma prep_sqe_prep [simp]: "liburing_ok L \<Longrightarrow> sqe_prep (io_uring_prep L c s) = Some c"
  by (simp add: liburing_ok_def prep_ok_def)

lemma set_data64 [simp]:
  "liburing_ok L \<Longrightarrow> io_uring_sqe_set_data64 L d s = s\<lparr>sqe_user_data := d\<rparr>"
  by (simp add: liburing_ok_def set_data_ok_def)

lemma submitD:
  assumes "liburing_ok L" and "io_uring_submit L r = (n, r')"
  shows "r_submitted r' = r_submitted r @ take (nat n) (r_pending r)"
    and "r_pending r' = drop (nat n) (r_pending r)" and "nat n \<le> length (r_pending r)"
  using assms by (auto simp: liburing_ok_def submit_ok_def)

lemma submit_issued:
  "liburing_ok L \<Longrightarrow> io_uring_submit L r = (n, r') \<Longrightarrow> issued r' = issued r"
  using submitD [of L r n r'] by (simp add: issued_def)

lemma with_sqe_fields [simp, ring_simps]:
  "r_submitted (with_sqe p f r) = r_submitted r"
  "length (r_pending (with_sqe p f r)) = length (r_pending r)"
  "r_cq (with_sqe p f r) = r_cq r"
  by (simp_all add: with_sqe_def)

lemma with_sqe_at [ring_simps]:
  "r_pending r = xs @ s # ys \<Longrightarrow> p = length xs \<Longrightarrow> r_pending (with_sqe p f r) = xs @ f s # ys"
  by (simp add: with_sqe_def list_update_append)

section \<open>An implementation of the interface\<close>

text \<open>
  A submission queue with room for a number of entries, whose submission takes everything or
  always fails: the parameters at which the hypotheses above are shown to be satisfiable.
\<close>

definition blank_sqe :: sqe where
  "blank_sqe = \<lparr>sqe_prep = None, sqe_flags = 0, sqe_ioprio = 0, sqe_buf = 0, sqe_user_data = 0\<rparr>"

definition empty_ring :: io_uring where
  "empty_ring = \<lparr>r_pending = [], r_submitted = [], r_cq = [], r_state = 0\<rparr>"

lemma issued_empty_ring [simp]: "issued empty_ring = []"
  by (simp add: issued_def empty_ring_def)

definition lib_model :: "nat \<Rightarrow> bool \<Rightarrow> liburing" where
  "lib_model entries fails =
     \<lparr>io_uring_queue_init = (\<lambda>n r. (0, r)),
      io_uring_queue_exit = (\<lambda>r. r),
      io_uring_get_sqe = (\<lambda>r. if length (r_pending r) < entries
          then (Some (length (r_pending r)), r\<lparr>r_pending := r_pending r @ [blank_sqe]\<rparr>) else (None, r)),
      io_uring_prep = (\<lambda>c s. s\<lparr>sqe_prep := Some c\<rparr>),
      io_uring_sqe_set_data64 = (\<lambda>d s. s\<lparr>sqe_user_data := d\<rparr>),
      io_uring_submit = (\<lambda>r. if fails then (- 11, r)
          else (int (length (r_pending r)),
                r\<lparr>r_submitted := r_submitted r @ r_pending r, r_pending := []\<rparr>))\<rparr>"

lemma lib_model_fields [simp]:
  "io_uring_get_sqe (lib_model e f) r = (if length (r_pending r) < e
     then (Some (length (r_pending r)), r\<lparr>r_pending := r_pending r @ [blank_sqe]\<rparr>) else (None, r))"
  "io_uring_prep (lib_model e f) c s = s\<lparr>sqe_prep := Some c\<rparr>"
  "io_uring_sqe_set_data64 (lib_model e f) d s = s\<lparr>sqe_user_data := d\<rparr>"
  "io_uring_submit (lib_model e f) r = (if f then (- 11, r)
     else (int (length (r_pending r)),
           r\<lparr>r_submitted := r_submitted r @ r_pending r, r_pending := []\<rparr>))"
  "io_uring_queue_init (lib_model e f) n r = (0, r)"
  "io_uring_queue_exit (lib_model e f) r = r"
  by (simp_all add: lib_model_def)

lemma lib_model_ok [simp]: "liburing_ok (lib_model e f)"
  unfolding liburing_ok_def get_sqe_ok_def prep_ok_def set_data_ok_def submit_ok_def
  by (auto simp: blank_sqe_def split: if_splits)

lemma lib_model_keeps_flags [simp]: "prep_keeps_flags (lib_model e f) c"
  by (simp add: prep_keeps_flags_def)

end
