(* ===== verification/Ring_Timer.thy ===== *)
theory Ring_Timer
  imports Liburing
begin

text \<open>
  \<^verbatim>\<open>src/ring/\<close> and \<^verbatim>\<open>src/timer/timer.c\<close>: setting the ring up and tearing it down, arming the
  read on the wake-up descriptor, acquiring an SQE, the linked timeout of an operation, the timer
  operation, and the macro \<^verbatim>\<open>SQE_WITH_OPTIONAL_TIMEOUT\<close> of \<^verbatim>\<open>src/macroses.h\<close> that every submission
  wrapper starts with. The macro returns from its caller on failure: here it takes the rest of the
  caller as a continuation.
\<close>

record TimerParams =
  tm_sec :: int
  tm_nsec :: int
  tm_count :: int
  tm_is_multishot :: bool

record TimeoutParams =
  to_sec :: int
  to_nsec :: int
  to_is_required :: bool

definition WAKEUP_FD_TAG :: u64 where
  "WAKEUP_FD_TAG = - 1"

definition ring_init :: "liburing \<Rightarrow> io_uring \<Rightarrow> int \<times> io_uring" where
  "ring_init L r =
     (let (result, r1) = io_uring_queue_init L 256 r
      in if result < 0 then (- 1, r1) else (0, r1))"

definition ring_destroy :: "liburing \<Rightarrow> io_uring option \<Rightarrow> io_uring option" where
  "ring_destroy L ring =
     (case ring of
        None \<Rightarrow> None
      | Some r \<Rightarrow>
          (case io_uring_get_sqe L r of
             (None, r1) \<Rightarrow> Some r1
           | (Some sqe, r1) \<Rightarrow>
               (let r2 = with_sqe sqe (io_uring_prep L (Prep_cancel Null IORING_ASYNC_CANCEL_ANY)) r1;
                    (result, r3) = io_uring_submit L r2
                in if result < 0 then Some r3 else Some (io_uring_queue_exit L r3))))"

definition ring_prep_wakeup_read :: "liburing \<Rightarrow> io_uring \<Rightarrow> int \<Rightarrow> nat \<Rightarrow> int \<times> io_uring" where
  "ring_prep_wakeup_read L r wakeup_fd wakeup_buf =
     (case io_uring_get_sqe L r of
        (None, r1) \<Rightarrow> (- 1, r1)
      | (Some sqe, r1) \<Rightarrow>
          (let r2 = with_sqe sqe (io_uring_prep L (Prep_read wakeup_fd (Addr wakeup_buf) 8 0)) r1;
               r3 = with_sqe sqe (io_uring_sqe_set_data64 L WAKEUP_FD_TAG) r2;
               (_, r4) = io_uring_submit L r3
           in (0, r4)))"

definition create_sqe :: "liburing \<Rightarrow> io_uring \<Rightarrow> nat option \<times> io_uring" where
  "create_sqe L r = io_uring_get_sqe L r"

text \<open>
  The tail every wrapper ends with: \<^verbatim>\<open>io_uring_sqe_set_data\<close> with the request index, then
  \<^verbatim>\<open>io_uring_submit\<close>; the result is 0 when the submission failed and 1 otherwise.
\<close>

definition set_data_and_submit :: "liburing \<Rightarrow> nat \<Rightarrow> int \<Rightarrow> io_uring \<Rightarrow> int \<times> io_uring" where
  "set_data_and_submit L sqe request_idx r =
     (let r1 = with_sqe sqe (io_uring_sqe_set_data64 L (idx_to_data request_idx)) r;
          (result, r2) = io_uring_submit L r1
      in if result < 0 then (0, r2) else (1, r2))"

definition timer :: "liburing \<Rightarrow> io_uring \<Rightarrow> int \<Rightarrow> TimerParams option \<Rightarrow> int \<times> io_uring" where
  "timer L r request_idx timer_params =
     (case timer_params of
        None \<Rightarrow> (- 1, r)
      | Some tp \<Rightarrow>
          (case create_sqe L r of
             (None, r1) \<Rightarrow> (- 1, r1)
           | (Some sqe, r1) \<Rightarrow>
               (let ts = \<lparr>tv_sec = tm_sec tp, tv_nsec = tm_nsec tp\<rparr>;
                    flag = (if tm_is_multishot tp then IORING_TIMEOUT_MULTISHOT else 0);
                    r2 = with_sqe sqe (io_uring_prep L
                           (Prep_timeout (LocalVar ''timer'' ts) (word_of_int (tm_count tp))
                              (word_of_int flag))) r1
                in set_data_and_submit L sqe request_idx r2)))"

definition no_timeout :: "TimeoutParams option \<Rightarrow> bool" where
  "no_timeout timeout_params \<longleftrightarrow>
     (case timeout_params of
        None \<Rightarrow> True
      | Some tp \<Rightarrow> to_sec tp = 0 \<and> to_nsec tp = 0 \<and> \<not> to_is_required tp)"

definition timeout :: "liburing \<Rightarrow> io_uring \<Rightarrow> nat \<Rightarrow> TimeoutParams option \<Rightarrow> int \<times> io_uring" where
  "timeout L r sqe timeout_params =
     (if no_timeout timeout_params then (0, r)
      else
        let tp = the timeout_params;
            r1 = with_sqe sqe (\<lambda>s. s\<lparr>sqe_flags := sqe_flags s OR IOSQE_IO_LINK\<rparr>) r
        in case io_uring_get_sqe L r1 of
             (None, r2) \<Rightarrow> if to_is_required tp then (- 1, r2) else (0, r2)
           | (Some timeout_sqe, r2) \<Rightarrow>
               (let ts = \<lparr>tv_sec = to_sec tp, tv_nsec = to_nsec tp\<rparr>
                in (0, with_sqe timeout_sqe
                         (io_uring_prep L (Prep_link_timeout (LocalVar ''timeout'' ts) 0)) r2)))"

definition SQE_WITH_OPTIONAL_TIMEOUT ::
  "liburing \<Rightarrow> io_uring \<Rightarrow> TimeoutParams option \<Rightarrow> (nat \<Rightarrow> io_uring \<Rightarrow> int \<times> io_uring)
     \<Rightarrow> int \<times> io_uring" where
  "SQE_WITH_OPTIONAL_TIMEOUT L r timeout_params k =
     (case create_sqe L r of
        (None, r1) \<Rightarrow> (- 1, r1)
      | (Some sqe, r1) \<Rightarrow>
          (let (t, r2) = timeout L r1 sqe timeout_params
           in if t < 0 then (- 1, r2) else k sqe r2))"

section \<open>The linked timeout\<close>

lemma no_timeout_None [simp]: "no_timeout None"
  by (simp add: no_timeout_def)

text \<open>
  After the macro, the queue holds the caller's SQE, flagged as linked when a timeout was asked
  for, followed by the timeout's SQE when there was room for it.
\<close>

definition link_flag :: "TimeoutParams \<Rightarrow> u8" where
  "link_flag tp = (if no_timeout (Some tp) then 0 else IOSQE_IO_LINK)"

definition is_link_timeout :: "TimeoutParams \<Rightarrow> sqe \<Rightarrow> bool" where
  "is_link_timeout tp s \<longleftrightarrow>
     sqe_prep s = Some (Prep_link_timeout
       (LocalVar ''timeout'' \<lparr>tv_sec = to_sec tp, tv_nsec = to_nsec tp\<rparr>) 0)"

definition timeout_tail :: "TimeoutParams \<Rightarrow> sqe list \<Rightarrow> bool" where
  "timeout_tail tp rest \<longleftrightarrow>
     rest = [] \<and> \<not> to_is_required tp \<or> rest = [] \<and> no_timeout (Some tp) \<or>
     (\<exists>s. rest = [s] \<and> is_link_timeout tp s \<and> \<not> no_timeout (Some tp))"

lemma timeout_effect:
  assumes ok: "liburing_ok L" and pend: "r_pending r = ps @ [s]"
    and p: "p = length ps" and t: "timeout L r p (Some tp) = (t, r')"
  shows "r_submitted r' = r_submitted r"
    and "t < 0 \<longleftrightarrow> t = - 1"
    and "t = - 1 \<Longrightarrow> to_is_required tp \<and>
           r_pending r' = ps @ [s\<lparr>sqe_flags := sqe_flags s OR IOSQE_IO_LINK\<rparr>]"
    and "t \<noteq> - 1 \<Longrightarrow> t = 0 \<and>
           (\<exists>rest. r_pending r' = ps @ s\<lparr>sqe_flags := sqe_flags s OR link_flag tp\<rparr> # rest \<and>
                   timeout_tail tp rest)"
proof -
  let ?s = "s\<lparr>sqe_flags := sqe_flags s OR IOSQE_IO_LINK\<rparr>"
  let ?r1 = "with_sqe p (\<lambda>s. s\<lparr>sqe_flags := sqe_flags s OR IOSQE_IO_LINK\<rparr>) r"
  have p1: "r_pending ?r1 = ps @ [?s]" using with_sqe_at [of r ps s "[]"] pend p by simp
  have "r_submitted r' = r_submitted r \<and> (t < 0 \<longleftrightarrow> t = - 1) \<and>
      (t = - 1 \<longrightarrow> to_is_required tp \<and> r_pending r' = ps @ [?s]) \<and>
      (t \<noteq> - 1 \<longrightarrow> t = 0 \<and>
         (\<exists>rest. r_pending r' = ps @ s\<lparr>sqe_flags := sqe_flags s OR link_flag tp\<rparr> # rest \<and>
                 timeout_tail tp rest))"
  proof (cases "no_timeout (Some tp)")
    case True
    with t pend show ?thesis by (simp add: timeout_def link_flag_def timeout_tail_def)
  next
    case False
    show ?thesis
    proof (cases "io_uring_get_sqe L ?r1")
      case (Pair q r2)
      show ?thesis
      proof (cases q)
        case None
        with Pair False t get_sqe_NoneD [OF ok, of ?r1 r2] p1 show ?thesis
          by (auto simp: timeout_def link_flag_def timeout_tail_def Let_def split: if_splits)
      next
        case (Some tq)
        then obtain s2 where q2: "tq = length (ps @ [?s])" "r_submitted r2 = r_submitted r"
            "r_pending r2 = (ps @ [?s]) @ [s2]"
          using get_sqe_SomeD [OF ok, of ?r1 tq r2] Pair p1 by auto
        let ?c = "Prep_link_timeout (LocalVar ''timeout'' \<lparr>tv_sec = to_sec tp, tv_nsec = to_nsec tp\<rparr>) 0"
        have "t = 0 \<and> r' = with_sqe tq (io_uring_prep L ?c) r2"
          using t False Pair Some by (simp add: timeout_def Let_def)
        moreover have "r_pending (with_sqe tq (io_uring_prep L ?c) r2) = (ps @ [?s]) @ [io_uring_prep L ?c s2]"
          by (rule with_sqe_at) (use q2 in simp_all)
        ultimately show ?thesis using q2(2) False ok
          by (simp add: link_flag_def timeout_tail_def is_link_timeout_def)
      qed
    qed
  qed
  then show "r_submitted r' = r_submitted r" "t < 0 \<longleftrightarrow> t = - 1"
    "t = - 1 \<Longrightarrow> to_is_required tp \<and> r_pending r' = ps @ [?s]"
    "t \<noteq> - 1 \<Longrightarrow> t = 0 \<and>
         (\<exists>rest. r_pending r' = ps @ s\<lparr>sqe_flags := sqe_flags s OR link_flag tp\<rparr> # rest \<and>
                 timeout_tail tp rest)" by blast+
qed

lemma set_data_and_submit_effect:
  assumes ok: "liburing_ok L" and pend: "r_pending r = ps @ s # rest" and p: "p = length ps"
    and ret: "set_data_and_submit L p idx r = (t, r')"
  shows "issued r' = r_submitted r @ ps @ s\<lparr>sqe_user_data := idx_to_data idx\<rparr> # rest"
    and "t = 0 \<or> t = 1" and "t = 0 \<Longrightarrow> r_submitted r' = r_submitted r"
    and "\<exists>n. r_submitted r' =
           r_submitted r @ take n (ps @ s\<lparr>sqe_user_data := idx_to_data idx\<rparr> # rest)"
proof -
  let ?r1 = "with_sqe p (io_uring_sqe_set_data64 L (idx_to_data idx)) r"
  have p1: "r_pending ?r1 = ps @ s\<lparr>sqe_user_data := idx_to_data idx\<rparr> # rest"
    using with_sqe_at [OF pend p] ok by simp
  obtain n r2 where sub: "io_uring_submit L ?r1 = (n, r2)" by force
  have t: "t = (if n < 0 then 0 else 1)" "r' = r2"
    using ret sub by (auto simp: set_data_and_submit_def Let_def split: if_splits)
  show "issued r' = r_submitted r @ ps @ s\<lparr>sqe_user_data := idx_to_data idx\<rparr> # rest"
    using submit_issued [OF ok sub] t p1 by (simp add: issued_def)
  show "t = 0 \<or> t = 1" using t by simp
  show "r_submitted r' = r_submitted r" if "t = 0"
    using submitD(1) [OF ok sub] t that by (simp split: if_splits)
  show "\<exists>n. r_submitted r' = r_submitted r @ take n (ps @ s\<lparr>sqe_user_data := idx_to_data idx\<rparr> # rest)"
    using submitD(1) [OF ok sub] t p1 by auto
qed

end
