(* ===== verification/Submit_Op.thy ===== *)
theory Submit_Op
  imports Ring_Timer
begin

text \<open>
  The contract of a submission wrapper of \<^verbatim>\<open>src/ops\<close>, as the Python layer relies on it: the
  result is one of -2, -1, 0 and 1; a result that is not positive means that the kernel has
  consumed nothing; a result that is not negative means that exactly the SQE of the operation,
  filled in and carrying the index of the request, was appended, followed by at most the SQE of
  its linked timeout; what was queued before stays as it was in every case.

  \<open>fill\<close> is what the wrapper does to the SQE it acquired between the macro and the
  tail. The lemmas of the locale are shared by every wrapper.
\<close>

locale submit_op =
  fixes op :: "liburing \<Rightarrow> io_uring \<Rightarrow> int \<Rightarrow> TimeoutParams \<Rightarrow> int \<times> io_uring"
    and fill :: "liburing \<Rightarrow> sqe \<Rightarrow> sqe"
  assumes op_range: "liburing_ok L \<Longrightarrow> op L r idx tp = (t, r') \<Longrightarrow> t \<in> {- 2, - 1, 0, 1}"
    and op_refused: "liburing_ok L \<Longrightarrow> op L r idx tp = (t, r') \<Longrightarrow> t \<le> 0 \<Longrightarrow>
      r_submitted r' = r_submitted r"
    and op_queued: "liburing_ok L \<Longrightarrow> op L r idx tp = (t, r') \<Longrightarrow> 0 \<le> t \<Longrightarrow>
      \<exists>s0 rest. sqe_flags s0 = link_flag tp \<and> sqe_ioprio s0 = 0 \<and> timeout_tail tp rest \<and>
        issued r' = issued r @ (fill L s0)\<lparr>sqe_user_data := idx_to_data idx\<rparr> # rest"
    and op_left: "liburing_ok L \<Longrightarrow> op L r idx tp = (t, r') \<Longrightarrow> t < 0 \<Longrightarrow>
      \<exists>rest. issued r' = issued r @ rest \<and> length rest \<le> 2"
begin

lemma op_keeps_queue:
  assumes "liburing_ok L" and "op L r idx tp = (t, r')"
  shows "\<exists>new. issued r' = issued r @ new \<and> length new \<le> 2"
proof (cases "t < 0")
  case True
  with op_left [OF assms] show ?thesis by blast
next
  case False
  then have "0 \<le> t" by simp
  from op_queued [OF assms this] obtain s0 rest where
    "timeout_tail tp rest"
    "issued r' = issued r @ (fill L s0)\<lparr>sqe_user_data := idx_to_data idx\<rparr> # rest" by blast
  then show ?thesis by (auto simp: timeout_tail_def)
qed

text \<open>The first SQE an accepted call adds is the one of its request, and its completion names it.\<close>

lemma op_own_sqe:
  assumes "liburing_ok L" and "op L r idx tp = (t, r')" and "0 \<le> t" and "c_int_range idx"
  shows "length (issued r) < length (issued r')"
    and "data_to_idx (sqe_user_data (issued r' ! length (issued r))) = idx"
proof -
  from op_queued [OF assms(1-3)] obtain s0 rest where
    "issued r' = issued r @ (fill L s0)\<lparr>sqe_user_data := idx_to_data idx\<rparr> # rest" by blast
  with assms(4) show "length (issued r) < length (issued r')"
    and "data_to_idx (sqe_user_data (issued r' ! length (issued r))) = idx"
    by simp_all
qed

text \<open>Without a timeout the call adds nothing but its own SQE.\<close>

lemma op_no_timeout:
  assumes "liburing_ok L" and "op L r idx tp = (t, r')" and "0 \<le> t" and "no_timeout (Some tp)"
  shows "\<exists>s0. sqe_flags s0 = 0 \<and> sqe_ioprio s0 = 0 \<and>
    issued r' = issued r @ [(fill L s0)\<lparr>sqe_user_data := idx_to_data idx\<rparr>]"
proof -
  from op_queued [OF assms(1-3)] obtain s0 rest where
    s0: "sqe_flags s0 = link_flag tp" "sqe_ioprio s0 = 0" "timeout_tail tp rest"
    "issued r' = issued r @ (fill L s0)\<lparr>sqe_user_data := idx_to_data idx\<rparr> # rest" by blast
  have "rest = []" using s0(3) assms(4) by (auto simp: timeout_tail_def)
  moreover have "sqe_flags s0 = 0" using s0(1) assms(4) by (simp add: link_flag_def)
  ultimately show ?thesis using s0(2,4) by auto
qed

text \<open>A required timeout is never dropped silently.\<close>

lemma op_required_timeout:
  assumes "liburing_ok L" and "op L r idx tp = (t, r')" and "0 \<le> t" and "to_is_required tp"
  shows "\<exists>own link. issued r' = issued r @ [own, link] \<and> is_link_timeout tp link"
proof -
  from op_queued [OF assms(1-3)] obtain s0 rest where
    s0: "timeout_tail tp rest"
    "issued r' = issued r @ (fill L s0)\<lparr>sqe_user_data := idx_to_data idx\<rparr> # rest" by blast
  moreover have "\<not> no_timeout (Some tp)" using assms(4) by (simp add: no_timeout_def)
  ultimately show ?thesis using assms(4) by (auto simp: timeout_tail_def)
qed

end

section \<open>The shape the wrappers share\<close>

text \<open>
  A wrapper is the macro, the filling in of the SQE, the tail; \<^verbatim>\<open>prep_socket\<close> also has a refusal
  between the macro and the rest.
\<close>

definition wrapper :: "(liburing \<Rightarrow> sqe \<Rightarrow> sqe) \<Rightarrow> liburing \<Rightarrow> io_uring \<Rightarrow> int \<Rightarrow> TimeoutParams \<Rightarrow> int \<times> io_uring" where
  "wrapper fill L r idx tp =
     SQE_WITH_OPTIONAL_TIMEOUT L r (Some tp)
       (\<lambda>sqe r. set_data_and_submit L sqe idx (with_sqe sqe (fill L) r))"

lemma macro_effect:
  assumes ok: "liburing_ok L"
    and m: "SQE_WITH_OPTIONAL_TIMEOUT L r (Some tp) k = res"
  shows "(\<exists>r1 left. res = (- 1, r1) \<and> r_submitted r1 = r_submitted r \<and>
            r_pending r1 = r_pending r @ left \<and> length left \<le> 1) \<or>
         (\<exists>r2 s0 rest. res = k (length (r_pending r)) r2 \<and> r_submitted r2 = r_submitted r \<and>
            r_pending r2 = r_pending r @ s0 # rest \<and> timeout_tail tp rest \<and>
            sqe_flags s0 = link_flag tp \<and> sqe_ioprio s0 = 0)"
proof (cases "io_uring_get_sqe L r")
  case (Pair q r1)
  show ?thesis
  proof (cases q)
    case None
    with Pair get_sqe_NoneD [OF ok] m show ?thesis
      by (auto simp: SQE_WITH_OPTIONAL_TIMEOUT_def create_sqe_def)
  next
    case (Some p)
    then obtain s where s: "p = length (r_pending r)" "r_submitted r1 = r_submitted r"
        "r_pending r1 = r_pending r @ [s]" "sqe_flags s = 0" "sqe_ioprio s = 0"
      using get_sqe_SomeD [OF ok, of r p r1] Pair by auto
    obtain t r2 where t: "timeout L r1 p (Some tp) = (t, r2)" by force
    note te = timeout_effect [OF ok s(3,1) t]
    have res: "res = (if t < 0 then (- 1, r2) else k p r2)"
      using m Pair Some t by (simp add: SQE_WITH_OPTIONAL_TIMEOUT_def create_sqe_def Let_def)
    show ?thesis
    proof (cases "t = - 1")
      case True
      with te(1,3) s(2) res show ?thesis by auto
    next
      case False
      with te(2,4) obtain rest where "t = 0"
        "r_pending r2 = r_pending r @ s\<lparr>sqe_flags := sqe_flags s OR link_flag tp\<rparr> # rest"
        "timeout_tail tp rest" by blast
      with te(1) s res show ?thesis by (intro disjI2) (auto intro!: exI [of _ r2])
    qed
  qed
qed

lemma wrapper_contract: "submit_op (wrapper fill) fill"
proof
  fix L r idx tp t r'
  assume ok: "liburing_ok L" and w: "wrapper fill L r idx tp = (t, r')"
  from macro_effect [OF ok w [unfolded wrapper_def]]
  consider (fail) left where "t = - 1" "r_submitted r' = r_submitted r"
      "r_pending r' = r_pending r @ left" "length left \<le> 1"
    | (go) r2 s0 rest where
      "set_data_and_submit L (length (r_pending r)) idx (with_sqe (length (r_pending r)) (fill L) r2) = (t, r')"
      "r_submitted r2 = r_submitted r" "r_pending r2 = r_pending r @ s0 # rest"
      "timeout_tail tp rest" "sqe_flags s0 = link_flag tp" "sqe_ioprio s0 = 0"
    by fastforce
  then have "t \<in> {- 2, - 1, 0, 1} \<and> (t \<le> 0 \<longrightarrow> r_submitted r' = r_submitted r) \<and>
    (0 \<le> t \<longrightarrow> (\<exists>s0 rest. sqe_flags s0 = link_flag tp \<and> sqe_ioprio s0 = 0 \<and> timeout_tail tp rest \<and>
        issued r' = issued r @ (fill L s0)\<lparr>sqe_user_data := idx_to_data idx\<rparr> # rest)) \<and>
    (t < 0 \<longrightarrow> (\<exists>rest. issued r' = issued r @ rest \<and> length rest \<le> 2))"
  proof cases
    case fail
    then show ?thesis by (simp add: issued_def)
  next
    case go
    have "r_pending (with_sqe (length (r_pending r)) (fill L) r2) = r_pending r @ fill L s0 # rest"
      by (rule with_sqe_at) (use go in simp_all)
    note sd = set_data_and_submit_effect [OF ok this refl go(1)]
    have "issued r' = issued r @ (fill L s0)\<lparr>sqe_user_data := idx_to_data idx\<rparr> # rest"
      using sd(1) go(2) by (simp add: issued_def)
    then show ?thesis using sd(2,3) go(2,4-6) by auto
  qed
  then show "t \<in> {- 2, - 1, 0, 1}" "t \<le> 0 \<Longrightarrow> r_submitted r' = r_submitted r"
    "0 \<le> t \<Longrightarrow> \<exists>s0 rest. sqe_flags s0 = link_flag tp \<and> sqe_ioprio s0 = 0 \<and> timeout_tail tp rest \<and>
        issued r' = issued r @ (fill L s0)\<lparr>sqe_user_data := idx_to_data idx\<rparr> # rest"
    "t < 0 \<Longrightarrow> \<exists>rest. issued r' = issued r @ rest \<and> length rest \<le> 2" by blast+
qed

lemma submit_opI: "(\<And>L r idx tp. op L r idx tp = wrapper fill L r idx tp) \<Longrightarrow> submit_op op fill"
proof -
  assume "\<And>L r idx tp. op L r idx tp = wrapper fill L r idx tp"
  then have "op = wrapper fill" by (intro ext)
  then show ?thesis by (simp add: wrapper_contract)
qed

section \<open>Assignments several wrappers make\<close>

lemma with_sqe_twice: "with_sqe p f (with_sqe p g r) = with_sqe p (\<lambda>s. f (g s)) r"
  by (cases "p < length (r_pending r)") (simp_all add: with_sqe_def list_update_beyond)

definition nowait_flags :: "int \<Rightarrow> int" where
  "nowait_flags nowait = (if nowait \<noteq> 0 then RWF_NOWAIT else 0)"

definition poll_first_flags :: "int \<Rightarrow> int" where
  "poll_first_flags is_poll_first = (if is_poll_first \<noteq> 0 then IORING_RECVSEND_POLL_FIRST else 0)"

text \<open>\<^verbatim>\<open>sqe->flags |= IOSQE_BUFFER_SELECT; sqe->buf_group = (__u16)bgid;\<close>\<close>

definition select_group :: "int \<Rightarrow> sqe \<Rightarrow> sqe" where
  "select_group bgid s =
     s\<lparr>sqe_flags := sqe_flags s OR IOSQE_BUFFER_SELECT, sqe_buf := word_of_int bgid\<rparr>"

text \<open>\<^verbatim>\<open>sqe->buf_index = (__u16)buf_index; sqe->ioprio |= IORING_RECVSEND_FIXED_BUF;\<close>\<close>

definition use_fixed_buf :: "int \<Rightarrow> sqe \<Rightarrow> sqe" where
  "use_fixed_buf buf_index s =
     s\<lparr>sqe_buf := word_of_int buf_index, sqe_ioprio := sqe_ioprio s OR IORING_RECVSEND_FIXED_BUF\<rparr>"

end
