(* ===== verification/File_Ops.thy ===== *)
theory File_Ops
  imports Submit_Op
begin

text \<open>
  \<^verbatim>\<open>src/ops/files\<close>: the wrappers that turn a file operation into an SQE. Each starts with the macro
  that acquires the SQE and links its timeout, fills the SQE in, stores the index of the request
  and submits. Each satisfies the contract of a submission wrapper.
\<close>

definition open_file ::
  "liburing \<Rightarrow> io_uring \<Rightarrow> int \<Rightarrow> int \<Rightarrow> string \<Rightarrow> int \<Rightarrow> int \<Rightarrow> u32 \<Rightarrow> TimeoutParams
     \<Rightarrow> int \<times> io_uring" where
  "open_file L r request_idx dfd path flags resolve mode timeout_params =
     SQE_WITH_OPTIONAL_TIMEOUT L r (Some timeout_params) (\<lambda>sqe r1.
       let flags1 = (if flags = - 1 then 66 else flags);
           how = \<lparr>how_flags = word_of_int flags1, how_mode = ucast mode, how_resolve = word_of_int resolve\<rparr>;
           r2 = with_sqe sqe (io_uring_prep L (Prep_openat2 dfd path (LocalVar ''open_file'' how))) r1
       in set_data_and_submit L sqe request_idx r2)"

definition uringio_read ::
  "liburing \<Rightarrow> io_uring \<Rightarrow> int \<Rightarrow> int \<Rightarrow> data_ptr \<Rightarrow> u32 \<Rightarrow> int \<Rightarrow> TimeoutParams
     \<Rightarrow> int \<times> io_uring" where
  "uringio_read L r request_idx fd buf sz offset timeout_params =
     SQE_WITH_OPTIONAL_TIMEOUT L r (Some timeout_params) (\<lambda>sqe r1.
       let r2 = with_sqe sqe (io_uring_prep L (Prep_read fd buf sz (word_of_int offset))) r1
       in set_data_and_submit L sqe request_idx r2)"

definition uringio_readv ::
  "liburing \<Rightarrow> io_uring \<Rightarrow> int \<Rightarrow> int \<Rightarrow> iov_ptr \<Rightarrow> u32 \<Rightarrow> int \<Rightarrow> int \<Rightarrow> TimeoutParams
     \<Rightarrow> int \<times> io_uring" where
  "uringio_readv L r request_idx fd iovecs nr_vecs offset nowait timeout_params =
     SQE_WITH_OPTIONAL_TIMEOUT L r (Some timeout_params) (\<lambda>sqe r1.
       let flags = nowait_flags nowait;
           r2 = with_sqe sqe (io_uring_prep L (Prep_readv2 fd iovecs nr_vecs (word_of_int offset) flags)) r1
       in set_data_and_submit L sqe request_idx r2)"

definition uringio_write ::
  "liburing \<Rightarrow> io_uring \<Rightarrow> int \<Rightarrow> int \<Rightarrow> data_ptr \<Rightarrow> u32 \<Rightarrow> int \<Rightarrow> TimeoutParams
     \<Rightarrow> int \<times> io_uring" where
  "uringio_write L r request_idx fd buf sz offset timeout_params =
     SQE_WITH_OPTIONAL_TIMEOUT L r (Some timeout_params) (\<lambda>sqe r1.
       let r2 = with_sqe sqe (io_uring_prep L (Prep_write fd buf sz (word_of_int offset))) r1
       in set_data_and_submit L sqe request_idx r2)"

definition uringio_writev ::
  "liburing \<Rightarrow> io_uring \<Rightarrow> int \<Rightarrow> int \<Rightarrow> iov_ptr \<Rightarrow> u32 \<Rightarrow> int \<Rightarrow> int \<Rightarrow> TimeoutParams
     \<Rightarrow> int \<times> io_uring" where
  "uringio_writev L r request_idx fd iovecs nr_vecs offset flags timeout_params =
     SQE_WITH_OPTIONAL_TIMEOUT L r (Some timeout_params) (\<lambda>sqe r1.
       let r2 = with_sqe sqe (io_uring_prep L (Prep_writev2 fd iovecs nr_vecs (word_of_int offset) flags)) r1
       in set_data_and_submit L sqe request_idx r2)"

definition uringio_close_file ::
  "liburing \<Rightarrow> io_uring \<Rightarrow> int \<Rightarrow> int \<Rightarrow> TimeoutParams
     \<Rightarrow> int \<times> io_uring" where
  "uringio_close_file L r request_idx fd timeout_params =
     SQE_WITH_OPTIONAL_TIMEOUT L r (Some timeout_params) (\<lambda>sqe r1.
       let r2 = with_sqe sqe (io_uring_prep L (Prep_close fd)) r1
       in set_data_and_submit L sqe request_idx r2)"

definition uringio_fsync ::
  "liburing \<Rightarrow> io_uring \<Rightarrow> int \<Rightarrow> int \<Rightarrow> TimeoutParams
     \<Rightarrow> int \<times> io_uring" where
  "uringio_fsync L r request_idx fd timeout_params =
     SQE_WITH_OPTIONAL_TIMEOUT L r (Some timeout_params) (\<lambda>sqe r1.
       let fsync_flags = 0;
           r2 = with_sqe sqe (io_uring_prep L (Prep_fsync fd fsync_flags)) r1
       in set_data_and_submit L sqe request_idx r2)"

definition uringio_fdatasync ::
  "liburing \<Rightarrow> io_uring \<Rightarrow> int \<Rightarrow> int \<Rightarrow> TimeoutParams
     \<Rightarrow> int \<times> io_uring" where
  "uringio_fdatasync L r request_idx fd timeout_params =
     SQE_WITH_OPTIONAL_TIMEOUT L r (Some timeout_params) (\<lambda>sqe r1.
       let fsync_flags = IORING_FSYNC_DATASYNC;
           r2 = with_sqe sqe (io_uring_prep L (Prep_fsync fd fsync_flags)) r1
       in set_data_and_submit L sqe request_idx r2)"

definition uringio_splice ::
  "liburing \<Rightarrow> io_uring \<Rightarrow> int \<Rightarrow> int \<Rightarrow> int \<Rightarrow> int \<Rightarrow> int \<Rightarrow> int \<Rightarrow> int \<Rightarrow> TimeoutParams
     \<Rightarrow> int \<times> io_uring" where
  "uringio_splice L r request_idx fd_in off_in fd_out off_out nbytes flag timeout_params =
     SQE_WITH_OPTIONAL_TIMEOUT L r (Some timeout_params) (\<lambda>sqe r1.
       let r2 = with_sqe sqe (io_uring_prep L (Prep_splice fd_in off_in fd_out off_out (word_of_int nbytes) (word_of_int flag))) r1
       in set_data_and_submit L sqe request_idx r2)"

definition uringio_read_fixed ::
  "liburing \<Rightarrow> io_uring \<Rightarrow> int \<Rightarrow> int \<Rightarrow> data_ptr \<Rightarrow> u32 \<Rightarrow> int \<Rightarrow> int \<Rightarrow> TimeoutParams
     \<Rightarrow> int \<times> io_uring" where
  "uringio_read_fixed L r request_idx fd buf sz offset buf_index timeout_params =
     SQE_WITH_OPTIONAL_TIMEOUT L r (Some timeout_params) (\<lambda>sqe r1.
       let r2 = with_sqe sqe (io_uring_prep L (Prep_read_fixed fd buf sz (word_of_int offset) buf_index)) r1
       in set_data_and_submit L sqe request_idx r2)"

definition uringio_write_fixed ::
  "liburing \<Rightarrow> io_uring \<Rightarrow> int \<Rightarrow> int \<Rightarrow> data_ptr \<Rightarrow> u32 \<Rightarrow> int \<Rightarrow> int \<Rightarrow> TimeoutParams
     \<Rightarrow> int \<times> io_uring" where
  "uringio_write_fixed L r request_idx fd buf sz offset buf_index timeout_params =
     SQE_WITH_OPTIONAL_TIMEOUT L r (Some timeout_params) (\<lambda>sqe r1.
       let r2 = with_sqe sqe (io_uring_prep L (Prep_write_fixed fd buf sz (word_of_int offset) buf_index)) r1
       in set_data_and_submit L sqe request_idx r2)"

definition uringio_read_buffer_select ::
  "liburing \<Rightarrow> io_uring \<Rightarrow> int \<Rightarrow> int \<Rightarrow> u32 \<Rightarrow> int \<Rightarrow> int \<Rightarrow> TimeoutParams
     \<Rightarrow> int \<times> io_uring" where
  "uringio_read_buffer_select L r request_idx fd sz offset bgid timeout_params =
     SQE_WITH_OPTIONAL_TIMEOUT L r (Some timeout_params) (\<lambda>sqe r1.
       let r2 = with_sqe sqe (io_uring_prep L (Prep_read fd Null sz (word_of_int offset))) r1;
           r3 = with_sqe sqe (select_group bgid) r2
       in set_data_and_submit L sqe request_idx r3)"

definition uringio_readv_buffer_select ::
  "liburing \<Rightarrow> io_uring \<Rightarrow> int \<Rightarrow> int \<Rightarrow> u32 \<Rightarrow> int \<Rightarrow> int \<Rightarrow> int \<Rightarrow> TimeoutParams
     \<Rightarrow> int \<times> io_uring" where
  "uringio_readv_buffer_select L r request_idx fd sz offset bgid nowait timeout_params =
     SQE_WITH_OPTIONAL_TIMEOUT L r (Some timeout_params) (\<lambda>sqe r1.
       let iov = \<lparr>k_iov_base = Null, k_iov_len = ucast sz\<rparr>;
           flags = nowait_flags nowait;
           r2 = with_sqe sqe (io_uring_prep L (Prep_readv2 fd (LocalVar ''uringio_readv_buffer_select'' iov) 1
                  (word_of_int offset) flags)) r1;
           r3 = with_sqe sqe (select_group bgid) r2
       in set_data_and_submit L sqe request_idx r3)"

definition uringio_read_multishot ::
  "liburing \<Rightarrow> io_uring \<Rightarrow> int \<Rightarrow> int \<Rightarrow> int \<Rightarrow> int \<Rightarrow> TimeoutParams
     \<Rightarrow> int \<times> io_uring" where
  "uringio_read_multishot L r request_idx fd offset bgid timeout_params =
     SQE_WITH_OPTIONAL_TIMEOUT L r (Some timeout_params) (\<lambda>sqe r1.
       let r2 = with_sqe sqe (io_uring_prep L (Prep_read_multishot fd 0 (word_of_int offset) bgid)) r1
       in set_data_and_submit L sqe request_idx r2)"

lemmas [op_defs] =
  open_file_def
  uringio_read_def
  uringio_readv_def
  uringio_write_def
  uringio_writev_def
  uringio_close_file_def
  uringio_fsync_def
  uringio_fdatasync_def
  uringio_splice_def
  uringio_read_fixed_def
  uringio_write_fixed_def
  uringio_read_buffer_select_def
  uringio_readv_buffer_select_def
  uringio_read_multishot_def

section \<open>The contract\<close>

interpretation open_file_op: submit_op
  "\<lambda>L r idx tp. open_file L r idx dfd path flags resolve mode tp"
  "\<lambda>L s. let flags1 = (if flags = - 1 then 66 else flags); how = \<lparr>how_flags = word_of_int flags1, how_mode = ucast mode, how_resolve = word_of_int resolve\<rparr>
     in io_uring_prep L (Prep_openat2 dfd path (LocalVar ''open_file'' how)) s"
  for dfd path flags resolve mode
  by (rule submit_opI) (simp add: op_defs wrapper_def Let_def with_sqe_twice)

interpretation read_op: submit_op
  "\<lambda>L r idx tp. uringio_read L r idx fd buf sz offset tp"
  "\<lambda>L s. io_uring_prep L (Prep_read fd buf sz (word_of_int offset)) s"
  for fd buf sz offset
  by (rule submit_opI) (simp add: op_defs wrapper_def Let_def with_sqe_twice)

interpretation readv_op: submit_op
  "\<lambda>L r idx tp. uringio_readv L r idx fd iovecs nr_vecs offset nowait tp"
  "\<lambda>L s. let flags = nowait_flags nowait
     in io_uring_prep L (Prep_readv2 fd iovecs nr_vecs (word_of_int offset) flags) s"
  for fd iovecs nr_vecs offset nowait
  by (rule submit_opI) (simp add: op_defs wrapper_def Let_def with_sqe_twice)

interpretation write_op: submit_op
  "\<lambda>L r idx tp. uringio_write L r idx fd buf sz offset tp"
  "\<lambda>L s. io_uring_prep L (Prep_write fd buf sz (word_of_int offset)) s"
  for fd buf sz offset
  by (rule submit_opI) (simp add: op_defs wrapper_def Let_def with_sqe_twice)

interpretation writev_op: submit_op
  "\<lambda>L r idx tp. uringio_writev L r idx fd iovecs nr_vecs offset flags tp"
  "\<lambda>L s. io_uring_prep L (Prep_writev2 fd iovecs nr_vecs (word_of_int offset) flags) s"
  for fd iovecs nr_vecs offset flags
  by (rule submit_opI) (simp add: op_defs wrapper_def Let_def with_sqe_twice)

interpretation close_file_op: submit_op
  "\<lambda>L r idx tp. uringio_close_file L r idx fd tp"
  "\<lambda>L s. io_uring_prep L (Prep_close fd) s"
  for fd
  by (rule submit_opI) (simp add: op_defs wrapper_def Let_def with_sqe_twice)

interpretation fsync_op: submit_op
  "\<lambda>L r idx tp. uringio_fsync L r idx fd tp"
  "\<lambda>L s. let fsync_flags = 0
     in io_uring_prep L (Prep_fsync fd fsync_flags) s"
  for fd
  by (rule submit_opI) (simp add: op_defs wrapper_def Let_def with_sqe_twice)

interpretation fdatasync_op: submit_op
  "\<lambda>L r idx tp. uringio_fdatasync L r idx fd tp"
  "\<lambda>L s. let fsync_flags = IORING_FSYNC_DATASYNC
     in io_uring_prep L (Prep_fsync fd fsync_flags) s"
  for fd
  by (rule submit_opI) (simp add: op_defs wrapper_def Let_def with_sqe_twice)

interpretation splice_op: submit_op
  "\<lambda>L r idx tp. uringio_splice L r idx fd_in off_in fd_out off_out nbytes flag tp"
  "\<lambda>L s. io_uring_prep L (Prep_splice fd_in off_in fd_out off_out (word_of_int nbytes) (word_of_int flag)) s"
  for fd_in off_in fd_out off_out nbytes flag
  by (rule submit_opI) (simp add: op_defs wrapper_def Let_def with_sqe_twice)

interpretation read_fixed_op: submit_op
  "\<lambda>L r idx tp. uringio_read_fixed L r idx fd buf sz offset buf_index tp"
  "\<lambda>L s. io_uring_prep L (Prep_read_fixed fd buf sz (word_of_int offset) buf_index) s"
  for fd buf sz offset buf_index
  by (rule submit_opI) (simp add: op_defs wrapper_def Let_def with_sqe_twice)

interpretation write_fixed_op: submit_op
  "\<lambda>L r idx tp. uringio_write_fixed L r idx fd buf sz offset buf_index tp"
  "\<lambda>L s. io_uring_prep L (Prep_write_fixed fd buf sz (word_of_int offset) buf_index) s"
  for fd buf sz offset buf_index
  by (rule submit_opI) (simp add: op_defs wrapper_def Let_def with_sqe_twice)

interpretation read_buffer_select_op: submit_op
  "\<lambda>L r idx tp. uringio_read_buffer_select L r idx fd sz offset bgid tp"
  "\<lambda>L s. select_group bgid (io_uring_prep L (Prep_read fd Null sz (word_of_int offset)) s)"
  for fd sz offset bgid
  by (rule submit_opI) (simp add: op_defs wrapper_def Let_def with_sqe_twice)

interpretation readv_buffer_select_op: submit_op
  "\<lambda>L r idx tp. uringio_readv_buffer_select L r idx fd sz offset bgid nowait tp"
  "\<lambda>L s. let iov = \<lparr>k_iov_base = Null, k_iov_len = ucast sz\<rparr>; flags = nowait_flags nowait
     in select_group bgid (io_uring_prep L (Prep_readv2 fd (LocalVar ''uringio_readv_buffer_select'' iov) 1
                  (word_of_int offset) flags) s)"
  for fd sz offset bgid nowait
  by (rule submit_opI) (simp add: op_defs wrapper_def Let_def with_sqe_twice)

interpretation read_multishot_op: submit_op
  "\<lambda>L r idx tp. uringio_read_multishot L r idx fd offset bgid tp"
  "\<lambda>L s. io_uring_prep L (Prep_read_multishot fd 0 (word_of_int offset) bgid) s"
  for fd offset bgid
  by (rule submit_opI) (simp add: op_defs wrapper_def Let_def with_sqe_twice)

end
