(* ===== verification/Socket_Ops.thy ===== *)
theory Socket_Ops
  imports File_Ops
begin

text \<open>
  \<^verbatim>\<open>src/ops/sockets\<close>: the wrappers that turn a socket operation into an SQE, in the plain, the fixed
  buffer, the buffer select, the multishot and the zero-copy variants, and the two helpers on
  the completions of a multishot \<^verbatim>\<open>recvmsg\<close>.
\<close>

definition AF_INET :: int where "AF_INET = 2"
definition AF_INET6 :: int where "AF_INET6 = 10"

definition prep_socket :: "liburing \<Rightarrow> io_uring \<Rightarrow> int \<Rightarrow> int \<Rightarrow> int \<Rightarrow> TimeoutParams \<Rightarrow> int \<times> io_uring" where
  "prep_socket L r request_idx domain type timeout_params =
     SQE_WITH_OPTIONAL_TIMEOUT L r (Some timeout_params) (\<lambda>sqe r1.
       if \<not> (domain = AF_INET \<or> domain = AF_INET6) then (- 2, r1)
       else
         let r2 = with_sqe sqe (io_uring_prep L (Prep_socket domain type 0 0)) r1
         in set_data_and_submit L sqe request_idx r2)"

definition uringio_bind ::
  "liburing \<Rightarrow> io_uring \<Rightarrow> int \<Rightarrow> int \<Rightarrow> data_ptr \<Rightarrow> u32 \<Rightarrow> TimeoutParams
     \<Rightarrow> int \<times> io_uring" where
  "uringio_bind L r request_idx fd addr addrlen timeout_params =
     SQE_WITH_OPTIONAL_TIMEOUT L r (Some timeout_params) (\<lambda>sqe r1.
       let r2 = with_sqe sqe (io_uring_prep L (Prep_bind fd addr addrlen)) r1
       in set_data_and_submit L sqe request_idx r2)"

definition uringio_connect ::
  "liburing \<Rightarrow> io_uring \<Rightarrow> int \<Rightarrow> int \<Rightarrow> data_ptr \<Rightarrow> u32 \<Rightarrow> TimeoutParams
     \<Rightarrow> int \<times> io_uring" where
  "uringio_connect L r request_idx fd addr addrlen timeout_params =
     SQE_WITH_OPTIONAL_TIMEOUT L r (Some timeout_params) (\<lambda>sqe r1.
       let r2 = with_sqe sqe (io_uring_prep L (Prep_connect fd addr addrlen)) r1
       in set_data_and_submit L sqe request_idx r2)"

definition uringio_listen ::
  "liburing \<Rightarrow> io_uring \<Rightarrow> int \<Rightarrow> int \<Rightarrow> int \<Rightarrow> TimeoutParams
     \<Rightarrow> int \<times> io_uring" where
  "uringio_listen L r request_idx fd backlog timeout_params =
     SQE_WITH_OPTIONAL_TIMEOUT L r (Some timeout_params) (\<lambda>sqe r1.
       let r2 = with_sqe sqe (io_uring_prep L (Prep_listen fd backlog)) r1
       in set_data_and_submit L sqe request_idx r2)"

definition uringio_accept ::
  "liburing \<Rightarrow> io_uring \<Rightarrow> int \<Rightarrow> int \<Rightarrow> data_ptr \<Rightarrow> data_ptr \<Rightarrow> int \<Rightarrow> TimeoutParams
     \<Rightarrow> int \<times> io_uring" where
  "uringio_accept L r request_idx sockfd addr len flags timeout_params =
     SQE_WITH_OPTIONAL_TIMEOUT L r (Some timeout_params) (\<lambda>sqe r1.
       let r2 = with_sqe sqe (io_uring_prep L (Prep_accept sockfd addr len flags)) r1
       in set_data_and_submit L sqe request_idx r2)"

definition uringio_close_socket ::
  "liburing \<Rightarrow> io_uring \<Rightarrow> int \<Rightarrow> int \<Rightarrow> TimeoutParams
     \<Rightarrow> int \<times> io_uring" where
  "uringio_close_socket L r request_idx sockfd timeout_params =
     SQE_WITH_OPTIONAL_TIMEOUT L r (Some timeout_params) (\<lambda>sqe r1.
       let r2 = with_sqe sqe (io_uring_prep L (Prep_close sockfd)) r1
       in set_data_and_submit L sqe request_idx r2)"

definition uringio_send ::
  "liburing \<Rightarrow> io_uring \<Rightarrow> int \<Rightarrow> int \<Rightarrow> data_ptr \<Rightarrow> u64 \<Rightarrow> int \<Rightarrow> TimeoutParams
     \<Rightarrow> int \<times> io_uring" where
  "uringio_send L r request_idx sockfd buf len is_poll_first timeout_params =
     SQE_WITH_OPTIONAL_TIMEOUT L r (Some timeout_params) (\<lambda>sqe r1.
       let flags = poll_first_flags is_poll_first;
           r2 = with_sqe sqe (io_uring_prep L (Prep_send sockfd buf len flags)) r1
       in set_data_and_submit L sqe request_idx r2)"

definition uringio_recv ::
  "liburing \<Rightarrow> io_uring \<Rightarrow> int \<Rightarrow> int \<Rightarrow> data_ptr \<Rightarrow> u64 \<Rightarrow> int \<Rightarrow> TimeoutParams
     \<Rightarrow> int \<times> io_uring" where
  "uringio_recv L r request_idx sockfd buf len is_poll_first timeout_params =
     SQE_WITH_OPTIONAL_TIMEOUT L r (Some timeout_params) (\<lambda>sqe r1.
       let flags = poll_first_flags is_poll_first;
           r2 = with_sqe sqe (io_uring_prep L (Prep_recv sockfd buf len flags)) r1
       in set_data_and_submit L sqe request_idx r2)"

definition uringio_sendto ::
  "liburing \<Rightarrow> io_uring \<Rightarrow> int \<Rightarrow> int \<Rightarrow> data_ptr \<Rightarrow> u64 \<Rightarrow> data_ptr \<Rightarrow> u64 \<Rightarrow> int \<Rightarrow> TimeoutParams
     \<Rightarrow> int \<times> io_uring" where
  "uringio_sendto L r request_idx sockfd buf len addr addrlen is_poll_first timeout_params =
     SQE_WITH_OPTIONAL_TIMEOUT L r (Some timeout_params) (\<lambda>sqe r1.
       let flags = poll_first_flags is_poll_first;
           r2 = with_sqe sqe (io_uring_prep L (Prep_sendto sockfd buf len flags addr (ucast addrlen))) r1
       in set_data_and_submit L sqe request_idx r2)"

definition uringio_recvfrom ::
  "liburing \<Rightarrow> io_uring \<Rightarrow> int \<Rightarrow> int \<Rightarrow> data_ptr \<Rightarrow> u64 \<Rightarrow> data_ptr \<Rightarrow> u32 \<Rightarrow> int \<Rightarrow> nat \<Rightarrow> TimeoutParams
     \<Rightarrow> int \<times> io_uring" where
  "uringio_recvfrom L r request_idx sockfd buf len addr addrlen is_poll_first msg timeout_params =
     SQE_WITH_OPTIONAL_TIMEOUT L r (Some timeout_params) (\<lambda>sqe r1.
       let iov = \<lparr>k_iov_base = buf, k_iov_len = len\<rparr>;
           hdr = \<lparr>msg_name = addr, msg_namelen = addrlen, msg_iov = HeapCell msg iov, msg_iovlen = 1,
                  msg_control = Null, msg_controllen = 0\<rparr>;
           flags = poll_first_flags is_poll_first;
           r2 = with_sqe sqe (io_uring_prep L (Prep_recvmsg sockfd (HeapCell msg hdr) (word_of_int flags))) r1
       in set_data_and_submit L sqe request_idx r2)"

definition uringio_sendmsg ::
  "liburing \<Rightarrow> io_uring \<Rightarrow> int \<Rightarrow> int \<Rightarrow> iov_ptr \<Rightarrow> u32 \<Rightarrow> data_ptr \<Rightarrow> u64 \<Rightarrow> int \<Rightarrow> TimeoutParams
     \<Rightarrow> int \<times> io_uring" where
  "uringio_sendmsg L r request_idx sockfd iovecs nr_vecs addr addrlen is_poll_first timeout_params =
     SQE_WITH_OPTIONAL_TIMEOUT L r (Some timeout_params) (\<lambda>sqe r1.
       let msg = \<lparr>msg_name = addr, msg_namelen = ucast addrlen, msg_iov = iovecs, msg_iovlen = ucast nr_vecs,
                  msg_control = Null, msg_controllen = 0\<rparr>;
           flags = poll_first_flags is_poll_first;
           r2 = with_sqe sqe (io_uring_prep L (Prep_sendmsg sockfd (LocalVar ''uringio_sendmsg'' msg) (word_of_int flags))) r1
       in set_data_and_submit L sqe request_idx r2)"

definition uringio_recvmsg ::
  "liburing \<Rightarrow> io_uring \<Rightarrow> int \<Rightarrow> int \<Rightarrow> iov_ptr \<Rightarrow> u32 \<Rightarrow> int \<Rightarrow> TimeoutParams
     \<Rightarrow> int \<times> io_uring" where
  "uringio_recvmsg L r request_idx sockfd iovecs nr_vecs is_poll_first timeout_params =
     SQE_WITH_OPTIONAL_TIMEOUT L r (Some timeout_params) (\<lambda>sqe r1.
       let msg = \<lparr>msg_name = Null, msg_namelen = 0, msg_iov = iovecs, msg_iovlen = ucast nr_vecs,
                  msg_control = Null, msg_controllen = 0\<rparr>;
           flags = poll_first_flags is_poll_first;
           r2 = with_sqe sqe (io_uring_prep L (Prep_recvmsg sockfd (LocalVar ''uringio_recvmsg'' msg) (word_of_int flags))) r1
       in set_data_and_submit L sqe request_idx r2)"

definition uringio_recv_fixed ::
  "liburing \<Rightarrow> io_uring \<Rightarrow> int \<Rightarrow> int \<Rightarrow> data_ptr \<Rightarrow> u64 \<Rightarrow> int \<Rightarrow> int \<Rightarrow> TimeoutParams
     \<Rightarrow> int \<times> io_uring" where
  "uringio_recv_fixed L r request_idx sockfd buf len is_poll_first buf_index timeout_params =
     SQE_WITH_OPTIONAL_TIMEOUT L r (Some timeout_params) (\<lambda>sqe r1.
       let flags = poll_first_flags is_poll_first;
           r2 = with_sqe sqe (io_uring_prep L (Prep_recv sockfd buf len flags)) r1;
           r3 = with_sqe sqe (use_fixed_buf buf_index) r2
       in set_data_and_submit L sqe request_idx r3)"

definition uringio_recvmsg_fixed ::
  "liburing \<Rightarrow> io_uring \<Rightarrow> int \<Rightarrow> int \<Rightarrow> iov_ptr \<Rightarrow> u32 \<Rightarrow> int \<Rightarrow> int \<Rightarrow> TimeoutParams
     \<Rightarrow> int \<times> io_uring" where
  "uringio_recvmsg_fixed L r request_idx sockfd iovecs nr_vecs is_poll_first buf_index timeout_params =
     SQE_WITH_OPTIONAL_TIMEOUT L r (Some timeout_params) (\<lambda>sqe r1.
       let msg = \<lparr>msg_name = Null, msg_namelen = 0, msg_iov = iovecs, msg_iovlen = ucast nr_vecs,
                  msg_control = Null, msg_controllen = 0\<rparr>;
           flags = poll_first_flags is_poll_first;
           r2 = with_sqe sqe (io_uring_prep L (Prep_recvmsg sockfd (LocalVar ''uringio_recvmsg_fixed'' msg)
                  (word_of_int flags))) r1;
           r3 = with_sqe sqe (use_fixed_buf buf_index) r2
       in set_data_and_submit L sqe request_idx r3)"

definition uringio_recv_buffer_select ::
  "liburing \<Rightarrow> io_uring \<Rightarrow> int \<Rightarrow> int \<Rightarrow> u64 \<Rightarrow> int \<Rightarrow> int \<Rightarrow> TimeoutParams
     \<Rightarrow> int \<times> io_uring" where
  "uringio_recv_buffer_select L r request_idx sockfd len bgid is_poll_first timeout_params =
     SQE_WITH_OPTIONAL_TIMEOUT L r (Some timeout_params) (\<lambda>sqe r1.
       let flags = poll_first_flags is_poll_first;
           r2 = with_sqe sqe (io_uring_prep L (Prep_recv sockfd Null len flags)) r1;
           r3 = with_sqe sqe (select_group bgid) r2
       in set_data_and_submit L sqe request_idx r3)"

definition uringio_recvmsg_buffer_select ::
  "liburing \<Rightarrow> io_uring \<Rightarrow> int \<Rightarrow> int \<Rightarrow> int \<Rightarrow> int \<Rightarrow> TimeoutParams
     \<Rightarrow> int \<times> io_uring" where
  "uringio_recvmsg_buffer_select L r request_idx sockfd is_poll_first bgid timeout_params =
     SQE_WITH_OPTIONAL_TIMEOUT L r (Some timeout_params) (\<lambda>sqe r1.
       let msg = \<lparr>msg_name = Null, msg_namelen = 0, msg_iov = Null, msg_iovlen = 0,
                  msg_control = Null, msg_controllen = 0\<rparr>;
           flags = poll_first_flags is_poll_first;
           r2 = with_sqe sqe (io_uring_prep L (Prep_recvmsg sockfd (LocalVar ''uringio_recvmsg_buffer_select'' msg)
                  (word_of_int flags))) r1;
           r3 = with_sqe sqe (select_group bgid) r2
       in set_data_and_submit L sqe request_idx r3)"

definition uringio_accept_multishot ::
  "liburing \<Rightarrow> io_uring \<Rightarrow> int \<Rightarrow> int \<Rightarrow> data_ptr \<Rightarrow> data_ptr \<Rightarrow> int \<Rightarrow> TimeoutParams
     \<Rightarrow> int \<times> io_uring" where
  "uringio_accept_multishot L r request_idx sockfd addr len flags timeout_params =
     SQE_WITH_OPTIONAL_TIMEOUT L r (Some timeout_params) (\<lambda>sqe r1.
       let r2 = with_sqe sqe (io_uring_prep L (Prep_multishot_accept sockfd addr len flags)) r1
       in set_data_and_submit L sqe request_idx r2)"

definition uringio_recv_multishot ::
  "liburing \<Rightarrow> io_uring \<Rightarrow> int \<Rightarrow> int \<Rightarrow> u64 \<Rightarrow> int \<Rightarrow> int \<Rightarrow> TimeoutParams
     \<Rightarrow> int \<times> io_uring" where
  "uringio_recv_multishot L r request_idx sockfd len bgid is_poll_first timeout_params =
     SQE_WITH_OPTIONAL_TIMEOUT L r (Some timeout_params) (\<lambda>sqe r1.
       let flags = poll_first_flags is_poll_first;
           r2 = with_sqe sqe (io_uring_prep L (Prep_recv_multishot sockfd Null len flags)) r1;
           r3 = with_sqe sqe (select_group bgid) r2
       in set_data_and_submit L sqe request_idx r3)"

definition uringio_recvmsg_multishot ::
  "liburing \<Rightarrow> io_uring \<Rightarrow> int \<Rightarrow> int \<Rightarrow> int \<Rightarrow> int \<Rightarrow> msg_ptr \<Rightarrow> TimeoutParams
     \<Rightarrow> int \<times> io_uring" where
  "uringio_recvmsg_multishot L r request_idx sockfd bgid is_poll_first msghdr timeout_params =
     SQE_WITH_OPTIONAL_TIMEOUT L r (Some timeout_params) (\<lambda>sqe r1.
       let flags = poll_first_flags is_poll_first;
           r2 = with_sqe sqe (io_uring_prep L (Prep_recvmsg_multishot sockfd msghdr (word_of_int flags))) r1;
           r3 = with_sqe sqe (select_group bgid) r2
       in set_data_and_submit L sqe request_idx r3)"

definition uringio_send_zc ::
  "liburing \<Rightarrow> io_uring \<Rightarrow> int \<Rightarrow> int \<Rightarrow> data_ptr \<Rightarrow> u64 \<Rightarrow> int \<Rightarrow> TimeoutParams
     \<Rightarrow> int \<times> io_uring" where
  "uringio_send_zc L r request_idx sockfd buf len is_poll_first timeout_params =
     SQE_WITH_OPTIONAL_TIMEOUT L r (Some timeout_params) (\<lambda>sqe r1.
       let flags = poll_first_flags is_poll_first;
           r2 = with_sqe sqe (io_uring_prep L (Prep_send_zc sockfd buf len flags 0)) r1
       in set_data_and_submit L sqe request_idx r2)"

definition uringio_send_zc_fixed ::
  "liburing \<Rightarrow> io_uring \<Rightarrow> int \<Rightarrow> int \<Rightarrow> data_ptr \<Rightarrow> u64 \<Rightarrow> int \<Rightarrow> int \<Rightarrow> TimeoutParams
     \<Rightarrow> int \<times> io_uring" where
  "uringio_send_zc_fixed L r request_idx sockfd buf len is_poll_first buf_index timeout_params =
     SQE_WITH_OPTIONAL_TIMEOUT L r (Some timeout_params) (\<lambda>sqe r1.
       let flags = poll_first_flags is_poll_first;
           r2 = with_sqe sqe (io_uring_prep L (Prep_send_zc_fixed sockfd buf len flags 0 (word_of_int buf_index))) r1
       in set_data_and_submit L sqe request_idx r2)"

definition uringio_sendmsg_zc ::
  "liburing \<Rightarrow> io_uring \<Rightarrow> int \<Rightarrow> int \<Rightarrow> iov_ptr \<Rightarrow> u32 \<Rightarrow> data_ptr \<Rightarrow> u64 \<Rightarrow> int \<Rightarrow> int \<Rightarrow> TimeoutParams
     \<Rightarrow> int \<times> io_uring" where
  "uringio_sendmsg_zc L r request_idx sockfd iovecs nr_vecs addr addrlen is_poll_first buf_index timeout_params =
     SQE_WITH_OPTIONAL_TIMEOUT L r (Some timeout_params) (\<lambda>sqe r1.
       let msg = \<lparr>msg_name = addr, msg_namelen = ucast addrlen, msg_iov = iovecs, msg_iovlen = ucast nr_vecs,
                  msg_control = Null, msg_controllen = 0\<rparr>;
           flags = poll_first_flags is_poll_first;
           r2 = with_sqe sqe (io_uring_prep L (Prep_sendmsg_zc sockfd (LocalVar ''uringio_sendmsg_zc'' msg) (word_of_int flags))) r1;
           r3 = with_sqe sqe (use_fixed_buf buf_index) r2
       in set_data_and_submit L sqe request_idx r3)"

lemmas [op_defs] =
  uringio_bind_def
  uringio_connect_def
  uringio_listen_def
  uringio_accept_def
  uringio_close_socket_def
  uringio_send_def
  uringio_recv_def
  uringio_sendto_def
  uringio_recvfrom_def
  uringio_sendmsg_def
  uringio_recvmsg_def
  uringio_recv_fixed_def
  uringio_recvmsg_fixed_def
  uringio_recv_buffer_select_def
  uringio_recvmsg_buffer_select_def
  uringio_accept_multishot_def
  uringio_recv_multishot_def
  uringio_recvmsg_multishot_def
  uringio_send_zc_def
  uringio_send_zc_fixed_def
  uringio_sendmsg_zc_def

text \<open>
  \<^verbatim>\<open>uringio_recvmsg_validate_multishot\<close> asks liburing where the payload of a multishot
  \<^verbatim>\<open>recvmsg\<close> lies in the buffer the kernel chose; the three functions of the library are parameters.
\<close>

record RecvMsgMultishotResult =
  rm_payload :: "nat option"
  rm_payload_len :: u64
  rm_is_null :: bool

definition uringio_recvmsg_validate_multishot ::
  "('b \<Rightarrow> int \<Rightarrow> 'm \<Rightarrow> 'o option) \<Rightarrow> ('o \<Rightarrow> 'm \<Rightarrow> nat) \<Rightarrow> ('o \<Rightarrow> int \<Rightarrow> 'm \<Rightarrow> u32) \<Rightarrow>
     'b \<Rightarrow> int \<Rightarrow> 'm \<Rightarrow> int \<Rightarrow> RecvMsgMultishotResult" where
  "uringio_recvmsg_validate_multishot validate payload payload_length buf buf_len msghdr len =
     (case validate buf buf_len msghdr of
        None \<Rightarrow> \<lparr>rm_payload = None, rm_payload_len = 0, rm_is_null = True\<rparr>
      | Some out \<Rightarrow>
          \<lparr>rm_payload = Some (payload out msghdr), rm_payload_len = ucast (payload_length out len msghdr),
           rm_is_null = False\<rparr>)"

definition IORING_CQE_F_MORE :: u32 where "IORING_CQE_F_MORE = 2"

definition is_uringio_recvmsg_multishot_resubmit_required :: "cqe \<Rightarrow> bool" where
  "is_uringio_recvmsg_multishot_resubmit_required cqe \<longleftrightarrow> cqe_flags cqe AND IORING_CQE_F_MORE = 0"

section \<open>The contract\<close>

lemma prep_socket_refused:
  assumes ok: "liburing_ok L" and w: "prep_socket L r idx domain type tp = (t, r')"
    and dom: "\<not> (domain = AF_INET \<or> domain = AF_INET6)"
  shows "\<exists>rest. (t = - 1 \<or> t = - 2) \<and> issued r' = issued r @ rest \<and> length rest \<le> 2 \<and>
    r_submitted r' = r_submitted r"
proof -
  from macro_effect [OF ok w [unfolded prep_socket_def]] show ?thesis
  proof (elim disjE exE conjE)
    fix r1 left
    assume "(t, r') = (- 1, r1)" "r_submitted r1 = r_submitted r"
      "r_pending r1 = r_pending r @ left" "length left \<le> 1"
    then show ?thesis by (simp add: issued_def)
  next
    fix r2 s0 rest
    assume "r_submitted r2 = r_submitted r" "r_pending r2 = r_pending r @ s0 # rest"
      "timeout_tail tp rest"
      and e: "(t, r') = (if \<not> (domain = AF_INET \<or> domain = AF_INET6) then (- 2, r2)
        else let r3 = with_sqe (length (r_pending r)) (io_uring_prep L (Prep_socket domain type 0 0)) r2
             in set_data_and_submit L (length (r_pending r)) idx r3)"
    moreover from e have "t = - 2" "r' = r2" using dom by simp_all
    ultimately show ?thesis by (auto simp: issued_def timeout_tail_def)
  qed
qed

interpretation bind_op: submit_op
  "\<lambda>L r idx tp. uringio_bind L r idx fd addr addrlen tp"
  "\<lambda>L s. io_uring_prep L (Prep_bind fd addr addrlen) s"
  for fd addr addrlen
  by (rule submit_opI) (simp add: op_defs wrapper_def Let_def with_sqe_twice)

interpretation connect_op: submit_op
  "\<lambda>L r idx tp. uringio_connect L r idx fd addr addrlen tp"
  "\<lambda>L s. io_uring_prep L (Prep_connect fd addr addrlen) s"
  for fd addr addrlen
  by (rule submit_opI) (simp add: op_defs wrapper_def Let_def with_sqe_twice)

interpretation listen_op: submit_op
  "\<lambda>L r idx tp. uringio_listen L r idx fd backlog tp"
  "\<lambda>L s. io_uring_prep L (Prep_listen fd backlog) s"
  for fd backlog
  by (rule submit_opI) (simp add: op_defs wrapper_def Let_def with_sqe_twice)

interpretation accept_op: submit_op
  "\<lambda>L r idx tp. uringio_accept L r idx sockfd addr len flags tp"
  "\<lambda>L s. io_uring_prep L (Prep_accept sockfd addr len flags) s"
  for sockfd addr len flags
  by (rule submit_opI) (simp add: op_defs wrapper_def Let_def with_sqe_twice)

interpretation close_socket_op: submit_op
  "\<lambda>L r idx tp. uringio_close_socket L r idx sockfd tp"
  "\<lambda>L s. io_uring_prep L (Prep_close sockfd) s"
  for sockfd
  by (rule submit_opI) (simp add: op_defs wrapper_def Let_def with_sqe_twice)

interpretation send_op: submit_op
  "\<lambda>L r idx tp. uringio_send L r idx sockfd buf len is_poll_first tp"
  "\<lambda>L s. let flags = poll_first_flags is_poll_first
     in io_uring_prep L (Prep_send sockfd buf len flags) s"
  for sockfd buf len is_poll_first
  by (rule submit_opI) (simp add: op_defs wrapper_def Let_def with_sqe_twice)

interpretation recv_op: submit_op
  "\<lambda>L r idx tp. uringio_recv L r idx sockfd buf len is_poll_first tp"
  "\<lambda>L s. let flags = poll_first_flags is_poll_first
     in io_uring_prep L (Prep_recv sockfd buf len flags) s"
  for sockfd buf len is_poll_first
  by (rule submit_opI) (simp add: op_defs wrapper_def Let_def with_sqe_twice)

interpretation sendto_op: submit_op
  "\<lambda>L r idx tp. uringio_sendto L r idx sockfd buf len addr addrlen is_poll_first tp"
  "\<lambda>L s. let flags = poll_first_flags is_poll_first
     in io_uring_prep L (Prep_sendto sockfd buf len flags addr (ucast addrlen)) s"
  for sockfd buf len addr addrlen is_poll_first
  by (rule submit_opI) (simp add: op_defs wrapper_def Let_def with_sqe_twice)

interpretation recvfrom_op: submit_op
  "\<lambda>L r idx tp. uringio_recvfrom L r idx sockfd buf len addr addrlen is_poll_first msg tp"
  "\<lambda>L s. let iov = \<lparr>k_iov_base = buf, k_iov_len = len\<rparr>; hdr = \<lparr>msg_name = addr, msg_namelen = addrlen, msg_iov = HeapCell msg iov, msg_iovlen = 1,
                  msg_control = Null, msg_controllen = 0\<rparr>;
           flags = poll_first_flags is_poll_first
     in io_uring_prep L (Prep_recvmsg sockfd (HeapCell msg hdr) (word_of_int flags)) s"
  for sockfd buf len addr addrlen is_poll_first msg
  by (rule submit_opI) (simp add: op_defs wrapper_def Let_def with_sqe_twice)

interpretation sendmsg_op: submit_op
  "\<lambda>L r idx tp. uringio_sendmsg L r idx sockfd iovecs nr_vecs addr addrlen is_poll_first tp"
  "\<lambda>L s. let msg = \<lparr>msg_name = addr, msg_namelen = ucast addrlen, msg_iov = iovecs, msg_iovlen = ucast nr_vecs,
                  msg_control = Null, msg_controllen = 0\<rparr>;
           flags = poll_first_flags is_poll_first
     in io_uring_prep L (Prep_sendmsg sockfd (LocalVar ''uringio_sendmsg'' msg) (word_of_int flags)) s"
  for sockfd iovecs nr_vecs addr addrlen is_poll_first
  by (rule submit_opI) (simp add: op_defs wrapper_def Let_def with_sqe_twice)

interpretation recvmsg_op: submit_op
  "\<lambda>L r idx tp. uringio_recvmsg L r idx sockfd iovecs nr_vecs is_poll_first tp"
  "\<lambda>L s. let msg = \<lparr>msg_name = Null, msg_namelen = 0, msg_iov = iovecs, msg_iovlen = ucast nr_vecs,
                  msg_control = Null, msg_controllen = 0\<rparr>;
           flags = poll_first_flags is_poll_first
     in io_uring_prep L (Prep_recvmsg sockfd (LocalVar ''uringio_recvmsg'' msg) (word_of_int flags)) s"
  for sockfd iovecs nr_vecs is_poll_first
  by (rule submit_opI) (simp add: op_defs wrapper_def Let_def with_sqe_twice)

interpretation recv_fixed_op: submit_op
  "\<lambda>L r idx tp. uringio_recv_fixed L r idx sockfd buf len is_poll_first buf_index tp"
  "\<lambda>L s. let flags = poll_first_flags is_poll_first
     in use_fixed_buf buf_index (io_uring_prep L (Prep_recv sockfd buf len flags) s)"
  for sockfd buf len is_poll_first buf_index
  by (rule submit_opI) (simp add: op_defs wrapper_def Let_def with_sqe_twice)

interpretation recvmsg_fixed_op: submit_op
  "\<lambda>L r idx tp. uringio_recvmsg_fixed L r idx sockfd iovecs nr_vecs is_poll_first buf_index tp"
  "\<lambda>L s. let msg = \<lparr>msg_name = Null, msg_namelen = 0, msg_iov = iovecs, msg_iovlen = ucast nr_vecs,
                  msg_control = Null, msg_controllen = 0\<rparr>;
           flags = poll_first_flags is_poll_first
     in use_fixed_buf buf_index (io_uring_prep L (Prep_recvmsg sockfd (LocalVar ''uringio_recvmsg_fixed'' msg)
                  (word_of_int flags)) s)"
  for sockfd iovecs nr_vecs is_poll_first buf_index
  by (rule submit_opI) (simp add: op_defs wrapper_def Let_def with_sqe_twice)

interpretation recv_buffer_select_op: submit_op
  "\<lambda>L r idx tp. uringio_recv_buffer_select L r idx sockfd len bgid is_poll_first tp"
  "\<lambda>L s. let flags = poll_first_flags is_poll_first
     in select_group bgid (io_uring_prep L (Prep_recv sockfd Null len flags) s)"
  for sockfd len bgid is_poll_first
  by (rule submit_opI) (simp add: op_defs wrapper_def Let_def with_sqe_twice)

interpretation recvmsg_buffer_select_op: submit_op
  "\<lambda>L r idx tp. uringio_recvmsg_buffer_select L r idx sockfd is_poll_first bgid tp"
  "\<lambda>L s. let msg = \<lparr>msg_name = Null, msg_namelen = 0, msg_iov = Null, msg_iovlen = 0,
                  msg_control = Null, msg_controllen = 0\<rparr>;
           flags = poll_first_flags is_poll_first
     in select_group bgid (io_uring_prep L (Prep_recvmsg sockfd (LocalVar ''uringio_recvmsg_buffer_select'' msg)
                  (word_of_int flags)) s)"
  for sockfd is_poll_first bgid
  by (rule submit_opI) (simp add: op_defs wrapper_def Let_def with_sqe_twice)

interpretation accept_multishot_op: submit_op
  "\<lambda>L r idx tp. uringio_accept_multishot L r idx sockfd addr len flags tp"
  "\<lambda>L s. io_uring_prep L (Prep_multishot_accept sockfd addr len flags) s"
  for sockfd addr len flags
  by (rule submit_opI) (simp add: op_defs wrapper_def Let_def with_sqe_twice)

interpretation recv_multishot_op: submit_op
  "\<lambda>L r idx tp. uringio_recv_multishot L r idx sockfd len bgid is_poll_first tp"
  "\<lambda>L s. let flags = poll_first_flags is_poll_first
     in select_group bgid (io_uring_prep L (Prep_recv_multishot sockfd Null len flags) s)"
  for sockfd len bgid is_poll_first
  by (rule submit_opI) (simp add: op_defs wrapper_def Let_def with_sqe_twice)

interpretation recvmsg_multishot_op: submit_op
  "\<lambda>L r idx tp. uringio_recvmsg_multishot L r idx sockfd bgid is_poll_first msghdr tp"
  "\<lambda>L s. let flags = poll_first_flags is_poll_first
     in select_group bgid (io_uring_prep L (Prep_recvmsg_multishot sockfd msghdr (word_of_int flags)) s)"
  for sockfd bgid is_poll_first msghdr
  by (rule submit_opI) (simp add: op_defs wrapper_def Let_def with_sqe_twice)

interpretation send_zc_op: submit_op
  "\<lambda>L r idx tp. uringio_send_zc L r idx sockfd buf len is_poll_first tp"
  "\<lambda>L s. let flags = poll_first_flags is_poll_first
     in io_uring_prep L (Prep_send_zc sockfd buf len flags 0) s"
  for sockfd buf len is_poll_first
  by (rule submit_opI) (simp add: op_defs wrapper_def Let_def with_sqe_twice)

interpretation send_zc_fixed_op: submit_op
  "\<lambda>L r idx tp. uringio_send_zc_fixed L r idx sockfd buf len is_poll_first buf_index tp"
  "\<lambda>L s. let flags = poll_first_flags is_poll_first
     in io_uring_prep L (Prep_send_zc_fixed sockfd buf len flags 0 (word_of_int buf_index)) s"
  for sockfd buf len is_poll_first buf_index
  by (rule submit_opI) (simp add: op_defs wrapper_def Let_def with_sqe_twice)

interpretation sendmsg_zc_op: submit_op
  "\<lambda>L r idx tp. uringio_sendmsg_zc L r idx sockfd iovecs nr_vecs addr addrlen is_poll_first buf_index tp"
  "\<lambda>L s. let msg = \<lparr>msg_name = addr, msg_namelen = ucast addrlen, msg_iov = iovecs, msg_iovlen = ucast nr_vecs,
                  msg_control = Null, msg_controllen = 0\<rparr>;
           flags = poll_first_flags is_poll_first
     in use_fixed_buf buf_index (io_uring_prep L (Prep_sendmsg_zc sockfd (LocalVar ''uringio_sendmsg_zc'' msg) (word_of_int flags)) s)"
  for sockfd iovecs nr_vecs addr addrlen is_poll_first buf_index
  by (rule submit_opI) (simp add: op_defs wrapper_def Let_def with_sqe_twice)

interpretation prep_socket_op: submit_op
  "\<lambda>L r idx tp. prep_socket L r idx domain type tp"
  "\<lambda>L s. io_uring_prep L (Prep_socket domain type 0 0) s"
  for domain type
proof (cases "domain = AF_INET \<or> domain = AF_INET6")
  case True
  then show "submit_op (\<lambda>L r idx tp. prep_socket L r idx domain type tp)
      (\<lambda>L s. io_uring_prep L (Prep_socket domain type 0 0) s)"
    by (intro submit_opI) (simp add: prep_socket_def wrapper_def Let_def)
next
  case False
  show "submit_op (\<lambda>L r idx tp. prep_socket L r idx domain type tp)
      (\<lambda>L s. io_uring_prep L (Prep_socket domain type 0 0) s)"
  proof
    fix L r idx tp t r'
    assume ok: "liburing_ok L" and w: "prep_socket L r idx domain type tp = (t, r')"
    from prep_socket_refused [OF ok w False] obtain rest where
      "t = - 1 \<or> t = - 2" "issued r' = issued r @ rest" "length rest \<le> 2" "r_submitted r' = r_submitted r"
      by blast
    then show "t \<in> {- 2, - 1, 0, 1}" "r_submitted r' = r_submitted r"
      "0 \<le> t \<Longrightarrow> \<exists>s0 rest. sqe_flags s0 = link_flag tp \<and> sqe_ioprio s0 = 0 \<and> timeout_tail tp rest \<and>
        issued r' = issued r @
          (io_uring_prep L (Prep_socket domain type 0 0) s0)\<lparr>sqe_user_data := idx_to_data idx\<rparr> # rest"
      "\<exists>rest. issued r' = issued r @ rest \<and> length rest \<le> 2"
      by auto
  qed
qed

end
