(* ===== verification/Uring_Ops.thy ===== *)
theory Uring_Ops
  imports Socket_Ops
begin

text \<open>
  The submission layer as a whole: the contract holds for each wrapper of \<^verbatim>\<open>src/ops\<close>, so what follows
  from it holds for every operation the Python layer can submit.
\<close>

section \<open>Every wrapper\<close>

text \<open>
  The operations the Python layer submits, one constructor per wrapper, with the arguments the wrapper takes
  besides the ring, the request index and the timeout.
\<close>

datatype uring_op =
    Op_open_file int string int int u32
  | Op_read int data_ptr u32 int
  | Op_readv int iov_ptr u32 int int
  | Op_write int data_ptr u32 int
  | Op_writev int iov_ptr u32 int int
  | Op_close_file int
  | Op_fsync int
  | Op_fdatasync int
  | Op_splice int int int int int int
  | Op_read_fixed int data_ptr u32 int int
  | Op_write_fixed int data_ptr u32 int int
  | Op_read_buffer_select int u32 int int
  | Op_readv_buffer_select int u32 int int int
  | Op_read_multishot int int int
  | Op_bind int data_ptr u32
  | Op_connect int data_ptr u32
  | Op_listen int int
  | Op_accept int data_ptr data_ptr int
  | Op_close_socket int
  | Op_send int data_ptr u64 int
  | Op_recv int data_ptr u64 int
  | Op_sendto int data_ptr u64 data_ptr u64 int
  | Op_recvfrom int data_ptr u64 data_ptr u32 int nat
  | Op_sendmsg int iov_ptr u32 data_ptr u64 int
  | Op_recvmsg int iov_ptr u32 int
  | Op_recv_fixed int data_ptr u64 int int
  | Op_recvmsg_fixed int iov_ptr u32 int int
  | Op_recv_buffer_select int u64 int int
  | Op_recvmsg_buffer_select int int int
  | Op_accept_multishot int data_ptr data_ptr int
  | Op_recv_multishot int u64 int int
  | Op_recvmsg_multishot int int int msg_ptr
  | Op_send_zc int data_ptr u64 int
  | Op_send_zc_fixed int data_ptr u64 int int
  | Op_sendmsg_zc int iov_ptr u32 data_ptr u64 int int
  | Op_prep_socket int int

fun run_op :: "uring_op \<Rightarrow> liburing \<Rightarrow> io_uring \<Rightarrow> int \<Rightarrow> TimeoutParams \<Rightarrow> int \<times> io_uring" where
  "run_op (Op_open_file dfd path flags resolve mode) L r idx tp = open_file L r idx dfd path flags resolve mode tp"
| "run_op (Op_read fd buf sz offset) L r idx tp = uringio_read L r idx fd buf sz offset tp"
| "run_op (Op_readv fd iovecs nr_vecs offset nowait) L r idx tp = uringio_readv L r idx fd iovecs nr_vecs offset nowait tp"
| "run_op (Op_write fd buf sz offset) L r idx tp = uringio_write L r idx fd buf sz offset tp"
| "run_op (Op_writev fd iovecs nr_vecs offset flags) L r idx tp = uringio_writev L r idx fd iovecs nr_vecs offset flags tp"
| "run_op (Op_close_file fd) L r idx tp = uringio_close_file L r idx fd tp"
| "run_op (Op_fsync fd) L r idx tp = uringio_fsync L r idx fd tp"
| "run_op (Op_fdatasync fd) L r idx tp = uringio_fdatasync L r idx fd tp"
| "run_op (Op_splice fd_in off_in fd_out off_out nbytes flag) L r idx tp = uringio_splice L r idx fd_in off_in fd_out off_out nbytes flag tp"
| "run_op (Op_read_fixed fd buf sz offset buf_index) L r idx tp = uringio_read_fixed L r idx fd buf sz offset buf_index tp"
| "run_op (Op_write_fixed fd buf sz offset buf_index) L r idx tp = uringio_write_fixed L r idx fd buf sz offset buf_index tp"
| "run_op (Op_read_buffer_select fd sz offset bgid) L r idx tp = uringio_read_buffer_select L r idx fd sz offset bgid tp"
| "run_op (Op_readv_buffer_select fd sz offset bgid nowait) L r idx tp = uringio_readv_buffer_select L r idx fd sz offset bgid nowait tp"
| "run_op (Op_read_multishot fd offset bgid) L r idx tp = uringio_read_multishot L r idx fd offset bgid tp"
| "run_op (Op_bind fd addr addrlen) L r idx tp = uringio_bind L r idx fd addr addrlen tp"
| "run_op (Op_connect fd addr addrlen) L r idx tp = uringio_connect L r idx fd addr addrlen tp"
| "run_op (Op_listen fd backlog) L r idx tp = uringio_listen L r idx fd backlog tp"
| "run_op (Op_accept sockfd addr len flags) L r idx tp = uringio_accept L r idx sockfd addr len flags tp"
| "run_op (Op_close_socket sockfd) L r idx tp = uringio_close_socket L r idx sockfd tp"
| "run_op (Op_send sockfd buf len is_poll_first) L r idx tp = uringio_send L r idx sockfd buf len is_poll_first tp"
| "run_op (Op_recv sockfd buf len is_poll_first) L r idx tp = uringio_recv L r idx sockfd buf len is_poll_first tp"
| "run_op (Op_sendto sockfd buf len addr addrlen is_poll_first) L r idx tp = uringio_sendto L r idx sockfd buf len addr addrlen is_poll_first tp"
| "run_op (Op_recvfrom sockfd buf len addr addrlen is_poll_first msg) L r idx tp = uringio_recvfrom L r idx sockfd buf len addr addrlen is_poll_first msg tp"
| "run_op (Op_sendmsg sockfd iovecs nr_vecs addr addrlen is_poll_first) L r idx tp = uringio_sendmsg L r idx sockfd iovecs nr_vecs addr addrlen is_poll_first tp"
| "run_op (Op_recvmsg sockfd iovecs nr_vecs is_poll_first) L r idx tp = uringio_recvmsg L r idx sockfd iovecs nr_vecs is_poll_first tp"
| "run_op (Op_recv_fixed sockfd buf len is_poll_first buf_index) L r idx tp = uringio_recv_fixed L r idx sockfd buf len is_poll_first buf_index tp"
| "run_op (Op_recvmsg_fixed sockfd iovecs nr_vecs is_poll_first buf_index) L r idx tp = uringio_recvmsg_fixed L r idx sockfd iovecs nr_vecs is_poll_first buf_index tp"
| "run_op (Op_recv_buffer_select sockfd len bgid is_poll_first) L r idx tp = uringio_recv_buffer_select L r idx sockfd len bgid is_poll_first tp"
| "run_op (Op_recvmsg_buffer_select sockfd is_poll_first bgid) L r idx tp = uringio_recvmsg_buffer_select L r idx sockfd is_poll_first bgid tp"
| "run_op (Op_accept_multishot sockfd addr len flags) L r idx tp = uringio_accept_multishot L r idx sockfd addr len flags tp"
| "run_op (Op_recv_multishot sockfd len bgid is_poll_first) L r idx tp = uringio_recv_multishot L r idx sockfd len bgid is_poll_first tp"
| "run_op (Op_recvmsg_multishot sockfd bgid is_poll_first msghdr) L r idx tp = uringio_recvmsg_multishot L r idx sockfd bgid is_poll_first msghdr tp"
| "run_op (Op_send_zc sockfd buf len is_poll_first) L r idx tp = uringio_send_zc L r idx sockfd buf len is_poll_first tp"
| "run_op (Op_send_zc_fixed sockfd buf len is_poll_first buf_index) L r idx tp = uringio_send_zc_fixed L r idx sockfd buf len is_poll_first buf_index tp"
| "run_op (Op_sendmsg_zc sockfd iovecs nr_vecs addr addrlen is_poll_first buf_index) L r idx tp = uringio_sendmsg_zc L r idx sockfd iovecs nr_vecs addr addrlen is_poll_first buf_index tp"
| "run_op (Op_prep_socket domain type) L r idx tp = prep_socket L r idx domain type tp"

text \<open>What the wrapper writes into the SQE.\<close>

fun op_fill :: "uring_op \<Rightarrow> liburing \<Rightarrow> sqe \<Rightarrow> sqe" where
  "op_fill (Op_open_file dfd path flags resolve mode) L s = (let flags1 = (if flags = - 1 then 66 else flags); how = \<lparr>how_flags = word_of_int flags1, how_mode = ucast mode, how_resolve = word_of_int resolve\<rparr>
     in io_uring_prep L (Prep_openat2 dfd path (LocalVar ''open_file'' how)) s)"
| "op_fill (Op_read fd buf sz offset) L s = (io_uring_prep L (Prep_read fd buf sz (word_of_int offset)) s)"
| "op_fill (Op_readv fd iovecs nr_vecs offset nowait) L s = (let flags = nowait_flags nowait
     in io_uring_prep L (Prep_readv2 fd iovecs nr_vecs (word_of_int offset) flags) s)"
| "op_fill (Op_write fd buf sz offset) L s = (io_uring_prep L (Prep_write fd buf sz (word_of_int offset)) s)"
| "op_fill (Op_writev fd iovecs nr_vecs offset flags) L s = (io_uring_prep L (Prep_writev2 fd iovecs nr_vecs (word_of_int offset) flags) s)"
| "op_fill (Op_close_file fd) L s = (io_uring_prep L (Prep_close fd) s)"
| "op_fill (Op_fsync fd) L s = (let fsync_flags = 0
     in io_uring_prep L (Prep_fsync fd fsync_flags) s)"
| "op_fill (Op_fdatasync fd) L s = (let fsync_flags = IORING_FSYNC_DATASYNC
     in io_uring_prep L (Prep_fsync fd fsync_flags) s)"
| "op_fill (Op_splice fd_in off_in fd_out off_out nbytes flag) L s = (io_uring_prep L (Prep_splice fd_in off_in fd_out off_out (word_of_int nbytes) (word_of_int flag)) s)"
| "op_fill (Op_read_fixed fd buf sz offset buf_index) L s = (io_uring_prep L (Prep_read_fixed fd buf sz (word_of_int offset) buf_index) s)"
| "op_fill (Op_write_fixed fd buf sz offset buf_index) L s = (io_uring_prep L (Prep_write_fixed fd buf sz (word_of_int offset) buf_index) s)"
| "op_fill (Op_read_buffer_select fd sz offset bgid) L s = (select_group bgid (io_uring_prep L (Prep_read fd Null sz (word_of_int offset)) s))"
| "op_fill (Op_readv_buffer_select fd sz offset bgid nowait) L s = (let iov = \<lparr>k_iov_base = Null, k_iov_len = ucast sz\<rparr>; flags = nowait_flags nowait
     in select_group bgid (io_uring_prep L (Prep_readv2 fd (LocalVar ''uringio_readv_buffer_select'' iov) 1
                  (word_of_int offset) flags) s))"
| "op_fill (Op_read_multishot fd offset bgid) L s = (io_uring_prep L (Prep_read_multishot fd 0 (word_of_int offset) bgid) s)"
| "op_fill (Op_bind fd addr addrlen) L s = (io_uring_prep L (Prep_bind fd addr addrlen) s)"
| "op_fill (Op_connect fd addr addrlen) L s = (io_uring_prep L (Prep_connect fd addr addrlen) s)"
| "op_fill (Op_listen fd backlog) L s = (io_uring_prep L (Prep_listen fd backlog) s)"
| "op_fill (Op_accept sockfd addr len flags) L s = (io_uring_prep L (Prep_accept sockfd addr len flags) s)"
| "op_fill (Op_close_socket sockfd) L s = (io_uring_prep L (Prep_close sockfd) s)"
| "op_fill (Op_send sockfd buf len is_poll_first) L s = (let flags = poll_first_flags is_poll_first
     in io_uring_prep L (Prep_send sockfd buf len flags) s)"
| "op_fill (Op_recv sockfd buf len is_poll_first) L s = (let flags = poll_first_flags is_poll_first
     in io_uring_prep L (Prep_recv sockfd buf len flags) s)"
| "op_fill (Op_sendto sockfd buf len addr addrlen is_poll_first) L s = (let flags = poll_first_flags is_poll_first
     in io_uring_prep L (Prep_sendto sockfd buf len flags addr (ucast addrlen)) s)"
| "op_fill (Op_recvfrom sockfd buf len addr addrlen is_poll_first msg) L s = (let iov = \<lparr>k_iov_base = buf, k_iov_len = len\<rparr>; hdr = \<lparr>msg_name = addr, msg_namelen = addrlen, msg_iov = HeapCell msg iov, msg_iovlen = 1,
                  msg_control = Null, msg_controllen = 0\<rparr>;
           flags = poll_first_flags is_poll_first
     in io_uring_prep L (Prep_recvmsg sockfd (HeapCell msg hdr) (word_of_int flags)) s)"
| "op_fill (Op_sendmsg sockfd iovecs nr_vecs addr addrlen is_poll_first) L s = (let msg = \<lparr>msg_name = addr, msg_namelen = ucast addrlen, msg_iov = iovecs, msg_iovlen = ucast nr_vecs,
                  msg_control = Null, msg_controllen = 0\<rparr>;
           flags = poll_first_flags is_poll_first
     in io_uring_prep L (Prep_sendmsg sockfd (LocalVar ''uringio_sendmsg'' msg) (word_of_int flags)) s)"
| "op_fill (Op_recvmsg sockfd iovecs nr_vecs is_poll_first) L s = (let msg = \<lparr>msg_name = Null, msg_namelen = 0, msg_iov = iovecs, msg_iovlen = ucast nr_vecs,
                  msg_control = Null, msg_controllen = 0\<rparr>;
           flags = poll_first_flags is_poll_first
     in io_uring_prep L (Prep_recvmsg sockfd (LocalVar ''uringio_recvmsg'' msg) (word_of_int flags)) s)"
| "op_fill (Op_recv_fixed sockfd buf len is_poll_first buf_index) L s = (let flags = poll_first_flags is_poll_first
     in use_fixed_buf buf_index (io_uring_prep L (Prep_recv sockfd buf len flags) s))"
| "op_fill (Op_recvmsg_fixed sockfd iovecs nr_vecs is_poll_first buf_index) L s = (let msg = \<lparr>msg_name = Null, msg_namelen = 0, msg_iov = iovecs, msg_iovlen = ucast nr_vecs,
                  msg_control = Null, msg_controllen = 0\<rparr>;
           flags = poll_first_flags is_poll_first
     in use_fixed_buf buf_index (io_uring_prep L (Prep_recvmsg sockfd (LocalVar ''uringio_recvmsg_fixed'' msg)
                  (word_of_int flags)) s))"
| "op_fill (Op_recv_buffer_select sockfd len bgid is_poll_first) L s = (let flags = poll_first_flags is_poll_first
     in select_group bgid (io_uring_prep L (Prep_recv sockfd Null len flags) s))"
| "op_fill (Op_recvmsg_buffer_select sockfd is_poll_first bgid) L s = (let msg = \<lparr>msg_name = Null, msg_namelen = 0, msg_iov = Null, msg_iovlen = 0,
                  msg_control = Null, msg_controllen = 0\<rparr>;
           flags = poll_first_flags is_poll_first
     in select_group bgid (io_uring_prep L (Prep_recvmsg sockfd (LocalVar ''uringio_recvmsg_buffer_select'' msg)
                  (word_of_int flags)) s))"
| "op_fill (Op_accept_multishot sockfd addr len flags) L s = (io_uring_prep L (Prep_multishot_accept sockfd addr len flags) s)"
| "op_fill (Op_recv_multishot sockfd len bgid is_poll_first) L s = (let flags = poll_first_flags is_poll_first
     in select_group bgid (io_uring_prep L (Prep_recv_multishot sockfd Null len flags) s))"
| "op_fill (Op_recvmsg_multishot sockfd bgid is_poll_first msghdr) L s = (let flags = poll_first_flags is_poll_first
     in select_group bgid (io_uring_prep L (Prep_recvmsg_multishot sockfd msghdr (word_of_int flags)) s))"
| "op_fill (Op_send_zc sockfd buf len is_poll_first) L s = (let flags = poll_first_flags is_poll_first
     in io_uring_prep L (Prep_send_zc sockfd buf len flags 0) s)"
| "op_fill (Op_send_zc_fixed sockfd buf len is_poll_first buf_index) L s = (let flags = poll_first_flags is_poll_first
     in io_uring_prep L (Prep_send_zc_fixed sockfd buf len flags 0 (word_of_int buf_index)) s)"
| "op_fill (Op_sendmsg_zc sockfd iovecs nr_vecs addr addrlen is_poll_first buf_index) L s = (let msg = \<lparr>msg_name = addr, msg_namelen = ucast addrlen, msg_iov = iovecs, msg_iovlen = ucast nr_vecs,
                  msg_control = Null, msg_controllen = 0\<rparr>;
           flags = poll_first_flags is_poll_first
     in use_fixed_buf buf_index (io_uring_prep L (Prep_sendmsg_zc sockfd (LocalVar ''uringio_sendmsg_zc'' msg) (word_of_int flags)) s))"
| "op_fill (Op_prep_socket domain type) L s = (io_uring_prep L (Prep_socket domain type 0 0) s)"

lemma submit_op_cong:
  assumes "submit_op op f" and "\<And>L r idx tp. op' L r idx tp = op L r idx tp" and "\<And>L s. f' L s = f L s"
  shows "submit_op op' f'"
proof -
  have "op' = op" "f' = f" using assms(2,3) by (auto intro!: ext)
  with assms(1) show ?thesis by simp
qed

lemmas wrapper_contracts =
  open_file_op.submit_op_axioms read_op.submit_op_axioms readv_op.submit_op_axioms write_op.submit_op_axioms
  writev_op.submit_op_axioms close_file_op.submit_op_axioms fsync_op.submit_op_axioms fdatasync_op.submit_op_axioms
  splice_op.submit_op_axioms read_fixed_op.submit_op_axioms write_fixed_op.submit_op_axioms
  read_buffer_select_op.submit_op_axioms readv_buffer_select_op.submit_op_axioms read_multishot_op.submit_op_axioms
  bind_op.submit_op_axioms connect_op.submit_op_axioms listen_op.submit_op_axioms accept_op.submit_op_axioms
  close_socket_op.submit_op_axioms send_op.submit_op_axioms recv_op.submit_op_axioms sendto_op.submit_op_axioms
  recvfrom_op.submit_op_axioms sendmsg_op.submit_op_axioms recvmsg_op.submit_op_axioms recv_fixed_op.submit_op_axioms
  recvmsg_fixed_op.submit_op_axioms recv_buffer_select_op.submit_op_axioms recvmsg_buffer_select_op.submit_op_axioms
  accept_multishot_op.submit_op_axioms recv_multishot_op.submit_op_axioms recvmsg_multishot_op.submit_op_axioms
  send_zc_op.submit_op_axioms send_zc_fixed_op.submit_op_axioms sendmsg_zc_op.submit_op_axioms
  prep_socket_op.submit_op_axioms

lemma run_op_contract: "submit_op (run_op w) (op_fill w)"
  by (cases w; simp only:; rule submit_op_cong, rule wrapper_contracts,
      (simp only: run_op.simps; fail), (simp only: op_fill.simps; fail))

interpretation every_op: submit_op "run_op w" "op_fill w" for w
  by (rule run_op_contract)

section \<open>Properties\<close>

text \<open>
  C7. Every submission wrapper returns -2, -1, 0 or 1. A result that is not positive means that the kernel has
  consumed nothing. A result that is not negative means that the queue was extended by exactly the SQE of
  the operation, filled in as the wrapper says and carrying the index of the request, followed by
  the SQE of the linked timeout when one was asked for and there was room. In every case what was queued
  before is untouched and at most two SQEs were added.
\<close>

theorem every_op_contract:
  assumes "liburing_ok L" and "run_op w L r idx tp = (t, r')"
  shows "t \<in> {- 2, - 1, 0, 1} \<and>
    (t \<le> 0 \<longrightarrow> r_submitted r' = r_submitted r) \<and>
    (0 \<le> t \<longrightarrow> (\<exists>s0 rest. sqe_flags s0 = link_flag tp \<and> sqe_ioprio s0 = 0 \<and> timeout_tail tp rest \<and>
        issued r' = issued r @ (op_fill w L s0)\<lparr>sqe_user_data := idx_to_data idx\<rparr> # rest)) \<and>
    (\<exists>new. issued r' = issued r @ new \<and> length new \<le> 2)"
  using every_op.op_range [OF assms] every_op.op_refused [OF assms] every_op.op_queued [OF assms]
    every_op.op_keeps_queue [OF assms] by blast

theorem every_op_contract_witness:
  "let (t, r') = run_op (Op_read 5 (Addr 3) 1024 0) (lib_model 256 False) empty_ring 7
      \<lparr>to_sec = 1, to_nsec = 0, to_is_required = True\<rparr>
   in t \<in> {- 2, - 1, 0, 1} \<and> (\<exists>new. issued r' = issued empty_ring @ new \<and> length new \<le> 2)"
  using every_op_contract [OF lib_model_ok prod.collapse [symmetric], of "Op_read 5 (Addr 3) 1024 0" 256 False
      empty_ring 7 "\<lparr>to_sec = 1, to_nsec = 0, to_is_required = True\<rparr>"]
  unfolding case_prod_beta Let_def by blast



text \<open>
  C23. A timeout that is required is never dropped: when the operation is accepted, the SQE right after its own
  is the linked timeout with the seconds and nanoseconds asked for; and without a timeout the operation
  adds its own SQE only, with no link flag set before it is filled in.
\<close>

theorem every_op_timeout:
  assumes "liburing_ok L" and "run_op w L r idx tp = (t, r')" and "0 \<le> t"
  shows "(to_is_required tp \<longrightarrow> (\<exists>own link. issued r' = issued r @ [own, link] \<and> is_link_timeout tp link)) \<and>
    (to_sec tp = 0 \<and> to_nsec tp = 0 \<and> \<not> to_is_required tp \<longrightarrow>
       (\<exists>s0. sqe_flags s0 = 0 \<and> issued r' = issued r @ [(op_fill w L s0)\<lparr>sqe_user_data := idx_to_data idx\<rparr>]))"
  using every_op.op_required_timeout [OF assms] every_op.op_no_timeout [OF assms]
  by (auto simp: no_timeout_def)

theorem every_op_timeout_witness:
  "\<exists>own link. issued (snd (run_op (Op_fsync 5) (lib_model 256 False) empty_ring 7
      \<lparr>to_sec = 0, to_nsec = 0, to_is_required = True\<rparr>)) = [own, link] \<and>
     is_link_timeout \<lparr>to_sec = 0, to_nsec = 0, to_is_required = True\<rparr> link"
proof -
  let ?tp = "\<lparr>to_sec = 0, to_nsec = 0, to_is_required = True\<rparr>"
  have t: "0 \<le> fst (run_op (Op_fsync 5) (lib_model 256 False) empty_ring 7 ?tp)"
    by (simp add: uringio_fsync_def SQE_WITH_OPTIONAL_TIMEOUT_def create_sqe_def timeout_def no_timeout_def
        set_data_and_submit_def empty_ring_def Let_def with_sqe_def)
  show ?thesis
    using every_op_timeout [OF lib_model_ok prod.collapse [symmetric], of "Op_fsync 5" 256 False empty_ring 7 ?tp] t
    by (simp del: run_op.simps)
qed

text \<open>
  C36. An operation whose submission failed is not withdrawn from the queue: its SQE, with the index of the
  request, stays there and goes to the kernel with the next submission, although the caller has given the index
  back by then.
\<close>

theorem failed_submission_stays_queued:
  assumes "liburing_ok L" and "run_op w L r idx tp = (0, r')"
  shows "\<exists>own rest. r_pending r' = r_pending r @ own # rest \<and> sqe_user_data own = idx_to_data idx"
proof -
  have "r_submitted r' = r_submitted r" by (rule every_op.op_refused [OF assms]) simp
  moreover obtain s0 rest where
    "issued r' = issued r @ (op_fill w L s0)\<lparr>sqe_user_data := idx_to_data idx\<rparr> # rest"
    using every_op.op_queued [OF assms] by auto
  ultimately show ?thesis by (auto simp: issued_def)
qed

theorem failed_submission_stays_queued_witness:
  "\<exists>own rest. r_pending (snd (run_op (Op_close_file 5) (lib_model 256 True) empty_ring 7
       \<lparr>to_sec = 0, to_nsec = 0, to_is_required = False\<rparr>)) = own # rest \<and> sqe_user_data own = idx_to_data 7"
proof -
  let ?tp = "\<lparr>to_sec = 0, to_nsec = 0, to_is_required = False\<rparr>"
  obtain r' where "run_op (Op_close_file 5) (lib_model 256 True) empty_ring 7 ?tp = (0, r')"
    by (simp add: uringio_close_file_def SQE_WITH_OPTIONAL_TIMEOUT_def create_sqe_def timeout_def no_timeout_def
        set_data_and_submit_def empty_ring_def Let_def)
  from failed_submission_stays_queued [OF lib_model_ok this] this show ?thesis
    by (simp add: empty_ring_def)
qed

definition lib_stale :: "u64 \<Rightarrow> liburing" where
  "lib_stale d = (lib_model 256 False)\<lparr>io_uring_get_sqe := (\<lambda>r.
     (Some (length (r_pending r)), r\<lparr>r_pending := r_pending r @ [blank_sqe\<lparr>sqe_user_data := d\<rparr>]\<rparr>))\<rparr>"

lemma lib_stale_fields [simp]:
  "io_uring_get_sqe (lib_stale d) r =
     (Some (length (r_pending r)), r\<lparr>r_pending := r_pending r @ [blank_sqe\<lparr>sqe_user_data := d\<rparr>]\<rparr>)"
  "io_uring_prep (lib_stale d) c s = s\<lparr>sqe_prep := Some c\<rparr>"
  "io_uring_submit (lib_stale d) r = (int (length (r_pending r)),
     r\<lparr>r_submitted := r_submitted r @ r_pending r, r_pending := []\<rparr>)"
  by (simp_all add: lib_stale_def)

lemma lib_stale_ok [simp]: "liburing_ok (lib_stale d)"
  unfolding liburing_ok_def get_sqe_ok_def prep_ok_def set_data_ok_def submit_ok_def
  by (auto simp: lib_stale_def blank_sqe_def)

text \<open>
  The user data of a linked timeout is never set: whatever 64-bit value the entry of the queue held
  from its last use is what the completion of the timeout carries, so it can be the index of another
  request in flight.
\<close>

lemma link_timeout_user_data_unset:
  "\<exists>L own link. liburing_ok L \<and>
     issued (snd (uringio_read L empty_ring idx fd buf sz off \<lparr>to_sec = 1, to_nsec = 0, to_is_required = True\<rparr>)) =
       [own, link] \<and> sqe_user_data own = idx_to_data idx \<and> sqe_user_data link = d"
  by (rule exI [of _ "lib_stale d"])
    (simp add: uringio_read_def SQE_WITH_OPTIONAL_TIMEOUT_def create_sqe_def timeout_def
      no_timeout_def set_data_and_submit_def empty_ring_def Let_def with_sqe_def issued_def
      blank_sqe_def)

text \<open>
  A socket with a domain other than IPv4 and IPv6 is refused after its SQE was acquired: the
  refusal returns -2 and leaves an SQE that was never filled in at the end of the queue.
\<close>

lemma prep_socket_refusal_leaves_sqe:
  assumes "liburing_ok L" and "prep_socket L r idx domain type tp = (- 2, r')"
  shows "r_submitted r' = r_submitted r \<and>
    (\<exists>s0 rest. r_pending r' = r_pending r @ s0 # rest \<and> sqe_flags s0 = link_flag tp)"
proof -
  have dom: "\<not> (domain = AF_INET \<or> domain = AF_INET6)"
  proof
    assume "domain = AF_INET \<or> domain = AF_INET6"
    then have w: "wrapper (\<lambda>L s. io_uring_prep L (Prep_socket domain type 0 0) s) L r idx tp = (- 2, r')"
      using assms(2) by (simp add: prep_socket_def wrapper_def Let_def)
    from macro_effect [OF assms(1) w [unfolded wrapper_def]] show False
      by (auto simp: set_data_and_submit_def Let_def case_prod_beta split: if_splits)
  qed
  from macro_effect [OF assms(1) assms(2) [unfolded prep_socket_def]] dom show ?thesis by auto
qed

end
