(* ===== verification/World.thy ===== *)
theory World
  imports Registry Uring_Ops
begin

text \<open>
  The state the Python-facing functions of uringio work on: the loop with its ring and its
  registry, the heap, the contents of the payloads, of the pools of fixed-buffer indices and of the
  buffers, the futures, the file and socket objects, the current execution context, and the error
  indicator of the interpreter. A function of the C API that returns a pointer returns an option,
  \<open>None\<close> for \<^verbatim>\<open>NULL\<close>; \<open>w_err\<close> is the exception that is set. \<open>w_aborted\<close> records that \<^verbatim>\<open>abort()\<close> was
  reached.

  The functions of this theory are those the handlers share: the guards of
  \<^verbatim>\<open>src/python_api/python_macroses.h\<close>, \<^verbatim>\<open>create_future\<close>, and the steps of registering and
  withdrawing a request.
\<close>

datatype pyexc =
    RuntimeError string | TypeError string | ValueError string | BrokenPipeError string
  | ConnectionRefusedError string | RuntimeWarning string | MemoryError | OverflowError | OSError int | ExceptionGroup pyexc pyexc | CalleeError

datatype pyval = PyBytes "u8 list" | PyLong int | PyObj nat | PyNone

datatype future = Pending | Cancelled | Result pyval | Exception pyexc

record UringioFile =
  uf_fd :: int
  uf_closed :: bool

record UringioSocket =
  us_sock_fd :: int
  us_domain :: int
  us_addr :: "nat option"
  us_closed :: bool

record ExecutionContext =
  ec_buffer_mode :: BufferMode
  ec_stream :: StreamStrategy
  ec_transfer_mode :: TransferMode
  ec_buffer_payload :: "nat option"

record world =
  w_ring :: io_uring
  w_reg :: RequestRegistry
  w_heap :: heap
  w_pay :: "nat \<Rightarrow> BufferPayload"
  w_pool :: "nat \<Rightarrow> FixedBufferIdxRegistry"
  w_mem :: "nat \<Rightarrow> u8 list"
  w_fut :: "nat \<Rightarrow> future"
  w_files :: "nat \<Rightarrow> UringioFile"
  w_socks :: "nat \<Rightarrow> UringioSocket"
  w_context :: "ExecutionContext option"
  w_err :: "pyexc option"
  w_loop_tid :: int
  w_tid :: int
  w_wakeup_fd :: int
  w_wakeup_buf :: nat
  w_closed :: bool
  w_aborted :: bool
  w_junk :: junk

text \<open>A loop that was just started, with a registry of three slots.\<close>

definition init_world :: world where
  "init_world =
     \<lparr>w_ring = empty_ring, w_reg = reg3, w_heap = init_heap, w_pay = (\<lambda>_. zero_payload), w_pool = (\<lambda>_. pool2),
      w_mem = (\<lambda>_. []), w_fut = (\<lambda>_. Pending), w_files = (\<lambda>_. \<lparr>uf_fd = 5, uf_closed = False\<rparr>),
      w_socks = (\<lambda>_. \<lparr>us_sock_fd = 6, us_domain = AF_INET, us_addr = None, us_closed = False\<rparr>),
      w_context = Some \<lparr>ec_buffer_mode = NORMAL_BUF, ec_stream = ONESHOT, ec_transfer_mode = NORMAL_TRANSFER,
                        ec_buffer_payload = None\<rparr>,
      w_err = None, w_loop_tid = 1, w_tid = 1, w_wakeup_fd = 4, w_wakeup_buf = 0, w_closed = False, w_aborted = False,
      w_junk = \<lparr>j_payload = zero_payload, j_views = None\<rparr>\<rparr>"

section \<open>Errors and faults\<close>

definition set_err :: "pyexc \<Rightarrow> world \<Rightarrow> world" where
  "set_err e w = w\<lparr>w_err := Some e\<rparr>"

definition fault_at :: "fault \<Rightarrow> world \<Rightarrow> world" where
  "fault_at f w = w\<lparr>w_heap := add_fault f (w_heap w)\<rparr>"

definition on_heap :: "(heap \<Rightarrow> heap) \<Rightarrow> world \<Rightarrow> world" where
  "on_heap f w = w\<lparr>w_heap := f (w_heap w)\<rparr>"

section \<open>Guards\<close>

text \<open>\<^verbatim>\<open>ASSERT_LOOP_THREAD\<close> and \<^verbatim>\<open>ASSERT_RING_LOOP_IS_CLOSING\<close>: the exception they raise, if any.\<close>

definition ASSERT_LOOP_THREAD :: "world \<Rightarrow> pyexc option" where
  "ASSERT_LOOP_THREAD w =
     (if w_loop_tid w \<noteq> w_tid w then Some (RuntimeError ''io_uring operation called from wrong thread'')
      else None)"

definition ASSERT_RING_LOOP_IS_CLOSING :: "world \<Rightarrow> pyexc option" where
  "ASSERT_RING_LOOP_IS_CLOSING w =
     (if w_closed w then Some (RuntimeError ''Ring Event Loop is closing'') else None)"

definition loop_guard :: "world \<Rightarrow> pyexc option" where
  "loop_guard w =
     (case ASSERT_LOOP_THREAD w of Some e \<Rightarrow> Some e | None \<Rightarrow> ASSERT_RING_LOOP_IS_CLOSING w)"

section \<open>Objects\<close>

text \<open>A new Python object with one reference, or an exception.\<close>

definition py_new :: "pyexc \<Rightarrow> world \<Rightarrow> nat option \<times> world" where
  "py_new e w =
     (let h = w_heap w; n = h_next h
      in if h_oom h n then (None, set_err e (w\<lparr>w_heap := h\<lparr>h_next := Suc n\<rparr>\<rparr>))
         else (Some n, w\<lparr>w_heap := h\<lparr>h_next := Suc n, h_ref := (h_ref h)(n := 1)\<rparr>\<rparr>))"

definition create_future :: "world \<Rightarrow> nat option \<times> world" where
  "create_future w =
     (case py_new CalleeError w of
        (None, w1) \<Rightarrow> (None, w1)
      | (Some f, w1) \<Rightarrow> (Some f, w1\<lparr>w_fut := (w_fut w1)(f := Pending)\<rparr>))"

text \<open>\<^verbatim>\<open>_get_buffer\<close>, \<^verbatim>\<open>get_stream_strategy\<close> and \<^verbatim>\<open>get_transfer_mode\<close> dereference the current context.\<close>

definition get_buffer_ctx :: "world \<Rightarrow> (nat \<times> BufferPayload) option \<times> world" where
  "get_buffer_ctx w =
     (case w_context w of
        None \<Rightarrow> (None, fault_at NullDeref w)
      | Some c \<Rightarrow> (map_option (\<lambda>a. (a, w_pay w a)) (ec_buffer_payload c), w))"

definition get_stream_strategy :: "world \<Rightarrow> StreamStrategy \<times> world" where
  "get_stream_strategy w =
     (case w_context w of None \<Rightarrow> (ONESHOT, fault_at NullDeref w) | Some c \<Rightarrow> (ec_stream c, w))"

definition get_transfer_mode :: "world \<Rightarrow> TransferMode \<times> world" where
  "get_transfer_mode w =
     (case w_context w of
        None \<Rightarrow> (NORMAL_TRANSFER, fault_at NullDeref w) | Some c \<Rightarrow> (ec_transfer_mode c, w))"

section \<open>Opcodes\<close>

definition IORING_OP_READV :: int where "IORING_OP_READV = 1"
definition IORING_OP_WRITEV :: int where "IORING_OP_WRITEV = 2"
definition IORING_OP_FSYNC :: int where "IORING_OP_FSYNC = 3"
definition IORING_OP_SENDMSG :: int where "IORING_OP_SENDMSG = 9"
definition IORING_OP_RECVMSG :: int where "IORING_OP_RECVMSG = 10"
definition IORING_OP_TIMEOUT :: int where "IORING_OP_TIMEOUT = 11"
definition IORING_OP_ACCEPT :: int where "IORING_OP_ACCEPT = 13"
definition IORING_OP_CONNECT :: int where "IORING_OP_CONNECT = 16"
definition IORING_OP_CLOSE :: int where "IORING_OP_CLOSE = 19"
definition IORING_OP_READ :: int where "IORING_OP_READ = 22"
definition IORING_OP_WRITE :: int where "IORING_OP_WRITE = 23"
definition IORING_OP_SEND :: int where "IORING_OP_SEND = 26"
definition IORING_OP_RECV :: int where "IORING_OP_RECV = 27"
definition IORING_OP_OPENAT2 :: int where "IORING_OP_OPENAT2 = 28"
definition IORING_OP_SPLICE :: int where "IORING_OP_SPLICE = 30"
definition IORING_OP_SOCKET :: int where "IORING_OP_SOCKET = 45"
definition IORING_OP_BIND :: int where "IORING_OP_BIND = 56"
definition IORING_OP_LISTEN :: int where "IORING_OP_LISTEN = 57"

lemmas opcode_defs = IORING_OP_READV_def IORING_OP_WRITEV_def IORING_OP_FSYNC_def IORING_OP_SENDMSG_def
  IORING_OP_RECVMSG_def IORING_OP_TIMEOUT_def IORING_OP_ACCEPT_def IORING_OP_CONNECT_def IORING_OP_CLOSE_def
  IORING_OP_READ_def IORING_OP_WRITE_def IORING_OP_SEND_def IORING_OP_RECV_def IORING_OP_OPENAT2_def
  IORING_OP_SPLICE_def IORING_OP_SOCKET_def IORING_OP_BIND_def IORING_OP_LISTEN_def

section \<open>Requests\<close>

definition register_request ::
  "nat \<Rightarrow> nat option \<Rightarrow> StreamStrategy \<Rightarrow> int \<Rightarrow> nat option \<Rightarrow> nat option \<Rightarrow> nat option \<Rightarrow> nat option
     \<Rightarrow> world \<Rightarrow> int \<times> world" where
  "register_request fu bp st oc fi so ad ms w =
     (let (i, reg, h) = registry_add (w_reg w) fu bp st oc fi so ad ms (w_heap w)
      in (i, w\<lparr>w_reg := reg, w_heap := h\<rparr>))"

definition remove_request :: "int \<Rightarrow> world \<Rightarrow> world" where
  "remove_request i w =
     (case registry_remove (w_pay w) (w_reg w) i (w_heap w) of
        None \<Rightarrow> w\<lparr>w_aborted := True\<rparr>
      | Some (reg, h) \<Rightarrow> w\<lparr>w_reg := reg, w_heap := h\<rparr>)"

definition free_payload_at :: "nat option \<Rightarrow> bool \<Rightarrow> world \<Rightarrow> world" where
  "free_payload_at pa force w = on_heap (free_buffer_payload (payload_at (w_pay w) pa) force) w"

text \<open>
  A constructor of payloads: what it returns is the contents of the new block. \<open>e\<close> is the exception the
  constructor leaves set when it fails; \<open>None\<close> where it leaves none. \<^verbatim>\<open>CalleeError\<close> stands for the exception of
  whatever call failed inside. The functions that create a payload unless the context has one raise nothing
  when the first allocation fails, and \<^verbatim>\<open>get_or_create_linear_buffer\<close> returns a payload even when filling it
  has failed and raised.
\<close>

definition raise_opt :: "pyexc option \<Rightarrow> world \<Rightarrow> world" where
  "raise_opt e w = (case e of None \<Rightarrow> w | Some x \<Rightarrow> set_err x w)"

definition make_payload ::
  "pyexc option \<Rightarrow> (heap \<Rightarrow> (nat \<times> BufferPayload) option \<times> heap) \<Rightarrow> world \<Rightarrow> nat option \<times> world" where
  "make_payload e mk w =
     (case mk (w_heap w) of
        (None, h) \<Rightarrow> (None, raise_opt e (w\<lparr>w_heap := h\<rparr>))
      | (Some (a, p), h) \<Rightarrow> (Some a, w\<lparr>w_heap := h, w_pay := (w_pay w)(a := p)\<rparr>))"

definition payload_from_data :: "pyitem \<Rightarrow> world \<Rightarrow> nat option \<times> world" where
  "payload_from_data data = make_payload (Some CalleeError) (create_buffer_payload_from_data data)"

definition payload_from_pybuffer :: "nat \<Rightarrow> iovec list \<Rightarrow> world \<Rightarrow> nat option \<times> world" where
  "payload_from_pybuffer v iovs = make_payload (Some MemoryError) (create_buffer_payload_from_pybuffer v iovs)"

definition vectored_payload :: "pyseq option \<Rightarrow> world \<Rightarrow> nat option \<times> world" where
  "vectored_payload buffers_obj w =
     (let (ctx, w1) = get_buffer_ctx w;
          e = (if fst (c_malloc 56 (w_heap w1)) = None then None else Some CalleeError)
      in make_payload e (get_or_create_vectored_buffer ctx buffers_obj) w1)"

definition linear_fill_fails :: "junk \<Rightarrow> (nat \<times> BufferPayload) option \<Rightarrow> pyseq option \<Rightarrow> int \<Rightarrow> heap \<Rightarrow> bool" where
  "linear_fill_fails J ctx buffers_obj bufsize h \<longleftrightarrow>
     \<not> (buffers_obj = None \<and> (\<exists>q \<in> set_option ctx. payload_type (snd q) = PAYLOAD_LINEAR \<and> bp_linear (snd q) \<noteq> None)) \<and>
     (case c_malloc 56 h of
        (None, _) \<Rightarrow> False
      | (Some _, h1) \<Rightarrow>
          (case buffers_obj of
             Some ob \<Rightarrow> fst (serialize_linear_buffers ob 1 (j_payload J) h1) = None
           | None \<Rightarrow> fst (create_linear_buffers 1 bufsize (j_payload J) h1) = None))"

definition linear_payload :: "pyseq option \<Rightarrow> int \<Rightarrow> world \<Rightarrow> nat option \<times> world" where
  "linear_payload buffers_obj bufsize w =
     (let (ctx, w1) = get_buffer_ctx w;
          failed = linear_fill_fails (w_junk w1) ctx buffers_obj bufsize (w_heap w1);
          (q, w2) = make_payload None (get_or_create_linear_buffer (w_junk w1) ctx buffers_obj bufsize) w1
      in (q, if failed then set_err CalleeError w2 else w2))"

definition ring_op :: "(io_uring \<Rightarrow> int \<times> io_uring) \<Rightarrow> world \<Rightarrow> int \<times> world" where
  "ring_op f w = (let (t, r) = f (w_ring w) in (t, w\<lparr>w_ring := r\<rparr>))"

section \<open>Frames\<close>

lemma set_err_simps [simp]:
  "w_ring (set_err e w) = w_ring w" "w_reg (set_err e w) = w_reg w" "w_heap (set_err e w) = w_heap w"
  "w_pay (set_err e w) = w_pay w" "w_pool (set_err e w) = w_pool w" "w_fut (set_err e w) = w_fut w"
  "w_files (set_err e w) = w_files w" "w_socks (set_err e w) = w_socks w" "w_err (set_err e w) = Some e"
  "w_aborted (set_err e w) = w_aborted w" "w_context (set_err e w) = w_context w"
  "w_closed (set_err e w) = w_closed w" "w_tid (set_err e w) = w_tid w"
  "w_loop_tid (set_err e w) = w_loop_tid w" "w_mem (set_err e w) = w_mem w"
  by (simp_all add: set_err_def)

lemma fault_at_simps [simp]:
  "w_ring (fault_at f w) = w_ring w" "w_reg (fault_at f w) = w_reg w" "w_fut (fault_at f w) = w_fut w"
  "w_pay (fault_at f w) = w_pay w" "w_pool (fault_at f w) = w_pool w" "w_err (fault_at f w) = w_err w"
  "w_files (fault_at f w) = w_files w" "w_socks (fault_at f w) = w_socks w"
  "w_aborted (fault_at f w) = w_aborted w" "w_heap (fault_at f w) = add_fault f (w_heap w)"
  "w_context (fault_at f w) = w_context w"
  by (simp_all add: fault_at_def)

lemma on_heap_simps [simp]:
  "w_ring (on_heap f w) = w_ring w" "w_reg (on_heap f w) = w_reg w" "w_fut (on_heap f w) = w_fut w"
  "w_pay (on_heap f w) = w_pay w" "w_pool (on_heap f w) = w_pool w" "w_err (on_heap f w) = w_err w"
  "w_files (on_heap f w) = w_files w" "w_socks (on_heap f w) = w_socks w"
  "w_aborted (on_heap f w) = w_aborted w" "w_heap (on_heap f w) = f (w_heap w)"
  "w_context (on_heap f w) = w_context w" "w_mem (on_heap f w) = w_mem w"
  by (simp_all add: on_heap_def)

lemma free_payload_at_simps [simp]:
  "w_ring (free_payload_at pa b w) = w_ring w" "w_reg (free_payload_at pa b w) = w_reg w"
  "w_fut (free_payload_at pa b w) = w_fut w" "w_err (free_payload_at pa b w) = w_err w"
  "w_aborted (free_payload_at pa b w) = w_aborted w" "w_files (free_payload_at pa b w) = w_files w"
  "w_pay (free_payload_at pa b w) = w_pay w" "w_pool (free_payload_at pa b w) = w_pool w"
  "w_socks (free_payload_at pa b w) = w_socks w" "w_mem (free_payload_at pa b w) = w_mem w"
  by (simp_all add: free_payload_at_def)

lemma make_payload_simps:
  assumes "make_payload e mk w = (q, w')"
  shows "w_ring w' = w_ring w" and "w_reg w' = w_reg w" and "w_pool w' = w_pool w" and "w_fut w' = w_fut w"
    and "w_files w' = w_files w" and "w_socks w' = w_socks w" and "w_aborted w' = w_aborted w"
    and "w_context w' = w_context w"
    and "w_err w' = (if q = None \<and> e \<noteq> None then e else w_err w)"
  using assms by (auto simp: make_payload_def raise_opt_def split: prod.splits option.splits)

lemma ring_op_simps [simp]:
  "w_reg (snd (ring_op f w)) = w_reg w" "w_heap (snd (ring_op f w)) = w_heap w"
  "w_fut (snd (ring_op f w)) = w_fut w" "w_err (snd (ring_op f w)) = w_err w"
  "w_pay (snd (ring_op f w)) = w_pay w" "w_pool (snd (ring_op f w)) = w_pool w"
  "w_files (snd (ring_op f w)) = w_files w" "w_socks (snd (ring_op f w)) = w_socks w"
  "w_aborted (snd (ring_op f w)) = w_aborted w"
  "w_ring (snd (ring_op f w)) = snd (f (w_ring w))" "fst (ring_op f w) = fst (f (w_ring w))"
  by (simp_all add: ring_op_def case_prod_beta)

lemma create_future_simps:
  assumes "create_future w = (q, w')"
  shows "w_ring w' = w_ring w" and "w_reg w' = w_reg w" and "w_pay w' = w_pay w" and "w_pool w' = w_pool w"
    and "w_files w' = w_files w" and "w_socks w' = w_socks w" and "w_aborted w' = w_aborted w"
    and "w_context w' = w_context w" and "q = None \<Longrightarrow> w_err w' = Some CalleeError \<and> w_fut w' = w_fut w"
    and "q = Some f \<Longrightarrow> f = h_next (w_heap w) \<and> w_fut w' = (w_fut w)(f := Pending) \<and> w_err w' = w_err w \<and>
           w_heap w' = (w_heap w)\<lparr>h_next := Suc f, h_ref := (h_ref (w_heap w))(f := 1)\<rparr>"
  using assms by (auto simp: create_future_def py_new_def Let_def split: if_splits)

end
