(* ===== verification/Requests.thy ===== *)
theory Requests
  imports World
begin

text \<open>
  The life of a request on the side of the handlers. Every method of a file, of a socket and of the
  loop that starts an operation ends in the same steps: the request is registered, the operation is
  submitted with the index as user data, and when the submission failed the request is withdrawn.
  \<open>submit_request\<close> is these steps; \<open>starts_request\<close> is what a caller may conclude from the result of a
  method; the locale says what the steps need to know of the operation.
\<close>

text \<open>
  The result of a submission that a handler has to look at: on failure the error is set, the handler's reference
  to the future is dropped and the request is withdrawn. \<open>undo\<close> drops what the handler made for the request
  before (the file object of \<^verbatim>\<open>open\<close>, the socket object of \<^verbatim>\<open>socket\<close>).
\<close>

definition submission_failed :: "int \<Rightarrow> pyexc option \<Rightarrow> (world \<Rightarrow> world) \<Rightarrow> nat \<Rightarrow> int \<Rightarrow> world \<Rightarrow> nat option \<times> world" where
  "submission_failed result e2 undo fu request_idx w =
     (let w1 = (if result = - 1 then set_err (RuntimeError ''SQE is not awailable'') w
                else if result = - 2 then raise_opt e2 w
                else if result = 0 then set_err (RuntimeError ''SQE submission failed'') w
                else w)
      in (None, remove_request request_idx (on_heap (py_decref fu) (undo w1))))"

text \<open>
  \<open>cleanup\<close> is what the handler releases when the registry is full, besides the future.
\<close>

definition submit_request ::
  "pyexc option \<Rightarrow> (world \<Rightarrow> world) \<Rightarrow> (world \<Rightarrow> world) \<Rightarrow> nat \<Rightarrow> nat option \<Rightarrow> StreamStrategy \<Rightarrow> int \<Rightarrow> nat option \<Rightarrow> nat option
     \<Rightarrow> nat option \<Rightarrow> nat option \<Rightarrow> (int \<Rightarrow> world \<Rightarrow> int \<times> world) \<Rightarrow> world \<Rightarrow> nat option \<times> world" where
  "submit_request e2 undo cleanup fu bp st oc fi so ad ms op w =
     (let (request_idx, w1) = register_request fu bp st oc fi so ad ms w
      in if request_idx < 0
         then (None, set_err (RuntimeError ''Registry is full'') (cleanup (on_heap (py_decref fu) (undo w1))))
         else
           (let (result, w2) = op request_idx w1
            in if result < 1 then submission_failed result e2 undo fu request_idx w2 else (Some fu, w2)))"

section \<open>What the result of a method means\<close>

definition same_core :: "world \<Rightarrow> world \<Rightarrow> bool" where
  "same_core w w' \<longleftrightarrow> w_reg w' = w_reg w \<and> w_ring w' = w_ring w \<and> w_aborted w' = w_aborted w"

definition starts_request :: "world \<Rightarrow> int \<Rightarrow> nat option \<Rightarrow> world \<Rightarrow> bool" where
  "starts_request w oc q w' \<longleftrightarrow>
     reg_inv (w_reg w') \<and> w_aborted w' = w_aborted w \<and>
     (case q of
        None \<Rightarrow> reg_abs (w_reg w') = reg_abs (w_reg w) \<and> reg_free (w_reg w') = reg_free (w_reg w) \<and>
                r_submitted (w_ring w') = r_submitted (w_ring w)
      | Some fu \<Rightarrow>
          (\<exists>i s own rest. reg_abs (w_reg w) i = None \<and> reg_abs (w_reg w') = (reg_abs (w_reg w))(i \<mapsto> s) \<and>
             sl_future s = Some fu \<and> sl_opcode s = oc \<and>
             issued (w_ring w') = issued (w_ring w) @ own # rest \<and> data_to_idx (sqe_user_data own) = i))"

lemma same_core_refl [simp]: "same_core w w"
  by (simp add: same_core_def)

lemma same_core_trans: "same_core w w1 \<Longrightarrow> same_core w1 w2 \<Longrightarrow> same_core w w2"
  by (simp add: same_core_def)

lemma same_core_steps [simp]:
  "same_core w (set_err e w)" "same_core w (fault_at f w)" "same_core w (on_heap g w)"
  "same_core w (free_payload_at pa b w)" "same_core w (raise_opt eo w)"
  by (auto simp: same_core_def raise_opt_def split: option.splits)

lemma same_core_create_future: "create_future w = (q, w') \<Longrightarrow> same_core w w'"
  by (simp add: same_core_def create_future_simps)

lemma same_core_make_payload: "make_payload e mk w = (q, w') \<Longrightarrow> same_core w w'"
  by (simp add: same_core_def make_payload_simps)

lemma same_core_get_buffer_ctx: "get_buffer_ctx w = (q, w') \<Longrightarrow> same_core w w'"
  by (auto simp: get_buffer_ctx_def split: option.splits)

lemma same_core_stream: "get_stream_strategy w = (q, w') \<Longrightarrow> same_core w w'"
  by (auto simp: get_stream_strategy_def split: option.splits)

lemma same_core_transfer: "get_transfer_mode w = (q, w') \<Longrightarrow> same_core w w'"
  by (auto simp: get_transfer_mode_def split: option.splits)

lemma same_core_payloads:
  "payload_from_data d w = (q, w') \<Longrightarrow> same_core w w'"
  "payload_from_pybuffer v iovs w = (q, w') \<Longrightarrow> same_core w w'"
  "vectored_payload b w = (q, w') \<Longrightarrow> same_core w w'"
  "linear_payload b n w = (q, w') \<Longrightarrow> same_core w w'"
proof -
  show "payload_from_data d w = (q, w') \<Longrightarrow> same_core w w'"
    "payload_from_pybuffer v iovs w = (q, w') \<Longrightarrow> same_core w w'"
    by (simp_all add: payload_from_data_def payload_from_pybuffer_def same_core_make_payload)
  obtain ctx w1 where c: "get_buffer_ctx w = (ctx, w1)" by force
  note sc = same_core_get_buffer_ctx [OF c]
  show "same_core w w'" if "vectored_payload b w = (q, w')"
    using that c by (auto simp: vectored_payload_def Let_def intro: same_core_trans [OF sc] same_core_make_payload)
  obtain q2 w2 where m: "make_payload None (get_or_create_linear_buffer (w_junk w1) ctx b n) w1 = (q2, w2)" by force
  show "same_core w w'" if "linear_payload b n w = (q, w')"
    using that c m same_core_trans [OF sc same_core_make_payload [OF m]]
    by (auto simp: linear_payload_def Let_def same_core_def split: if_splits)
qed

lemma starts_request_none: "reg_inv (w_reg w) \<Longrightarrow> same_core w w' \<Longrightarrow> starts_request w oc None w'"
  by (simp add: starts_request_def same_core_def)

lemma starts_request_prefix:
  "same_core w w1 \<Longrightarrow> starts_request w1 oc q w' \<Longrightarrow> starts_request w oc q w'"
  by (simp add: starts_request_def same_core_def split: option.splits)

lemma reg_inv_core: "same_core w w' \<Longrightarrow> reg_inv (w_reg w) \<Longrightarrow> reg_inv (w_reg w')"
  by (simp add: same_core_def)

text \<open>
  Withdrawing a request whose submission failed leaves the registry as it was before the request was
  registered, whatever the failed submission did besides consuming nothing of the ring.
\<close>

lemma submission_failed_withdraws:
  assumes inv: "reg_inv (w_reg w)" and room: "reg_free (w_reg w) \<noteq> []"
    and a: "registry_add (w_reg w) fu bp st oc fi so ad ms (w_heap w) = (i, reg', h')"
    and w2: "w_reg w2 = reg'" "w_aborted w2 = w_aborted w" "r_submitted (w_ring w2) = r_submitted (w_ring w)"
    and un: "\<And>w. same_core w (undo w)"
  shows "starts_request w oc' None (snd (submission_failed result e2 undo fu i w2))"
proof -
  define w3 where "w3 = on_heap (py_decref fu) (undo (if result = - 1 then set_err (RuntimeError ''SQE is not awailable'') w2
            else if result = - 2 then raise_opt e2 w2
            else if result = 0 then set_err (RuntimeError ''SQE submission failed'') w2
            else w2))"
  have failed: "snd (submission_failed result e2 undo fu i w2) = remove_request i w3"
    by (simp add: submission_failed_def w3_def Let_def)
  have "same_core w2 w3" unfolding w3_def
    by (auto intro: same_core_trans [OF same_core_trans [OF _ un] same_core_steps(3)])
  then have w3: "w_reg w3 = reg'" "w_aborted w3 = w_aborted w" "r_submitted (w_ring w3) = r_submitted (w_ring w)"
    using w2 by (simp_all add: same_core_def)
  note add = registry_add_abs [OF inv room a] and inv1 = registry_add_inv [OF inv a]
  obtain s' where held: "reg_abs reg' i = Some s'" using add(3) by simp
  obtain reg'' h'' where rem: "registry_remove (w_pay w3) reg' i (w_heap w3) = Some (reg'', h'')"
    using registry_remove_held [OF inv1 held] by blast
  note eff = registry_remove_effect [OF inv1 held rem]
  have "reg_free reg'' = reg_free (w_reg w)"
    using eff(3) registry_add_free(1) [OF inv room a] add(1) room by simp
  moreover have "reg_abs reg'' = reg_abs (w_reg w)" using eff(2) add(2,3) by auto
  ultimately show ?thesis using eff(1) rem w3
    by (simp add: failed remove_request_def starts_request_def)
qed

section \<open>The contract of an operation\<close>

locale world_op =
  fixes L :: liburing
    and op :: "int \<Rightarrow> world \<Rightarrow> int \<times> world"
  assumes op_reg: "w_reg (snd (op i w)) = w_reg w"
    and op_aborted: "w_aborted (snd (op i w)) = w_aborted w"
    and op_accepted: "liburing_ok L \<Longrightarrow> 1 \<le> fst (op i w) \<Longrightarrow>
      \<exists>own rest. issued (w_ring (snd (op i w))) = issued (w_ring w) @ own # rest \<and>
        sqe_user_data own = idx_to_data i"
    and op_refused: "liburing_ok L \<Longrightarrow> fst (op i w) < 1 \<Longrightarrow>
      r_submitted (w_ring (snd (op i w))) = r_submitted (w_ring w)"
begin

lemma submit_request_starts:
  assumes ok: "liburing_ok L" and inv: "reg_inv (w_reg w)" and cl: "\<And>w. same_core w (cleanup w)"
    and un: "\<And>w. same_core w (undo w)"
    and s: "submit_request e2 undo cleanup fu bp st oc fi so ad ms op w = (q, w')"
  shows "starts_request w oc q w'"
proof -
  obtain i reg' h' where a: "registry_add (w_reg w) fu bp st oc fi so ad ms (w_heap w) = (i, reg', h')"
    using prod_cases3 by blast
  define w1 where "w1 = w\<lparr>w_reg := reg', w_heap := h'\<rparr>"
  have r1: "register_request fu bp st oc fi so ad ms w = (i, w1)"
    by (simp add: register_request_def a w1_def)
  show ?thesis
  proof (cases "reg_free (w_reg w) = []")
    case True
    with registry_add_full [OF inv True] a have "i = - 1" "w1 = w" by (simp_all add: w1_def)
    with s r1 have "q = None" "w' = set_err (RuntimeError ''Registry is full'') (cleanup (on_heap (py_decref fu) (undo w)))"
      by (simp_all add: submit_request_def)
    moreover have "same_core w (set_err (RuntimeError ''Registry is full'') (cleanup (on_heap (py_decref fu) (undo w))))"
      by (rule same_core_trans [OF un same_core_trans [OF same_core_steps(3) same_core_trans [OF cl same_core_steps(1)]]])
    ultimately show ?thesis using starts_request_none [OF inv] by simp
  next
    case room: False
    note add = registry_add_abs [OF inv room a] and inv1 = registry_add_inv [OF inv a]
      and sh = registry_add_shape(2,3) [OF inv room]
    have i: "0 \<le> i" "c_int_range i"
      using sh add(1) reg_invD(2) [OF inv] by (simp_all add: c_int_range_def)
    define res where "res = op i w1"
    have w2: "w_reg (snd res) = reg'" "w_aborted (snd res) = w_aborted w"
      using op_reg [of i w1] op_aborted [of i w1] by (simp_all add: res_def w1_def)
    show ?thesis
    proof (cases "fst res < 1")
      case True
      have "q = None" and "w' = snd (submission_failed (fst res) e2 undo fu i (snd res))"
        using s r1 i True by (simp_all add: submit_request_def submission_failed_def res_def case_prod_beta)
      moreover have "r_submitted (w_ring (snd res)) = r_submitted (w_ring w)"
        using op_refused [OF ok, of i w1] True by (simp add: res_def w1_def)
      ultimately show ?thesis using submission_failed_withdraws [OF inv room a w2 _ un] by simp
    next
      case False
      have q: "q = Some fu" and w': "w' = snd res"
        using s r1 i False by (simp_all add: submit_request_def res_def case_prod_beta)
      obtain own rest where o: "issued (w_ring (snd res)) = issued (w_ring w) @ own # rest"
          "sqe_user_data own = idx_to_data i"
        using op_accepted [OF ok, of i w1] False by (auto simp: res_def w1_def)
      have "data_to_idx (sqe_user_data own) = i" using o(2) i(2) by simp
      then show ?thesis using o(1) add(2,3) inv1 w2
        unfolding starts_request_def q w' option.case
        by (intro conjI exI [of _ i] exI [of _ own] exI [of _ rest]) (auto intro!: exI)
    qed
  qed
qed

end

text \<open>A submission wrapper, applied to the ring of the loop, is such an operation.\<close>

lemma world_op_wrapper: "world_op L (\<lambda>i. ring_op (\<lambda>r. run_op c L r i tp))"
proof
  fix i w
  show "w_reg (snd (ring_op (\<lambda>r. run_op c L r i tp) w)) = w_reg w"
    "w_aborted (snd (ring_op (\<lambda>r. run_op c L r i tp) w)) = w_aborted w" by simp_all
  assume ok: "liburing_ok L"
  let ?res = "run_op c L (w_ring w) i tp"
  have e: "?res = (fst ?res, snd ?res)" by simp
  show "\<exists>own rest. issued (w_ring (snd (ring_op (\<lambda>r. run_op c L r i tp) w))) = issued (w_ring w) @ own # rest \<and>
        sqe_user_data own = idx_to_data i"
    if "1 \<le> fst (ring_op (\<lambda>r. run_op c L r i tp) w)"
    using every_op.op_queued [OF ok e] that by fastforce
  show "r_submitted (w_ring (snd (ring_op (\<lambda>r. run_op c L r i tp) w))) = r_submitted (w_ring w)"
    if "fst (ring_op (\<lambda>r. run_op c L r i tp) w) < 1"
    using every_op.op_refused [OF ok e] that by simp
qed

interpretation wrapped: world_op L "\<lambda>i. ring_op (\<lambda>r. run_op c L r i tp)" for L c tp
  by (rule world_op_wrapper)

end
