(* ===== verification/Timer_Api.thy ===== *)
theory Timer_Api
  imports Requests
begin

text \<open>
  \<^verbatim>\<open>src/python_api/timer\<close>: parsing the dictionaries that describe a timeout and a timer, and the
  \<^verbatim>\<open>timer\<close> method of the loop. A Python value is what the parsers can see of it. \<^verbatim>\<open>PyLong_AsLong\<close> returns
  -1 and raises when the value does not fit into a \<^verbatim>\<open>long\<close>; the parsers do not look at the exception.
\<close>

datatype pyobj = ObNone | ObInt int | ObBool bool | ObDict "(string \<times> pyobj) list" | ObOther

definition PyDict_GetItemString :: "(string \<times> pyobj) list \<Rightarrow> string \<Rightarrow> pyobj option" where
  "PyDict_GetItemString d k = map_of d k"

text \<open>\<^verbatim>\<open>bool\<close> is a subclass of \<^verbatim>\<open>int\<close>.\<close>

fun PyLong_Check :: "pyobj option \<Rightarrow> bool" where
  "PyLong_Check (Some (ObInt _)) = True"
| "PyLong_Check (Some (ObBool _)) = True"
| "PyLong_Check _ = False"

fun PyBool_Check :: "pyobj option \<Rightarrow> bool" where
  "PyBool_Check (Some (ObBool _)) = True"
| "PyBool_Check _ = False"

fun PyObject_IsTrue :: "pyobj option \<Rightarrow> bool" where
  "PyObject_IsTrue (Some (ObBool b)) = b"
| "PyObject_IsTrue (Some (ObInt i)) = (i \<noteq> 0)"
| "PyObject_IsTrue (Some (ObDict d)) = (d \<noteq> [])"
| "PyObject_IsTrue (Some ObNone) = False"
| "PyObject_IsTrue (Some ObOther) = True"
| "PyObject_IsTrue None = False"

fun as_long :: "pyobj option \<Rightarrow> int" where
  "as_long (Some (ObInt i)) = (if - (2 ^ 63) \<le> i \<and> i < 2 ^ 63 then i else - 1)"
| "as_long (Some (ObBool b)) = (if b then 1 else 0)"
| "as_long _ = - 1"

definition long_overflows :: "pyobj option \<Rightarrow> bool" where
  "long_overflows ob \<longleftrightarrow> (\<exists>i. ob = Some (ObInt i) \<and> \<not> (- (2 ^ 63) \<le> i \<and> i < 2 ^ 63))"

definition zero_timeout :: TimeoutParams where
  "zero_timeout = \<lparr>to_sec = 0, to_nsec = 0, to_is_required = False\<rparr>"

definition zero_timer :: TimerParams where
  "zero_timer = \<lparr>tm_sec = 0, tm_nsec = 0, tm_count = 0, tm_is_multishot = False\<rparr>"

text \<open>The result is the return value, what was stored through \<^verbatim>\<open>out\<close>, and the exception that is set.\<close>

definition parse_timeout_params ::
  "pyobj option \<Rightarrow> TimeoutParams \<Rightarrow> int \<times> TimeoutParams \<times> pyexc option" where
  "parse_timeout_params obj out =
     (case obj of
        None \<Rightarrow> (0, out, None)
      | Some ObNone \<Rightarrow> (0, out, None)
      | Some (ObDict d) \<Rightarrow>
          (let sec_obj = PyDict_GetItemString d ''sec'';
               nsec_obj = PyDict_GetItemString d ''nsec'';
               is_required_obj = PyDict_GetItemString d ''is_required''
           in if \<not> PyLong_Check sec_obj
              then (- 1, out, Some (TypeError ''timeout_params['sec'] is required and must be an int''))
              else if \<not> PyLong_Check nsec_obj
              then (- 1, out, Some (TypeError ''timeout_params['nsec'] is required and must be an int''))
              else if \<not> PyBool_Check is_required_obj
              then (- 1, out, Some (TypeError ''timeout_params['is_required'] is required and must be a bool''))
              else
                (0, \<lparr>to_sec = c_int (as_long sec_obj), to_nsec = c_int (as_long nsec_obj),
                     to_is_required = PyObject_IsTrue is_required_obj\<rparr>,
                 if long_overflows sec_obj \<or> long_overflows nsec_obj then Some OverflowError else None))
      | Some _ \<Rightarrow> (- 1, out, Some (TypeError ''timeout_params must be a dict'')))"

definition parse_timer_params ::
  "pyobj option \<Rightarrow> TimerParams \<Rightarrow> StreamStrategy \<Rightarrow> int \<times> TimerParams \<times> pyexc option" where
  "parse_timer_params obj out stream_strategy =
     (case obj of
        None \<Rightarrow> (- 1, out, None)
      | Some ObNone \<Rightarrow> (- 1, out, None)
      | Some (ObDict d) \<Rightarrow>
          (let sec_obj = PyDict_GetItemString d ''sec'';
               nsec_obj = PyDict_GetItemString d ''nsec'';
               count_obj = PyDict_GetItemString d ''count'';
               is_multishot_obj = PyDict_GetItemString d ''is_multishot''
           in if PyLong_Check sec_obj \<and> PyLong_Check nsec_obj \<and> PyLong_Check count_obj
              then
                (1, \<lparr>tm_sec = c_int (as_long sec_obj), tm_nsec = c_int (as_long nsec_obj),
                     tm_count = c_int (as_long count_obj),
                     tm_is_multishot =
                       (if PyBool_Check is_multishot_obj
                        then (if stream_strategy = MULTISHOT then PyObject_IsTrue is_multishot_obj else False)
                        else False)\<rparr>,
                 if long_overflows sec_obj \<or> long_overflows nsec_obj \<or> long_overflows count_obj
                 then Some OverflowError else None)
              else (- 1, out, Some (TypeError ''timer_params requires int fields: sec, nsec, count'')))
      | Some _ \<Rightarrow> (- 1, out, Some (TypeError ''timer_params must be a dict'')))"

definition UringioLoop_timer ::
  "liburing \<Rightarrow> pyobj option option \<Rightarrow> world \<Rightarrow> nat option \<times> world" where
  "UringioLoop_timer L args w =
     (case args of
        None \<Rightarrow> (None, set_err CalleeError w)
      | Some timer_params_obj \<Rightarrow>
     (case loop_guard w of
        Some e \<Rightarrow> (None, set_err e w)
      | None \<Rightarrow>
          (let (stream_strategy, w1) = get_stream_strategy w;
               (ret, timer_params, e) =
                 (if timer_params_obj \<noteq> None \<and> timer_params_obj \<noteq> Some ObNone
                  then parse_timer_params timer_params_obj zero_timer stream_strategy
                  else (1, zero_timer, None));
               w2 = raise_opt e w1
           in if ret < 0
              then (None, if w_err w2 = None
                          then set_err (TypeError ''timer_params requires int fields: sec, nsec, count'') w2
                          else w2)
              else
                (case create_future w2 of
                   (None, w3) \<Rightarrow> (None, w3)
                 | (Some fu, w3) \<Rightarrow>
                     submit_request None (\<lambda>w. w) (\<lambda>w. w) fu None ONESHOT IORING_OP_TIMEOUT None None None None
                       (\<lambda>request_idx. ring_op (\<lambda>r. timer L r request_idx (Some timer_params))) w3))))"

section \<open>The timer operation\<close>

lemma timer_effect:
  assumes ok: "liburing_ok L" and t: "timer L r idx (Some tp) = (t, r')"
  shows "t \<in> {- 1, 0, 1}" and "t < 1 \<Longrightarrow> r_submitted r' = r_submitted r"
    and "0 \<le> t \<Longrightarrow> \<exists>own. issued r' = issued r @ [own] \<and> sqe_user_data own = idx_to_data idx \<and>
      sqe_prep own = Some (Prep_timeout (LocalVar ''timer'' \<lparr>tv_sec = tm_sec tp, tv_nsec = tm_nsec tp\<rparr>)
        (word_of_int (tm_count tp)) (if tm_is_multishot tp then 64 else 0))"
proof -
  let ?c = "Prep_timeout (LocalVar ''timer'' \<lparr>tv_sec = tm_sec tp, tv_nsec = tm_nsec tp\<rparr>)
        (word_of_int (tm_count tp)) (if tm_is_multishot tp then 64 else 0)"
  have "t \<in> {- 1, 0, 1} \<and> (t < 1 \<longrightarrow> r_submitted r' = r_submitted r) \<and>
    (0 \<le> t \<longrightarrow> (\<exists>own. issued r' = issued r @ [own] \<and> sqe_user_data own = idx_to_data idx \<and> sqe_prep own = Some ?c))"
  proof (cases "io_uring_get_sqe L r")
    case (Pair q r1)
    show ?thesis
    proof (cases q)
      case None
      with Pair get_sqe_NoneD [OF ok] t show ?thesis by (auto simp: timer_def create_sqe_def)
    next
      case (Some p)
      then obtain s where s: "p = length (r_pending r)" "r_submitted r1 = r_submitted r"
          "r_pending r1 = r_pending r @ [s]"
        using get_sqe_SomeD [OF ok, of r p r1] Pair by auto
      let ?r2 = "with_sqe p (io_uring_prep L ?c) r1"
      have e: "set_data_and_submit L p idx ?r2 = (t, r')"
        using t Pair Some
        by (simp add: timer_def create_sqe_def Let_def IORING_TIMEOUT_MULTISHOT_def split: if_splits)
      have "r_pending ?r2 = r_pending r @ io_uring_prep L ?c s # []"
        by (rule with_sqe_at) (use s in simp_all)
      note sd = set_data_and_submit_effect [OF ok this s(1) e]
      show ?thesis using sd(1-3) s(2) ok by (auto simp: issued_def)
    qed
  qed
  then show "t \<in> {- 1, 0, 1}" "t < 1 \<Longrightarrow> r_submitted r' = r_submitted r"
    "0 \<le> t \<Longrightarrow> \<exists>own. issued r' = issued r @ [own] \<and> sqe_user_data own = idx_to_data idx \<and> sqe_prep own = Some ?c"
    by blast+
qed

interpretation timer_op: world_op L "\<lambda>i. ring_op (\<lambda>r. timer L r i (Some tp))" for L tp
proof
  fix i w
  show "w_reg (snd (ring_op (\<lambda>r. timer L r i (Some tp)) w)) = w_reg w"
    "w_aborted (snd (ring_op (\<lambda>r. timer L r i (Some tp)) w)) = w_aborted w" by simp_all
  assume ok: "liburing_ok L"
  note te = timer_effect [OF ok prod.collapse [symmetric], of "w_ring w" i tp]
  show "\<exists>own rest. issued (w_ring (snd (ring_op (\<lambda>r. timer L r i (Some tp)) w))) = issued (w_ring w) @ own # rest \<and>
        sqe_user_data own = idx_to_data i"
    if "1 \<le> fst (ring_op (\<lambda>r. timer L r i (Some tp)) w)"
    using te(3) that by fastforce
  show "r_submitted (w_ring (snd (ring_op (\<lambda>r. timer L r i (Some tp)) w))) = r_submitted (w_ring w)"
    if "fst (ring_op (\<lambda>r. timer L r i (Some tp)) w) < 1"
    using te(2) that by simp
qed

section \<open>Properties\<close>

text \<open>
  C33. \<^verbatim>\<open>parse_timeout_params\<close> accepts an absent argument and \<^verbatim>\<open>None\<close>, leaving the parameters as they were, and a
  dictionary with integers \<^verbatim>\<open>sec\<close> and \<^verbatim>\<open>nsec\<close> and a boolean \<^verbatim>\<open>is_required\<close>; anything else is a
  \<^verbatim>\<open>TypeError\<close> and the parameters are not touched. Values that fit into a C \<^verbatim>\<open>int\<close> are stored exactly.
\<close>

theorem parse_timeout_params_spec:
  "case parse_timeout_params obj out of (ret, out', e) \<Rightarrow>
     (ret = - 1 \<and> out' = out \<and> (\<exists>m. e = Some (TypeError m)) \<and> obj \<noteq> None \<and> obj \<noteq> Some ObNone \<and>
        (\<forall>d. obj = Some (ObDict d) \<longrightarrow> \<not> (PyLong_Check (map_of d ''sec'') \<and> PyLong_Check (map_of d ''nsec'') \<and>
           PyBool_Check (map_of d ''is_required'')))) \<or>
     (ret = 0 \<and> out' = out \<and> e = None \<and> (obj = None \<or> obj = Some ObNone)) \<or>
     (ret = 0 \<and> (\<exists>d b. obj = Some (ObDict d) \<and> map_of d ''is_required'' = Some (ObBool b) \<and> to_is_required out' = b \<and>
        PyLong_Check (map_of d ''sec'') \<and> PyLong_Check (map_of d ''nsec'') \<and>
        (\<forall>i. map_of d ''sec'' = Some (ObInt i) \<and> c_int_range i \<longrightarrow> to_sec out' = i) \<and>
        (\<forall>i. map_of d ''nsec'' = Some (ObInt i) \<and> c_int_range i \<longrightarrow> to_nsec out' = i)))"
proof (cases obj)
  case None
  then show ?thesis by (simp add: parse_timeout_params_def)
next
  case (Some ob)
  show ?thesis
  proof (cases ob)
    case (ObDict d)
    have fit: "c_int (if - 9223372036854775808 \<le> i \<and> i < 9223372036854775808 then i else - 1) = i"
      if "c_int_range i" for i :: int
    proof -
      have "- 9223372036854775808 \<le> i \<and> i < 9223372036854775808"
        using that by (simp add: c_int_range_def)
      with that show ?thesis by simp
    qed
    show ?thesis
    proof (cases "PyBool_Check (map_of d ''is_required'')")
      case True
      then obtain b where "map_of d ''is_required'' = Some (ObBool b)"
        by (cases "map_of d ''is_required''" rule: PyBool_Check.cases) auto
      with Some ObDict show ?thesis
        by (auto simp: parse_timeout_params_def PyDict_GetItemString_def Let_def fit)
    next
      case False
      with Some ObDict show ?thesis
        by (auto simp: parse_timeout_params_def PyDict_GetItemString_def Let_def)
    qed
  qed (use Some in \<open>simp_all add: parse_timeout_params_def\<close>)
qed

theorem parse_timeout_params_spec_witness:
  "case parse_timeout_params (Some (ObDict [(''sec'', ObInt 5), (''nsec'', ObInt 7), (''is_required'', ObBool True)]))
       zero_timeout of (ret, out', e) \<Rightarrow> ret = 0 \<and> to_sec out' = 5 \<and> to_nsec out' = 7 \<and> to_is_required out'"
  using parse_timeout_params_spec
    [where obj = "Some (ObDict [(''sec'', ObInt 5), (''nsec'', ObInt 7), (''is_required'', ObBool True)])"
       and out = zero_timeout]
  by (auto simp: c_int_range_def split: prod.splits)

text \<open>
  A number of seconds that does not fit into an \<^verbatim>\<open>int\<close> is truncated without an error: with \<open>2^32\<close>
  seconds the parser reports success and the operation runs with no timeout at all.
\<close>

lemma parse_timeout_params_truncates:
  "parse_timeout_params (Some (ObDict [(''sec'', ObInt (2 ^ 32)), (''nsec'', ObInt 0), (''is_required'', ObBool False)]))
     out = (0, zero_timeout, None) \<and> no_timeout (Some zero_timeout)"
  by (simp add: parse_timeout_params_def PyDict_GetItemString_def zero_timeout_def long_overflows_def
      c_int_def signed_take_bit_eq_take_bit_minus take_bit_eq_mod no_timeout_def Let_def)

lemma timer_ok:
  assumes "liburing_ok L" and "reg_inv (w_reg w)"
  shows "starts_request w IORING_OP_TIMEOUT (fst (UringioLoop_timer L args w)) (snd (UringioLoop_timer L args w))"
proof -
  obtain q w' where t: "UringioLoop_timer L args w = (q, w')" by force
  obtain st w1 where g: "get_stream_strategy w = (st, w1)" by force
  have c1: "same_core w w1" by (rule same_core_stream [OF g])
  have step: "starts_request w IORING_OP_TIMEOUT q w'"
    if cf: "create_future w2 = (Some fu, w3)" and w2: "same_core w w2"
      and s: "submit_request None (\<lambda>w. w) (\<lambda>w. w) fu None ONESHOT IORING_OP_TIMEOUT None None None None
            (\<lambda>i. ring_op (\<lambda>r. timer L r i (Some tp))) w3 = (q, w')" for w2 fu w3 tp
  proof -
    have c: "same_core w w3" by (rule same_core_trans [OF w2 same_core_create_future [OF cf]])
    show ?thesis
      by (rule starts_request_prefix [OF c timer_op.submit_request_starts [OF assms(1) reg_inv_core [OF c assms(2)] _ _ s]])
        simp_all
  qed
  have c2: "same_core w (raise_opt e w1)" for e by (rule same_core_trans [OF c1 same_core_steps(5)])
  have c3: "same_core w (set_err x (raise_opt e w1))" for e x by (rule same_core_trans [OF c2 same_core_steps(1)])
  have "starts_request w IORING_OP_TIMEOUT q w'"
    using t g starts_request_none [OF assms(2)] c2 c3 step [OF _ c2]
      same_core_trans [OF c2 same_core_create_future]
    unfolding UringioLoop_timer_def
    by (auto simp: Let_def case_prod_beta split: option.splits prod.splits if_splits)
  with t show ?thesis by simp
qed



end
