(* ===== verification/File_Api.thy ===== *)
theory File_Api
  imports Timer_Api
begin

text \<open>
  \<^verbatim>\<open>src/python_api/ops/files\<close>: the dispatchers that choose a wrapper by the mode of the payload, and the
  methods of a file object. A method takes the values \<^verbatim>\<open>PyArg_ParseTupleAndKeywords\<close> has stored, with the
  defaults of the code where an argument is absent; \<open>None\<close> is a parse that failed and raised. The trailing
  newlines of the messages are left out.
\<close>

section \<open>Steps the methods share\<close>

definition linear_head :: "BufferPayload \<Rightarrow> LinearBuffer option" where
  "linear_head p = (case bp_linear p of Some (_, b # _) \<Rightarrow> Some b | _ \<Rightarrow> None)"

fun to_ptr :: "nat option \<Rightarrow> 'a ptr" where
  "to_ptr None = Null"
| "to_ptr (Some a) = Addr a"

definition linear_buffer :: "BufferPayload \<Rightarrow> data_ptr" where
  "linear_buffer p = (case linear_head p of None \<Rightarrow> Null | Some b \<Rightarrow> to_ptr (lb_buffer b))"

definition linear_len :: "BufferPayload \<Rightarrow> int" where
  "linear_len p = (case linear_head p of None \<Rightarrow> 0 | Some b \<Rightarrow> lb_len b)"

definition vector_iovecs :: "BufferPayload \<Rightarrow> iov_ptr" where
  "vector_iovecs p = (case bp_vector p of None \<Rightarrow> Null | Some v \<Rightarrow> Addr (fst (vb_iovecs v)))"

definition vector_nr :: "BufferPayload \<Rightarrow> u32" where
  "vector_nr p = (case bp_vector p of None \<Rightarrow> 0 | Some v \<Rightarrow> word_of_int (vb_nr_vecs v))"

text \<open>\<^verbatim>\<open>payload->linear->...\<close> and \<^verbatim>\<open>payload->vector->...\<close> through a null pointer.\<close>

definition check_linear :: "BufferPayload \<Rightarrow> world \<Rightarrow> world" where
  "check_linear p w = (if linear_head p = None then fault_at NullDeref w else w)"

definition check_vector :: "BufferPayload \<Rightarrow> world \<Rightarrow> world" where
  "check_vector p w = (if bp_vector p = None then fault_at NullDeref w else w)"

text \<open>
  \<^verbatim>\<open>buf_idx = get_buffer_idx(buffer_payload->idx_registry); buffer_payload->buf_idx = buf_idx;\<close>
\<close>

definition take_buffer_idx :: "nat \<Rightarrow> world \<Rightarrow> int \<times> world" where
  "take_buffer_idx a w =
     (case idx_registry (w_pay w a) of
        None \<Rightarrow> (- 1, fault_at NullDeref w)
      | Some r \<Rightarrow>
          (let (b, pool) = get_buffer_idx (w_pool w r)
           in (b, w\<lparr>w_pool := (w_pool w)(r := pool),
                    w_pay := (w_pay w)(a := (w_pay w a)\<lparr>bp_buf_idx := b\<rparr>)\<rparr>)))"

section \<open>Dispatchers\<close>

definition read_dispatcher ::
  "liburing \<Rightarrow> nat \<Rightarrow> nat \<Rightarrow> StreamStrategy \<Rightarrow> int \<Rightarrow> int \<Rightarrow> int \<Rightarrow> TimeoutParams \<Rightarrow> world \<Rightarrow> int \<times> world" where
  "read_dispatcher L self a stream request_idx sz offset tp w =
     (let p = w_pay w a; fd = uf_fd (w_files w self)
      in case bp_mode p of
           FIXED \<Rightarrow>
             (let (buf_idx, w1) = take_buffer_idx a w
              in ring_op (\<lambda>r. uringio_read_fixed L r request_idx fd (linear_buffer p) (word_of_int sz) offset
                                buf_idx tp) (check_linear p w1))
         | NORMAL_BUF \<Rightarrow>
             ring_op (\<lambda>r. uringio_read L r request_idx fd (linear_buffer p) (word_of_int sz) offset tp)
               (check_linear p w)
         | BUF_NO_VAL \<Rightarrow>
             ring_op (\<lambda>r. uringio_read L r request_idx fd (linear_buffer p) (word_of_int sz) offset tp)
               (check_linear p w)
         | _ \<Rightarrow>
             if stream = MULTISHOT
             then ring_op (\<lambda>r. uringio_read_multishot L r request_idx fd offset (bp_bgid p) tp) w
             else ring_op (\<lambda>r. uringio_read_buffer_select L r request_idx fd (word_of_int sz) offset
                                 (bp_bgid p) tp) w)"

definition readv_dispatcher ::
  "liburing \<Rightarrow> nat \<Rightarrow> nat \<Rightarrow> int \<Rightarrow> int \<Rightarrow> int \<Rightarrow> TimeoutParams \<Rightarrow> world \<Rightarrow> int \<times> world" where
  "readv_dispatcher L self a request_idx offset nowait tp w =
     (let p = w_pay w a; fd = uf_fd (w_files w self)
      in if bp_mode p = PROVIDED \<or> bp_mode p = BUF_RING
         then ring_op (\<lambda>r. uringio_readv_buffer_select L r request_idx fd (word_of_int (linear_len p)) offset
                             (bp_bgid p) nowait tp) (check_linear p w)
         else ring_op (\<lambda>r. uringio_readv L r request_idx fd (vector_iovecs p) (vector_nr p) offset nowait tp)
                (check_vector p w))"

definition write_dispatcher ::
  "liburing \<Rightarrow> nat \<Rightarrow> nat \<Rightarrow> int \<Rightarrow> int \<Rightarrow> TimeoutParams \<Rightarrow> world \<Rightarrow> int \<times> world" where
  "write_dispatcher L self a request_idx offset tp w =
     (let p = w_pay w a; fd = uf_fd (w_files w self)
      in if bp_mode p = FIXED
         then
           (let (buf_idx, w1) = take_buffer_idx a w
            in ring_op (\<lambda>r. uringio_write_fixed L r request_idx fd (linear_buffer p)
                              (word_of_int (linear_len p)) offset buf_idx tp) (check_linear p w1))
         else ring_op (\<lambda>r. uringio_write L r request_idx fd (linear_buffer p) (word_of_int (linear_len p))
                             offset tp) (check_linear p w))"

section \<open>Methods\<close>

definition file_guard :: "nat \<Rightarrow> world \<Rightarrow> pyexc option" where
  "file_guard self w =
     (case loop_guard w of
        Some e \<Rightarrow> Some e
      | None \<Rightarrow> if uf_closed (w_files w self) then Some (BrokenPipeError ''File is closed'') else None)"

definition guarded ::
  "pyexc option \<Rightarrow> 'a option \<Rightarrow> ('a \<Rightarrow> world \<Rightarrow> nat option \<times> world) \<Rightarrow> world \<Rightarrow> nat option \<times> world" where
  "guarded g args k w =
     (case g of
        Some e \<Rightarrow> (None, set_err e w)
      | None \<Rightarrow> (case args of None \<Rightarrow> (None, set_err CalleeError w) | Some x \<Rightarrow> k x w))"

definition with_timeout ::
  "pyobj option \<Rightarrow> (world \<Rightarrow> world) \<Rightarrow> (TimeoutParams \<Rightarrow> world \<Rightarrow> nat option \<times> world) \<Rightarrow> world \<Rightarrow> nat option \<times> world"
where
  "with_timeout obj on_error k w =
     (let (ret, tp, e) = parse_timeout_params obj zero_timeout; w1 = raise_opt e w
      in if ret < 0 then (None, on_error w1) else k tp w1)"

definition with_future ::
  "(world \<Rightarrow> world) \<Rightarrow> (nat \<Rightarrow> world \<Rightarrow> nat option \<times> world) \<Rightarrow> world \<Rightarrow> nat option \<times> world" where
  "with_future on_error k w =
     (case create_future w of (None, w1) \<Rightarrow> (None, on_error w1) | (Some fu, w1) \<Rightarrow> k fu w1)"

definition with_payload ::
  "(world \<Rightarrow> nat option \<times> world) \<Rightarrow> (world \<Rightarrow> world) \<Rightarrow> (nat \<Rightarrow> world \<Rightarrow> nat option \<times> world) \<Rightarrow> world
     \<Rightarrow> nat option \<times> world" where
  "with_payload mk on_error k w =
     (case mk w of (None, w1) \<Rightarrow> (None, on_error w1) | (Some a, w1) \<Rightarrow> k a w1)"

text \<open>
  The registration of a request of a file, with its payload when it has one, its submission, and
  \<^verbatim>\<open>_check_file_result\<close>.
\<close>

definition file_request ::
  "nat \<Rightarrow> nat \<Rightarrow> nat option \<Rightarrow> StreamStrategy \<Rightarrow> int \<Rightarrow> (int \<Rightarrow> world \<Rightarrow> int \<times> world) \<Rightarrow> world
     \<Rightarrow> nat option \<times> world" where
  "file_request self fu bp st oc op w =
     submit_request None (\<lambda>w. w) (free_payload_at bp False) fu bp st oc (Some self) None None None op w"

text \<open>
  \<^verbatim>\<open>open\<close>: \<open>running\<close> says whether the running loop is one of uringio; \<open>path\<close> is \<open>None\<close> when
  \<^verbatim>\<open>PyOS_FSPath\<close> fails and \<open>Some None\<close> when the path is no UTF-8. The descriptor of the new object stays
  indeterminate until the completion.
\<close>

definition Uringio_open ::
  "liburing \<Rightarrow> bool \<Rightarrow> (string option option \<times> int \<times> int \<times> int \<times> int \<times> pyobj option) option \<Rightarrow> world
     \<Rightarrow> nat option \<times> world" where
  "Uringio_open L running args w =
     (if \<not> running then (None, set_err (RuntimeError ''Uring-based methods requires uring-based loop'') w)
      else
        case loop_guard w of
          Some e \<Rightarrow> (None, set_err e w)
        | None \<Rightarrow>
            (case py_new MemoryError w of
               (None, w1) \<Rightarrow> (None, w1)
             | (Some file, w1) \<Rightarrow>
                 (let w2 = w1\<lparr>w_files := (w_files w1)(file := (w_files w1 file)\<lparr>uf_closed := False\<rparr>)\<rparr>;
                      drop = on_heap (py_decref file)
                  in case args of
                       None \<Rightarrow> (None, drop (set_err CalleeError w2))
                     | Some (None, _) \<Rightarrow> (None, drop (set_err CalleeError w2))
                     | Some (Some None, _) \<Rightarrow>
                         (None, set_err (TypeError ''Failed to convert path to UTF-8'') (drop w2))
                     | Some (Some (Some path), dfd, flags, resolve, mode, to_obj) \<Rightarrow>
                         with_timeout to_obj drop (\<lambda>tp.
                           with_future drop (\<lambda>fu.
                             submit_request None drop (\<lambda>w. w) fu None ONESHOT IORING_OP_OPENAT2 (Some file)
                               None None None
                               (\<lambda>i. ring_op (\<lambda>r. open_file L r i dfd path flags resolve (word_of_int mode) tp))))
                           w2)))"

definition UringioFile_aenter :: "nat \<Rightarrow> world \<Rightarrow> nat option \<times> world" where
  "UringioFile_aenter self w =
     (case create_future w of
        (None, w1) \<Rightarrow> (None, w1)
      | (Some fu, w1) \<Rightarrow>
          (Some fu, w1\<lparr>w_fut := (w_fut w1)(fu := Result (PyObj self)), w_heap := py_incref self (w_heap w1)\<rparr>))"

text \<open>
  \<^verbatim>\<open>_raise_file_exception_group\<close>: the exception of the body alone when closing raised none, both in a group
  otherwise. The calls into the interpreter that build the group are taken to succeed.
\<close>

definition raise_exception_group :: "pyexc \<Rightarrow> world \<Rightarrow> world" where
  "raise_exception_group body w =
     (case w_err w of None \<Rightarrow> set_err body w | Some c \<Rightarrow> set_err (ExceptionGroup body c) w)"

definition set_file_closed :: "bool \<Rightarrow> nat \<Rightarrow> world \<Rightarrow> world" where
  "set_file_closed b self w =
     w\<lparr>w_files := (w_files w)(self := (w_files w self)\<lparr>uf_closed := b\<rparr>)\<rparr>"

definition UringioFile_aexit :: "liburing \<Rightarrow> nat \<Rightarrow> pyexc option option \<Rightarrow> world \<Rightarrow> nat option \<times> world" where
  "UringioFile_aexit L self args w =
     (case args of
        None \<Rightarrow> (None, set_err CalleeError w)
      | Some exc \<Rightarrow>
          (let group = (\<lambda>w. case exc of None \<Rightarrow> w | Some e \<Rightarrow> raise_exception_group e w)
           in case create_future w of
                (None, w1) \<Rightarrow> (None, group w1)
              | (Some fu, w1) \<Rightarrow>
                  (let (request_idx, w2) = register_request fu None ONESHOT IORING_OP_CLOSE (Some self) None None None w1
                   in if request_idx < 0
                      then (None, let w3 = on_heap (py_decref fu) w2
                                  in case exc of None \<Rightarrow> set_err (RuntimeError ''Registry is full'') w3
                                               | Some e \<Rightarrow> raise_exception_group e w3)
                      else
                        (let w3 = set_file_closed True self w2;
                             (result, w4) = ring_op (\<lambda>r. uringio_close_file L r request_idx
                                                (uf_fd (w_files w3 self)) zero_timeout) w3
                         in if result < 1
                            then (None, group (set_file_closed False self
                                          (snd (submission_failed result None (\<lambda>w. w) fu request_idx w4))))
                            else (Some fu, w4)))))"

definition UringioFile_close :: "liburing \<Rightarrow> nat \<Rightarrow> pyobj option option \<Rightarrow> world \<Rightarrow> nat option \<times> world" where
  "UringioFile_close L self args w =
     guarded (file_guard self w) args (\<lambda>to_obj.
       with_timeout to_obj (\<lambda>w. w) (\<lambda>tp.
         with_future (\<lambda>w. w) (\<lambda>fu.
           file_request self fu None ONESHOT IORING_OP_CLOSE
             (\<lambda>i. ring_op (\<lambda>r. uringio_close_file L r i (uf_fd (w_files w self)) tp))))) w"

definition UringioFile_read ::
  "liburing \<Rightarrow> nat \<Rightarrow> (int \<times> int \<times> pyobj option) option \<Rightarrow> world \<Rightarrow> nat option \<times> world" where
  "UringioFile_read L self args w =
     guarded (file_guard self w) args (\<lambda>(offset, size_i, to_obj).
       with_timeout to_obj (\<lambda>w. w) (\<lambda>tp.
         with_future (\<lambda>w. w) (\<lambda>fu.
           with_payload (linear_payload None size_i) (on_heap (py_decref fu)) (\<lambda>a w1.
             let (stream_strategy, w2) = get_stream_strategy w1
             in file_request self fu (Some a) stream_strategy IORING_OP_READ
                  (\<lambda>i. read_dispatcher L self a stream_strategy i size_i offset tp) w2)))) w"

text \<open>
  \<^verbatim>\<open>readv\<close> takes the payload of the context when its mode selects buffers, whatever was passed.
\<close>

definition readv_payload :: "pyseq option \<Rightarrow> world \<Rightarrow> nat option \<times> world" where
  "readv_payload buffers_obj w =
     (let (ctx, w1) = get_buffer_ctx w
      in case ctx of
           Some (a, p) \<Rightarrow> if bp_mode p = PROVIDED \<or> bp_mode p = BUF_RING then (Some a, w1)
                          else vectored_payload buffers_obj w1
         | None \<Rightarrow> vectored_payload buffers_obj w1)"

definition UringioFile_readv ::
  "liburing \<Rightarrow> nat \<Rightarrow> (pyseq option \<times> int \<times> int \<times> pyobj option) option \<Rightarrow> world \<Rightarrow> nat option \<times> world" where
  "UringioFile_readv L self args w =
     guarded (file_guard self w) args (\<lambda>(buffers_obj, offset, nowait, to_obj).
       with_timeout to_obj (\<lambda>w. w) (\<lambda>tp.
         with_payload (readv_payload buffers_obj) (\<lambda>w. w) (\<lambda>a.
           with_future (free_payload_at (Some a) False) (\<lambda>fu.
             file_request self fu (Some a) ONESHOT IORING_OP_READV
               (\<lambda>i. readv_dispatcher L self a i offset nowait tp))))) w"

text \<open>
  The raw variants: the object whose memory holds the iovecs, whether that memory is contiguous, and the
  iovecs in it. \<open>release\<close> says whether the caller gives the view back when no payload could be made:
  \<^verbatim>\<open>writev_raw\<close> does, \<^verbatim>\<open>readv_raw\<close> does not.
\<close>

definition raw_payload :: "bool \<Rightarrow> pyitem \<Rightarrow> bool \<Rightarrow> iovec list \<Rightarrow> world \<Rightarrow> nat option \<times> world" where
  "raw_payload release item contiguous iovs w =
     (case get_buffer item (w_heap w) of
        (None, h) \<Rightarrow> (None, set_err CalleeError (w\<lparr>w_heap := h\<rparr>))
      | (Some (v, b, len), h) \<Rightarrow>
          (let w1 = w\<lparr>w_heap := h\<rparr>
           in if len mod 16 \<noteq> 0
              then (None, set_err (ValueError ''iovecs buffer has invalid size'') (on_heap (pybuffer_release v) w1))
              else if \<not> contiguous
              then (None, set_err (ValueError ''iovecs must be contiguous'') (on_heap (pybuffer_release v) w1))
              else
                (case payload_from_pybuffer v iovs w1 of
                   (None, w2) \<Rightarrow> (None, if release then on_heap (pybuffer_release v) w2 else w2)
                 | (Some a, w2) \<Rightarrow> (Some a, w2))))"

definition UringioFile_readv_raw ::
  "liburing \<Rightarrow> nat \<Rightarrow> (pyitem \<times> bool \<times> iovec list \<times> int \<times> int \<times> pyobj option) option \<Rightarrow> world
     \<Rightarrow> nat option \<times> world" where
  "UringioFile_readv_raw L self args w =
     guarded (file_guard self w) args (\<lambda>(item, contiguous, iovs, offset, nowait, to_obj).
       with_timeout to_obj (\<lambda>w. w) (\<lambda>tp.
         with_payload (raw_payload False item contiguous iovs) (\<lambda>w. w) (\<lambda>a.
           with_future (free_payload_at (Some a) False) (\<lambda>fu w1.
             file_request self fu (Some a) ONESHOT IORING_OP_READV
               (\<lambda>i. ring_op (\<lambda>r. uringio_readv L r i (uf_fd (w_files w self)) (vector_iovecs (w_pay w1 a))
                                  (vector_nr (w_pay w1 a)) offset nowait tp)) w1)))) w"

definition UringioFile_write ::
  "liburing \<Rightarrow> nat \<Rightarrow> (pyitem \<times> int \<times> pyobj option) option \<Rightarrow> world \<Rightarrow> nat option \<times> world" where
  "UringioFile_write L self args w =
     guarded (file_guard self w) args (\<lambda>(data, offset, to_obj).
       with_timeout to_obj (\<lambda>w. w) (\<lambda>tp.
         with_future (\<lambda>w. w) (\<lambda>fu.
           with_payload (payload_from_data data) (on_heap (py_decref fu)) (\<lambda>a.
             file_request self fu (Some a) ONESHOT IORING_OP_WRITE
               (\<lambda>i. write_dispatcher L self a i offset tp))))) w"

definition UringioFile_writev ::
  "liburing \<Rightarrow> nat \<Rightarrow> (pyseq option \<times> int \<times> int \<times> pyobj option) option \<Rightarrow> world \<Rightarrow> nat option \<times> world" where
  "UringioFile_writev L self args w =
     guarded (file_guard self w) args (\<lambda>(buffers_obj, flags, offset, to_obj).
       with_timeout to_obj (\<lambda>w. w) (\<lambda>tp.
         with_payload (vectored_payload buffers_obj) (\<lambda>w. w) (\<lambda>a.
           with_future (free_payload_at (Some a) False) (\<lambda>fu w1.
             file_request self fu (Some a) ONESHOT IORING_OP_WRITEV
               (\<lambda>i. ring_op (\<lambda>r. uringio_writev L r i (uf_fd (w_files w self)) (vector_iovecs (w_pay w1 a))
                                  (vector_nr (w_pay w1 a)) offset flags tp)) w1)))) w"

definition UringioFile_writev_raw ::
  "liburing \<Rightarrow> nat \<Rightarrow> (pyitem \<times> bool \<times> iovec list \<times> int \<times> int \<times> pyobj option) option \<Rightarrow> world
     \<Rightarrow> nat option \<times> world" where
  "UringioFile_writev_raw L self args w =
     guarded (file_guard self w) args (\<lambda>(item, contiguous, iovs, flags, offset, to_obj).
       with_timeout to_obj (\<lambda>w. w) (\<lambda>tp.
         with_payload (raw_payload True item contiguous iovs) (\<lambda>w. w) (\<lambda>a.
           with_future (free_payload_at (Some a) False) (\<lambda>fu w1.
             file_request self fu (Some a) ONESHOT IORING_OP_WRITEV
               (\<lambda>i. ring_op (\<lambda>r. uringio_writev L r i (uf_fd (w_files w self)) (vector_iovecs (w_pay w1 a))
                                  (vector_nr (w_pay w1 a)) offset flags tp)) w1)))) w"

definition UringioFile_fsync :: "liburing \<Rightarrow> nat \<Rightarrow> pyobj option option \<Rightarrow> world \<Rightarrow> nat option \<times> world" where
  "UringioFile_fsync L self args w =
     guarded (file_guard self w) args (\<lambda>to_obj.
       with_timeout to_obj (\<lambda>w. w) (\<lambda>tp.
         with_future (\<lambda>w. w) (\<lambda>fu.
           file_request self fu None ONESHOT IORING_OP_FSYNC
             (\<lambda>i. ring_op (\<lambda>r. uringio_fsync L r i (uf_fd (w_files w self)) tp))))) w"

definition UringioFile_fdatasync :: "liburing \<Rightarrow> nat \<Rightarrow> pyobj option option \<Rightarrow> world \<Rightarrow> nat option \<times> world" where
  "UringioFile_fdatasync L self args w =
     guarded (file_guard self w) args (\<lambda>to_obj.
       with_timeout to_obj (\<lambda>w. w) (\<lambda>tp.
         with_future (\<lambda>w. w) (\<lambda>fu.
           file_request self fu None ONESHOT IORING_OP_FSYNC
             (\<lambda>i. ring_op (\<lambda>r. uringio_fdatasync L r i (uf_fd (w_files w self)) tp))))) w"

definition UringioFile_splice ::
  "liburing \<Rightarrow> nat \<Rightarrow> (int \<times> int \<times> int \<times> int \<times> int \<times> int \<times> pyobj option) option \<Rightarrow> world \<Rightarrow> nat option \<times> world"
where
  "UringioFile_splice L self args w =
     guarded (file_guard self w) args (\<lambda>(src, dst, count, offset_src, offset_dst, flag, to_obj).
       with_timeout to_obj (\<lambda>w. w) (\<lambda>tp.
         with_future (\<lambda>w. w) (\<lambda>fu.
           file_request self fu None ONESHOT IORING_OP_SPLICE
             (\<lambda>i. ring_op (\<lambda>r. uringio_splice L r i src offset_src dst offset_dst count flag tp))))) w"

section \<open>Dispatchers are operations\<close>

lemma check_linear_core [simp]:
  "w_reg (check_linear p w) = w_reg w" "w_ring (check_linear p w) = w_ring w"
  "w_aborted (check_linear p w) = w_aborted w" "w_files (check_linear p w) = w_files w"
  by (simp_all add: check_linear_def)

lemma check_vector_core [simp]:
  "w_reg (check_vector p w) = w_reg w" "w_ring (check_vector p w) = w_ring w"
  "w_aborted (check_vector p w) = w_aborted w"
  by (simp_all add: check_vector_def)

lemma take_buffer_idx_core [simp]:
  "w_reg (snd (take_buffer_idx a w)) = w_reg w" "w_ring (snd (take_buffer_idx a w)) = w_ring w"
  "w_aborted (snd (take_buffer_idx a w)) = w_aborted w"
  by (simp_all add: take_buffer_idx_def case_prod_beta Let_def split: option.splits)

text \<open>
  An operation that, in each state, runs some wrapper on the ring of a state with the same
  registry and ring.
\<close>

lemma world_op_choice:
  assumes "\<And>i w. \<exists>c. op i w = ring_op (\<lambda>r. run_op c L r i tp) (f i w)"
    and "\<And>i w. w_reg (f i w) = w_reg w" and "\<And>i w. w_ring (f i w) = w_ring w"
    and "\<And>i w. w_aborted (f i w) = w_aborted w"
  shows "world_op L op"
proof
  fix i w
  obtain c where c: "op i w = ring_op (\<lambda>r. run_op c L r i tp) (f i w)" using assms(1) by blast
  show "w_reg (snd (op i w)) = w_reg w" "w_aborted (snd (op i w)) = w_aborted w"
    by (simp_all add: c assms(2-4))
  assume ok: "liburing_ok L"
  show "\<exists>own rest. issued (w_ring (snd (op i w))) = issued (w_ring w) @ own # rest \<and>
      sqe_user_data own = idx_to_data i" if "1 \<le> fst (op i w)"
    using wrapped.op_accepted [OF ok, of c i tp "f i w"] that by (simp add: c assms(2-4))
  show "r_submitted (w_ring (snd (op i w))) = r_submitted (w_ring w)" if "fst (op i w) < 1"
    using wrapped.op_refused [OF ok, of c i tp "f i w"] that by (simp add: c assms(2-4))
qed

lemma read_dispatcher_op: "world_op L (\<lambda>i. read_dispatcher L self a st i sz off tp)"
proof (rule world_op_choice [where tp = tp and f = "\<lambda>i w.
      if bp_mode (w_pay w a) = FIXED then check_linear (w_pay w a) (snd (take_buffer_idx a w))
      else if bp_mode (w_pay w a) = PROVIDED \<or> bp_mode (w_pay w a) = BUF_RING then w
      else check_linear (w_pay w a) w"])
  fix i and w :: world
  let ?p = "w_pay w a" and ?fd = "uf_fd (w_files w self)"
  show "\<exists>c. read_dispatcher L self a st i sz off tp w = ring_op (\<lambda>r. run_op c L r i tp)
      (if bp_mode ?p = FIXED then check_linear ?p (snd (take_buffer_idx a w))
       else if bp_mode ?p = PROVIDED \<or> bp_mode ?p = BUF_RING then w else check_linear ?p w)"
  proof (cases "bp_mode ?p = FIXED")
    case True
    then show ?thesis
      by (intro exI [of _ "Op_read_fixed ?fd (linear_buffer ?p) (word_of_int sz) off (fst (take_buffer_idx a w))"])
        (simp add: read_dispatcher_def case_prod_beta Let_def)
  next
    case False
    show ?thesis
    proof (cases "bp_mode ?p = PROVIDED \<or> bp_mode ?p = BUF_RING")
      case True
      then show ?thesis
        by (intro exI [of _ "if st = MULTISHOT then Op_read_multishot ?fd off (bp_bgid ?p)
              else Op_read_buffer_select ?fd (word_of_int sz) off (bp_bgid ?p)"])
          (auto simp: read_dispatcher_def Let_def)
    next
      case other: False
      with False show ?thesis
        by (intro exI [of _ "Op_read ?fd (linear_buffer ?p) (word_of_int sz) off"])
          (cases "bp_mode ?p"; simp add: read_dispatcher_def Let_def)
    qed
  qed
qed simp_all

lemma readv_dispatcher_op: "world_op L (\<lambda>i. readv_dispatcher L self a i off nw tp)"
proof (rule world_op_choice [where tp = tp and f = "\<lambda>i w.
      if bp_mode (w_pay w a) = PROVIDED \<or> bp_mode (w_pay w a) = BUF_RING then check_linear (w_pay w a) w
      else check_vector (w_pay w a) w"])
  fix i and w :: world
  let ?p = "w_pay w a" and ?fd = "uf_fd (w_files w self)"
  show "\<exists>c. readv_dispatcher L self a i off nw tp w = ring_op (\<lambda>r. run_op c L r i tp)
      (if bp_mode ?p = PROVIDED \<or> bp_mode ?p = BUF_RING then check_linear ?p w else check_vector ?p w)"
    by (intro exI [of _ "if bp_mode ?p = PROVIDED \<or> bp_mode ?p = BUF_RING
        then Op_readv_buffer_select ?fd (word_of_int (linear_len ?p)) off (bp_bgid ?p) nw
        else Op_readv ?fd (vector_iovecs ?p) (vector_nr ?p) off nw"])
      (auto simp: readv_dispatcher_def Let_def)
qed simp_all

lemma write_dispatcher_op: "world_op L (\<lambda>i. write_dispatcher L self a i off tp)"
proof (rule world_op_choice [where tp = tp and f = "\<lambda>i w.
      check_linear (w_pay w a) (if bp_mode (w_pay w a) = FIXED then snd (take_buffer_idx a w) else w)"])
  fix i and w :: world
  let ?p = "w_pay w a" and ?fd = "uf_fd (w_files w self)"
  show "\<exists>c. write_dispatcher L self a i off tp w = ring_op (\<lambda>r. run_op c L r i tp)
      (check_linear ?p (if bp_mode ?p = FIXED then snd (take_buffer_idx a w) else w))"
    by (intro exI [of _ "if bp_mode ?p = FIXED
        then Op_write_fixed ?fd (linear_buffer ?p) (word_of_int (linear_len ?p)) off (fst (take_buffer_idx a w))
        else Op_write ?fd (linear_buffer ?p) (word_of_int (linear_len ?p)) off"])
      (auto simp: write_dispatcher_def case_prod_beta Let_def)
qed simp_all

interpretation read_disp: world_op L "\<lambda>i. read_dispatcher L self a st i sz off tp" for L self a st sz off tp
  by (rule read_dispatcher_op)

interpretation readv_disp: world_op L "\<lambda>i. readv_dispatcher L self a i off nw tp" for L self a off nw tp
  by (rule readv_dispatcher_op)

interpretation write_disp: world_op L "\<lambda>i. write_dispatcher L self a i off tp" for L self a off tp
  by (rule write_dispatcher_op)

section \<open>Methods start requests\<close>

text \<open>
  \<open>method_ok oc m\<close>: whatever the state, \<open>m\<close> raises and starts nothing, or starts one request with opcode
  \<open>oc\<close>. The rules follow the combinators the methods are made of.
\<close>

definition method_ok :: "int \<Rightarrow> (world \<Rightarrow> nat option \<times> world) \<Rightarrow> bool" where
  "method_ok oc m \<longleftrightarrow> (\<forall>w. reg_inv (w_reg w) \<longrightarrow> starts_request w oc (fst (m w)) (snd (m w)))"

lemma method_okD: "method_ok oc m \<Longrightarrow> reg_inv (w_reg w) \<Longrightarrow> starts_request w oc (fst (m w)) (snd (m w))"
  by (simp add: method_ok_def)

lemma method_ok_guarded:
  assumes "\<And>x. method_ok oc (k x)"
  shows "method_ok oc (guarded g args k)"
  using assms by (auto simp: method_ok_def guarded_def starts_request_none split: option.splits)

lemma guarded_starts:
  assumes "\<And>x. method_ok oc (k x)" and "reg_inv (w_reg w)"
  shows "starts_request w oc (fst (guarded g args k w)) (snd (guarded g args k w))"
  by (rule method_okD [OF method_ok_guarded [OF assms(1)] assms(2)])

lemma method_ok_case_prod:
  assumes "\<And>a b. method_ok oc (f a b)"
  shows "method_ok oc (case x of (a, b) \<Rightarrow> f a b)"
  using assms by (cases x) simp

lemma method_ok_prefix:
  assumes "method_ok oc m" and "same_core w w1" and "reg_inv (w_reg w)"
  shows "starts_request w oc (fst (m w1)) (snd (m w1))"
  by (rule starts_request_prefix [OF assms(2) method_okD [OF assms(1) reg_inv_core [OF assms(2,3)]]])

lemma method_ok_timeout:
  assumes "\<And>w. same_core w (on_error w)" and "\<And>tp. method_ok oc (k tp)"
  shows "method_ok oc (with_timeout obj on_error k)"
  unfolding method_ok_def
proof (intro allI impI)
  fix w :: world assume inv: "reg_inv (w_reg w)"
  obtain ret tp e where p: "parse_timeout_params obj zero_timeout = (ret, tp, e)" using prod_cases3 by blast
  have c: "same_core w (raise_opt e w)" by simp
  show "starts_request w oc (fst (with_timeout obj on_error k w)) (snd (with_timeout obj on_error k w))"
  proof (cases "ret < 0")
    case True
    with p starts_request_none [OF inv same_core_trans [OF c assms(1)]] show ?thesis
      by (simp add: with_timeout_def)
  next
    case False
    with p method_ok_prefix [OF assms(2) c inv] show ?thesis by (simp add: with_timeout_def)
  qed
qed

lemma method_ok_future:
  assumes "\<And>w. same_core w (on_error w)" and "\<And>fu. method_ok oc (k fu)"
  shows "method_ok oc (with_future on_error k)"
  unfolding method_ok_def
proof (intro allI impI)
  fix w :: world assume inv: "reg_inv (w_reg w)"
  obtain q w1 where c: "create_future w = (q, w1)" by force
  note sc = same_core_create_future [OF c]
  show "starts_request w oc (fst (with_future on_error k w)) (snd (with_future on_error k w))"
    using c starts_request_none [OF inv same_core_trans [OF sc assms(1)]] method_ok_prefix [OF assms(2) sc inv]
    by (cases q) (simp_all add: with_future_def)
qed

lemma method_ok_payload:
  assumes "\<And>w q w'. mk w = (q, w') \<Longrightarrow> same_core w w'" and "\<And>w. same_core w (on_error w)"
    and "\<And>a. method_ok oc (k a)"
  shows "method_ok oc (with_payload mk on_error k)"
  unfolding method_ok_def
proof (intro allI impI)
  fix w :: world assume inv: "reg_inv (w_reg w)"
  obtain q w1 where c: "mk w = (q, w1)" by force
  note sc = assms(1) [OF c]
  show "starts_request w oc (fst (with_payload mk on_error k w)) (snd (with_payload mk on_error k w))"
    using c starts_request_none [OF inv same_core_trans [OF sc assms(2)]] method_ok_prefix [OF assms(3) sc inv]
    by (cases q) (simp_all add: with_payload_def)
qed

lemma method_ok_stream:
  assumes "\<And>st. method_ok oc (k st)"
  shows "method_ok oc (\<lambda>w. let (st, w1) = get_stream_strategy w in k st w1)"
  unfolding method_ok_def
proof (intro allI impI)
  fix w :: world assume inv: "reg_inv (w_reg w)"
  obtain st w1 where c: "get_stream_strategy w = (st, w1)" by force
  from method_ok_prefix [OF assms same_core_stream [OF c] inv] c
  show "starts_request w oc (fst (let (st, w1) = get_stream_strategy w in k st w1))
      (snd (let (st, w1) = get_stream_strategy w in k st w1))" by simp
qed

lemma method_ok_submit:
  assumes "liburing_ok L" and "\<And>w. world_op L (op w)" and "\<And>w. same_core w (cleanup w)" and "\<And>w. same_core w (undo w)"
  shows "method_ok oc (\<lambda>w. submit_request e2 undo cleanup fu bp st oc fi so ad ms (op w) w)"
  unfolding method_ok_def
proof (intro allI impI)
  fix w :: world assume inv: "reg_inv (w_reg w)"
  show "starts_request w oc (fst (submit_request e2 undo cleanup fu bp st oc fi so ad ms (op w) w))
      (snd (submit_request e2 undo cleanup fu bp st oc fi so ad ms (op w) w))"
    by (rule world_op.submit_request_starts [OF assms(2,1) inv assms(3,4) prod.collapse [symmetric]])
qed

lemma method_ok_file_request:
  assumes "liburing_ok L" and "\<And>w. world_op L (op w)"
  shows "method_ok oc (\<lambda>w. file_request self fu bp st oc (op w) w)"
  unfolding file_request_def by (rule method_ok_submit [OF assms]) simp_all

lemma method_ok_file_request_const:
  assumes "liburing_ok L" and "world_op L op"
  shows "method_ok oc (file_request self fu bp st oc op)"
  using method_ok_file_request [OF assms(1), of "\<lambda>_. op"] assms(2) by simp

lemma file_wrapper_ops:
  "world_op L (\<lambda>i. ring_op (\<lambda>r. uringio_close_file L r i fd tp))"
  "world_op L (\<lambda>i. ring_op (\<lambda>r. uringio_fsync L r i fd tp))"
  "world_op L (\<lambda>i. ring_op (\<lambda>r. uringio_fdatasync L r i fd tp))"
  "world_op L (\<lambda>i. ring_op (\<lambda>r. uringio_splice L r i fin oin fout oout n fl tp))"
  "world_op L (\<lambda>i. ring_op (\<lambda>r. uringio_readv L r i fd iovs nr off nw tp))"
  "world_op L (\<lambda>i. ring_op (\<lambda>r. uringio_writev L r i fd iovs nr off fl tp))"
  "world_op L (\<lambda>i. ring_op (\<lambda>r. open_file L r i dfd path fl res mode tp))"
  using world_op_wrapper [of L "Op_close_file fd" tp] world_op_wrapper [of L "Op_fsync fd" tp]
    world_op_wrapper [of L "Op_fdatasync fd" tp] world_op_wrapper [of L "Op_splice fin oin fout oout n fl" tp]
    world_op_wrapper [of L "Op_readv fd iovs nr off nw" tp] world_op_wrapper [of L "Op_writev fd iovs nr off fl" tp]
    world_op_wrapper [of L "Op_open_file dfd path fl res mode" tp] by simp_all

lemma same_core_readv_payload: "readv_payload b w = (q, w') \<Longrightarrow> same_core w w'"
proof -
  assume r: "readv_payload b w = (q, w')"
  obtain ctx w1 where c: "get_buffer_ctx w = (ctx, w1)" by force
  note sc = same_core_get_buffer_ctx [OF c]
  show ?thesis
    using r c sc same_core_trans [OF sc same_core_payloads(3) [of b w1 q w']]
    by (auto simp: readv_payload_def split: option.splits prod.splits if_splits)
qed

lemma same_core_raw_payload: "raw_payload rl item ct iovs w = (q, w') \<Longrightarrow> same_core w w'"
proof -
  assume r: "raw_payload rl item ct iovs w = (q, w')"
  obtain g h where g: "get_buffer item (w_heap w) = (g, h)" by force
  have c0: "same_core w (w\<lparr>w_heap := h\<rparr>)" by (simp add: same_core_def)
  show ?thesis
  proof (cases g)
    case None
    with r g show ?thesis by (auto simp: raw_payload_def same_core_def)
  next
    case (Some x)
    obtain v b len where x: "x = (v, b, len)" using prod_cases3 by blast
    obtain pq w2 where p: "payload_from_pybuffer v iovs (w\<lparr>w_heap := h\<rparr>) = (pq, w2)" by force
    have c2: "same_core w w2" by (rule same_core_trans [OF c0 same_core_payloads(2) [OF p]])
    with r g Some x p show ?thesis
      by (auto simp: raw_payload_def same_core_def Let_def split: if_splits option.splits)
  qed
qed

lemmas method_rules = method_ok_guarded method_ok_case_prod method_ok_timeout method_ok_future method_ok_payload
  method_ok_stream

lemmas core_rules = same_core_refl same_core_steps same_core_payloads same_core_readv_payload
  same_core_raw_payload

text \<open>The methods of a file, with their arguments.\<close>

datatype file_call =
    Call_close "pyobj option option"
  | Call_read "(int \<times> int \<times> pyobj option) option"
  | Call_readv "(pyseq option \<times> int \<times> int \<times> pyobj option) option"
  | Call_readv_raw "(pyitem \<times> bool \<times> iovec list \<times> int \<times> int \<times> pyobj option) option"
  | Call_write "(pyitem \<times> int \<times> pyobj option) option"
  | Call_writev "(pyseq option \<times> int \<times> int \<times> pyobj option) option"
  | Call_writev_raw "(pyitem \<times> bool \<times> iovec list \<times> int \<times> int \<times> pyobj option) option"
  | Call_fsync "pyobj option option"
  | Call_fdatasync "pyobj option option"
  | Call_splice "(int \<times> int \<times> int \<times> int \<times> int \<times> int \<times> pyobj option) option"

fun file_method :: "file_call \<Rightarrow> liburing \<Rightarrow> nat \<Rightarrow> world \<Rightarrow> nat option \<times> world" where
  "file_method (Call_close a) L self w = UringioFile_close L self a w"
| "file_method (Call_read a) L self w = UringioFile_read L self a w"
| "file_method (Call_readv a) L self w = UringioFile_readv L self a w"
| "file_method (Call_readv_raw a) L self w = UringioFile_readv_raw L self a w"
| "file_method (Call_write a) L self w = UringioFile_write L self a w"
| "file_method (Call_writev a) L self w = UringioFile_writev L self a w"
| "file_method (Call_writev_raw a) L self w = UringioFile_writev_raw L self a w"
| "file_method (Call_fsync a) L self w = UringioFile_fsync L self a w"
| "file_method (Call_fdatasync a) L self w = UringioFile_fdatasync L self a w"
| "file_method (Call_splice a) L self w = UringioFile_splice L self a w"

fun file_opcode :: "file_call \<Rightarrow> int" where
  "file_opcode (Call_close _) = IORING_OP_CLOSE"
| "file_opcode (Call_read _) = IORING_OP_READ"
| "file_opcode (Call_readv _) = IORING_OP_READV"
| "file_opcode (Call_readv_raw _) = IORING_OP_READV"
| "file_opcode (Call_write _) = IORING_OP_WRITE"
| "file_opcode (Call_writev _) = IORING_OP_WRITEV"
| "file_opcode (Call_writev_raw _) = IORING_OP_WRITEV"
| "file_opcode (Call_fsync _) = IORING_OP_FSYNC"
| "file_opcode (Call_fdatasync _) = IORING_OP_FSYNC"
| "file_opcode (Call_splice _) = IORING_OP_SPLICE"

lemmas file_method_defs = UringioFile_close_def UringioFile_read_def UringioFile_readv_def UringioFile_readv_raw_def
  UringioFile_write_def UringioFile_writev_def UringioFile_writev_raw_def UringioFile_fsync_def
  UringioFile_fdatasync_def UringioFile_splice_def

lemma file_methods_ok:
  assumes ok: "liburing_ok L" and inv: "reg_inv (w_reg w)"
  shows "starts_request w (file_opcode c) (fst (file_method c L self w)) (snd (file_method c L self w))"
proof -
  note requests = method_ok_file_request_const [OF ok] method_ok_file_request [OF ok]
  show ?thesis
  proof (cases c)
  case (Call_close a)
  show ?thesis unfolding Call_close file_method.simps file_opcode.simps UringioFile_close_def
    by (rule guarded_starts [OF _ inv]) (intro method_rules core_rules requests file_wrapper_ops)
next
  case (Call_read a)
  show ?thesis unfolding Call_read file_method.simps file_opcode.simps UringioFile_read_def
    by (rule guarded_starts [OF _ inv]) (intro method_rules core_rules requests read_dispatcher_op)
next
  case (Call_readv a)
  show ?thesis unfolding Call_readv file_method.simps file_opcode.simps UringioFile_readv_def
    by (rule guarded_starts [OF _ inv]) (intro method_rules core_rules requests readv_dispatcher_op)
next
  case (Call_readv_raw a)
  show ?thesis unfolding Call_readv_raw file_method.simps file_opcode.simps UringioFile_readv_raw_def
    by (rule guarded_starts [OF _ inv]) (intro method_rules core_rules requests file_wrapper_ops)
next
  case (Call_write a)
  show ?thesis unfolding Call_write file_method.simps file_opcode.simps UringioFile_write_def
    by (rule guarded_starts [OF _ inv]) (intro method_rules core_rules requests write_dispatcher_op)
next
  case (Call_writev a)
  show ?thesis unfolding Call_writev file_method.simps file_opcode.simps UringioFile_writev_def
    by (rule guarded_starts [OF _ inv]) (intro method_rules core_rules requests file_wrapper_ops)
next
  case (Call_writev_raw a)
  show ?thesis unfolding Call_writev_raw file_method.simps file_opcode.simps UringioFile_writev_raw_def
    by (rule guarded_starts [OF _ inv]) (intro method_rules core_rules requests file_wrapper_ops)
next
  case (Call_fsync a)
  show ?thesis unfolding Call_fsync file_method.simps file_opcode.simps UringioFile_fsync_def
    by (rule guarded_starts [OF _ inv]) (intro method_rules core_rules requests file_wrapper_ops)
next
  case (Call_fdatasync a)
  show ?thesis unfolding Call_fdatasync file_method.simps file_opcode.simps UringioFile_fdatasync_def
    by (rule guarded_starts [OF _ inv]) (intro method_rules core_rules requests file_wrapper_ops)
next
  case (Call_splice a)
  show ?thesis unfolding Call_splice file_method.simps file_opcode.simps UringioFile_splice_def
    by (rule guarded_starts [OF _ inv]) (intro method_rules core_rules requests file_wrapper_ops)
  qed
qed

lemma open_ok:
  assumes ok: "liburing_ok L" and inv: "reg_inv (w_reg w)"
  shows "starts_request w IORING_OP_OPENAT2 (fst (Uringio_open L running args w)) (snd (Uringio_open L running args w))"
proof -
  let ?body = "\<lambda>fo path dfd flags resolve mode to_obj. with_timeout to_obj (on_heap (py_decref fo)) (\<lambda>tp.
       with_future (on_heap (py_decref fo)) (\<lambda>fu.
         submit_request None (on_heap (py_decref fo)) (\<lambda>w. w) fu None ONESHOT IORING_OP_OPENAT2 (Some fo)
           None None None (\<lambda>i. ring_op (\<lambda>r. open_file L r i dfd path flags resolve (word_of_int mode) tp))))"
  have body: "method_ok IORING_OP_OPENAT2 (?body fo path dfd flags resolve mode to_obj)"
    for fo path dfd flags resolve mode to_obj
    by (intro method_ok_timeout method_ok_future core_rules
        method_ok_submit [OF ok, where op = "\<lambda>_. op" for op] file_wrapper_ops)
  obtain q w1 where n: "py_new MemoryError w = (q, w1)" by force
  have c1: "same_core w w1" using n by (auto simp: py_new_def same_core_def Let_def split: if_splits)
  show ?thesis
  proof (cases q)
    case None
    with n starts_request_none [OF inv c1] starts_request_none [OF inv same_core_steps(1)] show ?thesis
      by (auto simp: Uringio_open_def split: option.splits)
  next
    case (Some fo)
    let ?w2 = "w1\<lparr>w_files := (w_files w1)(fo := (w_files w1 fo)\<lparr>uf_closed := False\<rparr>)\<rparr>"
    have c2: "same_core w ?w2" using c1 by (simp add: same_core_def)
    have c3: "same_core w (on_heap f (set_err e ?w2))" "same_core w (set_err e (on_heap f ?w2))" for f e
      using c2 by (simp_all add: same_core_def)
    note none = starts_request_none [OF inv]
    show ?thesis
      using n Some none [OF c3(1)] none [OF c3(2)] none [OF same_core_steps(1)] method_ok_prefix [OF body c2 inv]
      by (auto simp: Uringio_open_def Let_def split: option.splits)
  qed
qed

section \<open>Leaving a block\<close>

lemma starts_request_post: "starts_request w oc q w1 \<Longrightarrow> same_core w1 w2 \<Longrightarrow> starts_request w oc q w2"
  by (simp add: starts_request_def same_core_def split: option.splits)

lemma set_file_closed_core [simp]:
  "same_core w (set_file_closed b self w)" "w_err (set_file_closed b self w) = w_err w"
  "uf_closed (w_files (set_file_closed b self w) self) = b" "uf_fd (w_files (set_file_closed b self w) x) = uf_fd (w_files w x)"
  by (simp_all add: set_file_closed_def same_core_def)

lemma set_file_closed_ring_op:
  "ring_op f (set_file_closed b self w) = (fst (ring_op f w), set_file_closed b self (snd (ring_op f w)))"
  by (simp add: ring_op_def set_file_closed_def case_prod_beta)

lemma set_file_closed_commute:
  "set_err e (set_file_closed b self w) = set_file_closed b self (set_err e w)"
  "raise_opt eo (set_file_closed b self w) = set_file_closed b self (raise_opt eo w)"
  "on_heap f (set_file_closed b self w) = set_file_closed b self (on_heap f w)"
  "remove_request i (set_file_closed b self w) = set_file_closed b self (remove_request i w)"
proof -
  show "set_err e (set_file_closed b self w) = set_file_closed b self (set_err e w)" for e
    by (simp add: set_file_closed_def set_err_def)
  then show "raise_opt eo (set_file_closed b self w) = set_file_closed b self (raise_opt eo w)"
    by (cases eo) (simp_all add: raise_opt_def)
  show "on_heap f (set_file_closed b self w) = set_file_closed b self (on_heap f w)"
    by (simp add: set_file_closed_def on_heap_def)
  show "remove_request i (set_file_closed b self w) = set_file_closed b self (remove_request i w)"
    by (cases "registry_remove (w_pay w) (w_reg w) i (w_heap w)")
      (auto simp: set_file_closed_def remove_request_def)
qed

lemma set_file_closed_failed:
  "snd (submission_failed t e2 (\<lambda>w. w) fu i (set_file_closed b self w)) =
     set_file_closed b self (snd (submission_failed t e2 (\<lambda>w. w) fu i w))"
  by (simp add: submission_failed_def Let_def set_file_closed_commute)

lemma submission_failed_err:
  "t \<in> {- 1, 0} \<Longrightarrow> w_err (snd (submission_failed t e2 (\<lambda>w. w) fu i w)) \<noteq> None"
  by (auto simp: submission_failed_def remove_request_def split: option.splits)

lemma set_data_and_submit_range: "fst (set_data_and_submit L sqe i r) \<in> {0, 1}"
  by (simp add: set_data_and_submit_def Let_def case_prod_beta)

lemma close_file_range:
  assumes "liburing_ok L"
  shows "fst (uringio_close_file L r i fd tp) \<in> {- 1, 0, 1}"
  unfolding uringio_close_file_def Let_def
  using macro_effect [OF assms refl, of r tp "\<lambda>sqe r1. set_data_and_submit L sqe i (with_sqe sqe (io_uring_prep L (Prep_close fd)) r1)"]
    set_data_and_submit_range
  by (elim disjE exE conjE) force+

section \<open>Properties\<close>



text \<open>
  C30. A method called on a closed file, from another thread, or on a loop that is closing, raises and changes
  nothing else: no object is created, nothing is registered and nothing is queued.
\<close>

theorem file_methods_guarded:
  assumes "uf_closed (w_files w self) \<or> w_closed w \<or> w_tid w \<noteq> w_loop_tid w"
  shows "\<exists>e. file_method c L self w = (None, set_err e w)"
proof -
  have "file_guard self w \<noteq> None"
    using assms by (auto simp: file_guard_def loop_guard_def ASSERT_LOOP_THREAD_def
        ASSERT_RING_LOOP_IS_CLOSING_def split: option.splits if_splits)
  then obtain e where "file_guard self w = Some e" by blast
  then show ?thesis
    by (cases c) (simp_all add: file_method_defs guarded_def exI [of _ e])
qed

theorem file_methods_guarded_witness:
  "\<exists>e. UringioFile_fsync (lib_model 256 False) 9 (Some None) (init_world\<lparr>w_closed := True\<rparr>) =
     (None, set_err e (init_world\<lparr>w_closed := True\<rparr>))"
  using file_methods_guarded [of "init_world\<lparr>w_closed := True\<rparr>" 9 "Call_fsync (Some None)" "lib_model 256 False"]
  by simp

text \<open>
  The exception of an \<^verbatim>\<open>async with\<close> body that is being unwound, joined with the one just raised; and what is
  then set: any exception when the body had none, otherwise the body's own or a group that holds it.
\<close>

abbreviation join_body :: "pyexc option \<Rightarrow> world \<Rightarrow> world" where
  "join_body exc w \<equiv> (case exc of None \<Rightarrow> w | Some e \<Rightarrow> raise_exception_group e w)"

abbreviation body_kept :: "pyexc option \<Rightarrow> pyexc \<Rightarrow> bool" where
  "body_kept exc e \<equiv> (case exc of None \<Rightarrow> True | Some b \<Rightarrow> e = b \<or> (\<exists>c. e = ExceptionGroup b c))"

lemma join_body_core: "same_core x (join_body exc x)" "w_files (join_body exc x) = w_files x"
  by (auto simp: raise_exception_group_def split: option.splits)

lemma join_body_error: "w_err x \<noteq> None \<Longrightarrow> \<exists>e. w_err (join_body exc x) = Some e \<and> body_kept exc e"
  by (auto simp: raise_exception_group_def split: option.splits)

text \<open>The three ways a call of \<^verbatim>\<open>aexit\<close> that has its future ends, beside the shared submission.\<close>

lemma file_aexit_refused:
  assumes reg: "register_request fu None ONESHOT IORING_OP_CLOSE (Some self) None None None w1 = (i, w2)" and i: "i < 0"
    and cf: "create_future w = (Some fu, w1)" and r: "UringioFile_aexit L self (Some exc) w = (q, w')"
  shows "q = None" and "same_core (on_heap (py_decref fu) w2) w'" and "w_files w' = w_files w2"
    and "w_err w2 = None \<Longrightarrow> \<exists>e. w_err w' = Some e \<and> body_kept exc e"
    and "submit_request None (\<lambda>w. w) (\<lambda>w. w) fu None ONESHOT IORING_OP_CLOSE (Some self) None None None op w1 =
      (None, set_err (RuntimeError ''Registry is full'') (on_heap (py_decref fu) w2))"
  using assms by (auto simp: UringioFile_aexit_def Let_def submit_request_def raise_exception_group_def
      split: option.splits)

lemma file_aexit_submitted:
  assumes reg: "register_request fu None ONESHOT IORING_OP_CLOSE (Some self) None None None w1 = (i, w2)" and i: "0 \<le> i"
    and cf: "create_future w = (Some fu, w1)" and r: "UringioFile_aexit L self (Some exc) w = (q, w')"
    and op: "op = (\<lambda>i. ring_op (\<lambda>r. uringio_close_file L r i (uf_fd (w_files w self)) zero_timeout))"
    and files: "w_files w2 = w_files w"
  shows "fst (op i w2) < 1 \<Longrightarrow> q = None \<and> w' = join_body exc (set_file_closed False self (set_file_closed True self
      (snd (submission_failed (fst (op i w2)) None (\<lambda>w. w) fu i (snd (op i w2))))))"
    and "1 \<le> fst (op i w2) \<Longrightarrow> q = Some fu \<and> w' = set_file_closed True self (snd (op i w2))"
proof -
  have "ring_op (\<lambda>r. uringio_close_file L r i (uf_fd (w_files w self)) zero_timeout) (set_file_closed True self w2) =
      (fst (op i w2), set_file_closed True self (snd (op i w2)))"
    by (simp add: set_file_closed_ring_op op)
  note run = this cf reg files
  show "q = None \<and> w' = join_body exc (set_file_closed False self (set_file_closed True self
      (snd (submission_failed (fst (op i w2)) None (\<lambda>w. w) fu i (snd (op i w2))))))" if "fst (op i w2) < 1"
    using r that i by (simp add: UringioFile_aexit_def Let_def run set_file_closed_failed)
  show "q = Some fu \<and> w' = set_file_closed True self (snd (op i w2))" if "1 \<le> fst (op i w2)"
    using r that i by (simp add: UringioFile_aexit_def Let_def run)
qed

lemma file_aexit_effect:
  assumes ok: "liburing_ok L" and inv: "reg_inv (w_reg w)" and r: "UringioFile_aexit L self (Some exc) w = (q, w')"
  shows "starts_request w IORING_OP_CLOSE q w' \<and>
    (\<not> uf_closed (w_files w self) \<longrightarrow> (uf_closed (w_files w' self) \<longleftrightarrow> q \<noteq> None)) \<and>
    (w_err w = None \<longrightarrow> q = None \<longrightarrow> (\<exists>e. w_err w' = Some e \<and> body_kept exc e))"
proof -
  obtain fq w1 where cf: "create_future w = (fq, w1)" by force
  note c1 = same_core_create_future [OF cf] and cs = create_future_simps [OF cf]
  show ?thesis
  proof (cases fq)
    case None
    with r cf have q: "q = None" "w' = join_body exc w1" by (simp_all add: UringioFile_aexit_def Let_def)
    then show ?thesis
      using starts_request_none [OF inv same_core_trans [OF c1 join_body_core(1)]] join_body_error [of w1] cs(5,9) None
      by (simp add: join_body_core(2))
  next
    case (Some fu)
    obtain i w2 where reg: "register_request fu None ONESHOT IORING_OP_CLOSE (Some self) None None None w1 = (i, w2)" by force
    define op where "op = (\<lambda>i. ring_op (\<lambda>r. uringio_close_file L r i (uf_fd (w_files w self)) zero_timeout))"
    let ?sub = "submit_request None (\<lambda>w. w) (\<lambda>w. w) fu None ONESHOT IORING_OP_CLOSE (Some self) None None None op w1"
    have "world_op L op" unfolding op_def by (rule file_wrapper_ops)
    then have st: "starts_request w IORING_OP_CLOSE (fst ?sub) (snd ?sub)"
      by (rule starts_request_prefix [OF c1 world_op.submit_request_starts [OF _ ok reg_inv_core [OF c1 inv] _ _
            prod.collapse [symmetric]]]) simp_all
    have w2: "w_files w2 = w_files w" "w_err w2 = w_err w"
      using reg cs(5,10) Some by (auto simp: register_request_def split: prod.splits)
    note sub = file_aexit_submitted [OF reg _ cf [unfolded Some] r op_def w2(1)]
    have rng: "fst (op i w2) \<in> {- 1, 0, 1}" using close_file_range [OF ok] by (simp add: op_def)
    consider (full) "i < 0" | (failed) "0 \<le> i" "fst (op i w2) < 1" | (accepted) "0 \<le> i" "1 \<le> fst (op i w2)" by linarith
    then show ?thesis
    proof cases
      case full
      note d = file_aexit_refused [OF reg full cf [unfolded Some] r]
      have "same_core (snd ?sub) w'"
        unfolding d(5) snd_conv by (rule same_core_trans [OF _ d(2)]) (simp add: same_core_def)
      then have "starts_request w IORING_OP_CLOSE q w'"
        using starts_request_post [OF st] d(1,5) by simp
      then show ?thesis using d(1,3,4) w2 by simp
    next
      case failed
      define w5 where "w5 = snd (submission_failed (fst (op i w2)) None (\<lambda>w. w) fu i (snd (op i w2)))"
      define w6 where "w6 = set_file_closed False self (set_file_closed True self w5)"
      have q: "q = None" "w' = join_body exc w6" using sub(1) [OF failed] unfolding w5_def w6_def by blast+
      have "same_core w5 w6"
        unfolding w6_def by (rule same_core_trans [OF set_file_closed_core(1) set_file_closed_core(1)])
      moreover have "?sub = (None, w5)"
        using reg failed by (simp add: submit_request_def w5_def case_prod_beta submission_failed_def)
      ultimately have "starts_request w IORING_OP_CLOSE q w'"
        using starts_request_post [OF st same_core_trans [OF _ join_body_core(1)]] by (simp add: q)
      moreover have "w_err w6 \<noteq> None"
        using submission_failed_err [of "fst (op i w2)" None fu i "snd (op i w2)"] rng failed by (auto simp: w6_def w5_def)
      ultimately show ?thesis using join_body_error [of w6] by (simp add: q join_body_core(2) w6_def)
    next
      case accepted
      then have "q = Some fu" "w' = set_file_closed True self (snd (op i w2))" using sub(2) by auto
      moreover have "?sub = (Some fu, snd (op i w2))"
        using reg accepted by (simp add: submit_request_def case_prod_beta)
      ultimately show ?thesis using starts_request_post [OF st] by simp
    qed
  qed
qed

lemma file_aexit_starts:
  assumes "liburing_ok L" and "reg_inv (w_reg w)"
  shows "starts_request w IORING_OP_CLOSE (fst (UringioFile_aexit L self args w)) (snd (UringioFile_aexit L self args w))"
proof (cases args)
  case None
  then show ?thesis using starts_request_none [OF assms(2) same_core_steps(1)] by (simp add: UringioFile_aexit_def)
next
  case (Some exc)
  then show ?thesis using file_aexit_effect [OF assms prod.collapse [symmetric]] by simp
qed



end
