(* ===== verification/Buffer_Modes.thy ===== *)
theory Buffer_Modes
  imports Ring_Timer Buffers
begin

text \<open>
  \<^verbatim>\<open>src/buffer_controllers/buffer_modes.c\<close>: registering buffers with the ring and taking them back. The registration
  functions of liburing are the fields of the record \<open>buf_api\<close>, an argument of the definitions; a ring of provided
  buffers is the memory the application shares with the kernel, its slots and its tail. What the code relies on is
  the predicate \<open>buf_api_ok\<close>, the documented behaviour of these functions.

  A pointer into a block is the block and an offset in bytes.
\<close>

record io_uring_buf =
  ub_addr :: data_ptr
  ub_off :: int
  ub_len :: u32
  ub_bid :: u16

record io_uring_buf_ring =
  br_bufs :: "io_uring_buf list"
  br_tail :: u16

record buf_api =
  io_uring_register_buffers :: "iovec list \<Rightarrow> u32 \<Rightarrow> io_uring \<Rightarrow> int \<times> io_uring"
  io_uring_unregister_buffers :: "io_uring \<Rightarrow> int \<times> io_uring"
  io_uring_setup_buf_ring :: "u32 \<Rightarrow> int \<Rightarrow> u32 \<Rightarrow> io_uring \<Rightarrow> (nat \<times> io_uring_buf_ring) option \<times> io_uring"
  io_uring_buf_ring_init :: "io_uring_buf_ring \<Rightarrow> io_uring_buf_ring"
  io_uring_buf_ring_mask :: "u32 \<Rightarrow> int"
  io_uring_buf_ring_add ::
    "data_ptr \<Rightarrow> int \<Rightarrow> u32 \<Rightarrow> u16 \<Rightarrow> int \<Rightarrow> int \<Rightarrow> io_uring_buf_ring \<Rightarrow> io_uring_buf_ring"
  io_uring_buf_ring_advance :: "int \<Rightarrow> io_uring_buf_ring \<Rightarrow> io_uring_buf_ring"
  io_uring_free_buf_ring :: "nat \<Rightarrow> u32 \<Rightarrow> int \<Rightarrow> io_uring \<Rightarrow> io_uring"

section \<open>The modes\<close>

definition init_fixed_mode :: "buf_api \<Rightarrow> iovec list \<Rightarrow> u32 \<Rightarrow> io_uring \<Rightarrow> int \<times> io_uring" where
  "init_fixed_mode B iovecs nr_iovecs r =
     (let (result, r1) = io_uring_register_buffers B iovecs nr_iovecs r
      in if result < 0 then (- 1, r1) else (1, r1))"

definition close_fixed_mode :: "buf_api \<Rightarrow> io_uring \<Rightarrow> int \<times> io_uring" where
  "close_fixed_mode B r =
     (let (result, r1) = io_uring_unregister_buffers B r in if result < 0 then (- 1, r1) else (1, r1))"

definition init_provided_mode ::
  "liburing \<Rightarrow> data_ptr \<Rightarrow> int \<Rightarrow> int \<Rightarrow> int \<Rightarrow> io_uring \<Rightarrow> int \<times> io_uring" where
  "init_provided_mode L addr len nr bgid r =
     SQE_WITH_OPTIONAL_TIMEOUT L r None (\<lambda>sqe r1.
       let r2 = with_sqe sqe (io_uring_prep L (Prep_provide_buffers addr len nr bgid 0)) r1;
           (result, r3) = io_uring_submit L r2
       in if result < 0 then (- 1, r3) else (1, r3))"

definition close_provided_mode :: "liburing \<Rightarrow> int \<Rightarrow> int \<Rightarrow> io_uring \<Rightarrow> int \<times> io_uring" where
  "close_provided_mode L nr bgid r =
     SQE_WITH_OPTIONAL_TIMEOUT L r None (\<lambda>sqe r1.
       let r2 = with_sqe sqe (io_uring_prep L (Prep_remove_buffers nr bgid)) r1;
           (result, r3) = io_uring_submit L r2
       in if result < 0 then (- 1, r3) else (1, r3))"

text \<open>The loop over the entries; \<open>i * len\<close> is computed in \<^verbatim>\<open>int\<close>.\<close>

definition buf_ring_add_all ::
  "buf_api \<Rightarrow> data_ptr \<Rightarrow> int \<Rightarrow> int \<Rightarrow> nat list \<Rightarrow> io_uring_buf_ring \<Rightarrow> io_uring_buf_ring" where
  "buf_ring_add_all B addr len msk is br =
     fold (\<lambda>i. io_uring_buf_ring_add B addr (c_int (int i * len)) (word_of_int len) (word_of_nat i) msk (int i)) is br"

definition init_buf_ring_mode ::
  "buf_api \<Rightarrow> data_ptr \<Rightarrow> int \<Rightarrow> int \<Rightarrow> int \<Rightarrow> io_uring \<Rightarrow> (nat \<times> io_uring_buf_ring) option \<times> io_uring" where
  "init_buf_ring_mode B addr len nentries bgid r =
     (case io_uring_setup_buf_ring B (word_of_int nentries) bgid 0 r of
        (None, r1) \<Rightarrow> (None, r1)
      | (Some (a, br), r1) \<Rightarrow>
          (let br1 = io_uring_buf_ring_init B br;
               mask = io_uring_buf_ring_mask B (word_of_int nentries);
               br2 = buf_ring_add_all B addr len mask [0..<nat nentries] br1
           in (Some (a, io_uring_buf_ring_advance B nentries br2), r1)))"

definition close_buf_ring_mode :: "buf_api \<Rightarrow> nat option \<Rightarrow> int \<Rightarrow> int \<Rightarrow> io_uring \<Rightarrow> int \<times> io_uring" where
  "close_buf_ring_mode B buffer_ring nentries bgid r =
     (case buffer_ring of
        None \<Rightarrow> (- 1, r)
      | Some a \<Rightarrow> (1, io_uring_free_buf_ring B a (word_of_int nentries) bgid r))"

section \<open>What the manual pages promise\<close>

text \<open>
  \<^verbatim>\<open>io_uring_setup_buf_ring\<close> succeeds only for a power of two up to \<^verbatim>\<open>2\<^sup>1\<^sup>5\<close>; the ring has that many slots. An added buffer
  goes to the slot at the given distance from the tail, modulo the size; \<^verbatim>\<open>advance\<close> moves the tail.
\<close>

definition setup_ok :: "buf_api \<Rightarrow> bool" where
  "setup_ok B \<longleftrightarrow>
     (\<forall>n bgid fl r a br r'. io_uring_setup_buf_ring B n bgid fl r = (Some (a, br), r') \<longrightarrow>
        (\<exists>k \<le> 15. n = 2 ^ k \<and> length (br_bufs br) = 2 ^ k))"

definition ring_memory_ok :: "buf_api \<Rightarrow> bool" where
  "ring_memory_ok B \<longleftrightarrow>
     (\<forall>br. io_uring_buf_ring_init B br = br\<lparr>br_tail := 0\<rparr>) \<and>
     (\<forall>n. io_uring_buf_ring_mask B n = sint (n - 1)) \<and>
     (\<forall>p off len bid mask i br.
        io_uring_buf_ring_add B p off len bid mask i br =
          br\<lparr>br_bufs := (br_bufs br)[nat ((uint (br_tail br) + i) AND mask) :=
                          \<lparr>ub_addr = p, ub_off = off, ub_len = len, ub_bid = bid\<rparr>]\<rparr>) \<and>
     (\<forall>n br. io_uring_buf_ring_advance B n br = br\<lparr>br_tail := br_tail br + word_of_int n\<rparr>)"

definition buf_api_ok :: "buf_api \<Rightarrow> bool" where
  "buf_api_ok B \<longleftrightarrow> setup_ok B \<and> ring_memory_ok B"

section \<open>The layout of a ring of buffers\<close>

text \<open>The entry the code means to add at position \<open>i\<close>.\<close>

definition entry_at :: "data_ptr \<Rightarrow> int \<Rightarrow> nat \<Rightarrow> io_uring_buf" where
  "entry_at addr len i = \<lparr>ub_addr = addr, ub_off = int i * len, ub_len = word_of_int len, ub_bid = word_of_nat i\<rparr>"

lemma int_and_exp_minus_1: "0 \<le> i \<Longrightarrow> i < 2 ^ k \<Longrightarrow> (i :: int) AND (2 ^ k - 1) = i"
  by (simp flip: mask_eq_exp_minus_1 add: take_bit_eq_mask [symmetric] take_bit_int_eq_self)

lemma sint_exp_minus_1:
  assumes "k \<le> 15"
  shows "sint ((2 :: u32) ^ k - 1) = 2 ^ k - 1"
proof -
  have le: "(2 :: int) ^ k \<le> 2 ^ 15" using assms by (intro power_increasing) simp_all
  have "(2 :: u32) ^ k - 1 = word_of_int (2 ^ k - 1)" by simp
  moreover have "- (2 ^ 31) \<le> (2 :: int) ^ k - 1" by (rule order_trans [of _ 0]) simp_all
  ultimately show ?thesis using le by (simp only: signed_of_int) (simp add: signed_take_bit_int_eq_self)
qed

lemma uint_exp_word: "k < LENGTH('a) \<Longrightarrow> uint ((2 :: 'a :: len word) ^ k) = 2 ^ k"
proof -
  assume "k < LENGTH('a)"
  moreover have "uint (word_of_int (2 ^ k) :: 'a word) = take_bit LENGTH('a) (2 ^ k)" by (simp add: unsigned_of_int del: of_int_power)
  ultimately show ?thesis by (simp add: take_bit_of_exp)
qed

lemma uint_exp_u32: "k \<le> 15 \<Longrightarrow> uint ((2 :: u32) ^ k) = 2 ^ k"
  by (simp add: uint_exp_word)

lemma buf_ring_add_all_upt:
  assumes ok: "ring_memory_ok B" and tail: "br_tail br = 0" and len: "length (br_bufs br) = 2 ^ k"
    and small: "0 \<le> l" "2 ^ k * l < 2 ^ 31"
  shows "n \<le> 2 ^ k \<Longrightarrow> buf_ring_add_all B p l (2 ^ k - 1) [0..<n] br =
           br\<lparr>br_bufs := map (entry_at p l) [0..<n] @ drop n (br_bufs br)\<rparr>"
proof (induction n)
  case 0
  then show ?case by (simp add: buf_ring_add_all_def)
next
  case (Suc n)
  have "int n \<le> 2 ^ k" using Suc.prems by (simp flip: of_nat_le_iff)
  then have "int n * l \<le> 2 ^ k * l" using small by (intro mult_right_mono) simp_all
  then have off: "c_int (int n * l) = int n * l" using small by (intro c_int_id c_int_rangeI) simp_all
  have pos: "nat (int n AND (2 ^ k - 1)) = n"
    using Suc.prems int_and_exp_minus_1 [of "int n" k] by (simp flip: of_nat_less_iff)
  have "drop n (br_bufs br) = br_bufs br ! n # drop (Suc n) (br_bufs br)"
    using Suc.prems len by (simp add: Cons_nth_drop_Suc)
  then show ?case
    using Suc ok tail off pos
    by (simp add: buf_ring_add_all_def ring_memory_ok_def list_update_append entry_at_def)
qed

text \<open>
  C35. The ring of buffers \<^verbatim>\<open>init_buf_ring_mode\<close> publishes: when it returns a ring, the tail has moved over
  all its entries and entry number \<open>i\<close> is the range of \<open>len\<close> bytes at offset \<open>i * len\<close> from the address with buffer id
  \<open>i\<close>, for every \<open>i\<close> below the number of entries and in that order.
\<close>

theorem buf_ring_layout:
  assumes ok: "buf_api_ok B" and init: "init_buf_ring_mode B addr len nentries bgid r = (Some (a, br), r')"
    and n: "0 < nentries" "nentries < 2 ^ 31" and len: "0 \<le> len" "nentries * len < 2 ^ 31"
  shows "br_bufs br = map (entry_at addr len) [0..<nat nentries] \<and> uint (br_tail br) = nentries"
proof -
  obtain br0 where s: "io_uring_setup_buf_ring B (word_of_int nentries) bgid 0 r = (Some (a, br0), r')"
    and br: "br = io_uring_buf_ring_advance B nentries (buf_ring_add_all B addr len
                    (io_uring_buf_ring_mask B (word_of_int nentries)) [0..<nat nentries] (io_uring_buf_ring_init B br0))"
    using init by (auto simp: init_buf_ring_mode_def Let_def split: prod.splits option.splits)
  obtain k where k: "k \<le> 15" "word_of_int nentries = (2 :: u32) ^ k" "length (br_bufs br0) = 2 ^ k"
    using s ok unfolding buf_api_ok_def setup_ok_def by blast
  have le: "(2 :: int) ^ k \<le> 2 ^ 15" using k(1) by (intro power_increasing) simp_all
  have "uint (word_of_int nentries :: u32) = 2 ^ k" using k uint_exp_u32 by simp
  then have nk: "nentries = 2 ^ k" using n by (simp add: take_bit_int_eq_self unsigned_of_int)
  have mem: "ring_memory_ok B" using ok by (simp add: buf_api_ok_def)
  have mask: "io_uring_buf_ring_mask B (word_of_int nentries) = 2 ^ k - 1"
    using mem k sint_exp_minus_1 by (simp add: ring_memory_ok_def)
  have "buf_ring_add_all B addr len (2 ^ k - 1) [0..<2 ^ k] (br0\<lparr>br_tail := 0\<rparr>) =
          br0\<lparr>br_tail := 0, br_bufs := map (entry_at addr len) [0..<2 ^ k]\<rparr>"
    using buf_ring_add_all_upt [OF mem, of "br0\<lparr>br_tail := 0\<rparr>" k len "2 ^ k"] k len nk by simp
  then have "br = br0\<lparr>br_bufs := map (entry_at addr len) [0..<2 ^ k], br_tail := word_of_int nentries\<rparr>"
    using br mem nk mask by (simp add: ring_memory_ok_def nat_power_eq)
  then show ?thesis using nk k(1) by (simp add: nat_power_eq uint_exp_word)
qed

section \<open>An implementation of the interface\<close>

definition buf_model :: buf_api where
  "buf_model =
     \<lparr>io_uring_register_buffers = (\<lambda>_ _ r. (0, r)), io_uring_unregister_buffers = (\<lambda>r. (0, r)),
      io_uring_setup_buf_ring = (\<lambda>n _ _ r.
        if n \<in> set (map (\<lambda>k. 2 ^ k) [0..<16])
        then (Some (0, \<lparr>br_bufs = replicate (unat n) \<lparr>ub_addr = Null, ub_off = 0, ub_len = 0, ub_bid = 0\<rparr>, br_tail = 0\<rparr>), r)
        else (None, r)),
      io_uring_buf_ring_init = (\<lambda>br. br\<lparr>br_tail := 0\<rparr>),
      io_uring_buf_ring_mask = (\<lambda>n. sint (n - 1)),
      io_uring_buf_ring_add = (\<lambda>p off len bid mask i br.
        br\<lparr>br_bufs := (br_bufs br)[nat ((uint (br_tail br) + i) AND mask) :=
                        \<lparr>ub_addr = p, ub_off = off, ub_len = len, ub_bid = bid\<rparr>]\<rparr>),
      io_uring_buf_ring_advance = (\<lambda>n br. br\<lparr>br_tail := br_tail br + word_of_int n\<rparr>),
      io_uring_free_buf_ring = (\<lambda>_ _ _ r. r)\<rparr>"

lemma unat_exp_u32: "k \<le> 15 \<Longrightarrow> unat ((2 :: u32) ^ k) = 2 ^ k"
  using uint_exp_u32 [of k] by (simp flip: nat_uint_eq add: nat_power_eq)

lemma buf_model_ok [simp]: "buf_api_ok buf_model"
proof -
  have "setup_ok buf_model" by (auto simp: setup_ok_def buf_model_def unat_exp_u32 split: if_splits)
  then show ?thesis by (simp add: buf_api_ok_def ring_memory_ok_def buf_model_def)
qed

theorem buf_ring_layout_witness:
  "map ub_off (br_bufs (snd (the (fst (init_buf_ring_mode buf_model (Addr 7) 64 4 1 empty_ring))))) = [0, 64, 128, 192]"
proof -
  have "(4 :: u32) \<in> set (map (\<lambda>k. 2 ^ k) [0..<16])" by (auto intro: image_eqI [of _ _ 2])
  then obtain a br where i: "init_buf_ring_mode buf_model (Addr 7) 64 4 1 empty_ring = (Some (a, br), empty_ring)"
    by (auto simp: init_buf_ring_mode_def buf_model_def Let_def)
  have "br_bufs br = map (entry_at (Addr 7) 64) [0..<nat 4]" using buf_ring_layout [OF buf_model_ok i] by simp
  then show ?thesis using i by (simp add: entry_at_def upt_rec)
qed

end
