(* ===== verification/Context_Var.thy ===== *)
theory Context_Var
  imports File_Api Buffer_Modes
begin

text \<open>
  \<^verbatim>\<open>src/python_api/execution_context/contextvar.c\<close>: the context variable that holds the current execution context, as a
  capsule around a \<^verbatim>\<open>malloc\<close> block. The state \<open>cstate\<close> has the world of the loop, the value of the variable in the
  current Python context, the pointer of every capsule, the contents of the blocks, the tokens of \<^verbatim>\<open>ContextVar.set\<close>, and
  the four kinds of context managers.

  The methods of \<^verbatim>\<open>contextvars.ContextVar\<close> are those of the Python library: \<^verbatim>\<open>set\<close> returns a token that holds the old
  value, \<^verbatim>\<open>reset\<close> restores it once, and the variable, the tokens and the local pointers own references; a capsule
  with no reference left runs its destructor, which frees the block. An update of the interpreter's own mapping does
  not fail, and its reference to the variable as a key is not counted; every object made may fail.
\<close>

datatype ctxval = Unset | Py_None | Capsule nat

record token =
  tk_old :: ctxval
  tk_used :: bool

text \<open>The field \<^verbatim>\<open>token\<close> of a manager, which two of the constructors leave uninitialised.\<close>

datatype token_field = No_Token | Token nat | Uninit

record BufferModeCtx =
  bmc_payload :: BufferMode
  bmc_token :: token_field
  bmc_buffer_payload :: nat

record StreamStrategyCtx =
  ssc_payload :: StreamStrategy
  ssc_token :: token_field

record TransferModeCtx =
  tmc_payload :: TransferMode
  tmc_token :: token_field

record ExecutionContextCtx =
  ecc_payload :: nat
  ecc_token :: token_field
  ecc_buffer_payload :: nat

record cstate =
  cs_w :: world
  cs_var :: "nat option"
  cs_value :: ctxval
  cs_block :: "nat \<Rightarrow> nat"
  cs_ctx :: "nat \<Rightarrow> ExecutionContext"
  cs_tok :: "nat \<Rightarrow> token"
  cs_bm :: "nat \<Rightarrow> BufferModeCtx"
  cs_ss :: "nat \<Rightarrow> StreamStrategyCtx"
  cs_tm :: "nat \<Rightarrow> TransferModeCtx"
  cs_ec :: "nat \<Rightarrow> ExecutionContextCtx"
  cs_rings :: "nat \<Rightarrow> io_uring_buf_ring"

definition on_w :: "(world \<Rightarrow> world) \<Rightarrow> cstate \<Rightarrow> cstate" where
  "on_w f s = s\<lparr>cs_w := f (cs_w s)\<rparr>"

definition on_h :: "(heap \<Rightarrow> heap) \<Rightarrow> cstate \<Rightarrow> cstate" where
  "on_h f = on_w (on_heap f)"

abbreviation cs_heap :: "cstate \<Rightarrow> heap" where
  "cs_heap s \<equiv> w_heap (cs_w s)"

definition cs_raise :: "pyexc \<Rightarrow> cstate \<Rightarrow> cstate" where
  "cs_raise e = on_w (set_err e)"

section \<open>Objects\<close>

definition free_exec_context :: "nat \<Rightarrow> cstate \<Rightarrow> cstate" where
  "free_exec_context capsule s = on_h (c_free (Some (cs_block s capsule))) s"

definition cap_decref :: "nat \<Rightarrow> cstate \<Rightarrow> cstate" where
  "cap_decref c s =
     (let s1 = on_h (py_decref c) s in if h_ref (cs_heap s) c = 1 then free_exec_context c s1 else s1)"

fun val_incref :: "ctxval \<Rightarrow> cstate \<Rightarrow> cstate" where
  "val_incref (Capsule c) s = on_h (py_incref c) s"
| "val_incref _ s = s"

fun val_decref :: "ctxval \<Rightarrow> cstate \<Rightarrow> cstate" where
  "val_decref (Capsule c) s = cap_decref c s"
| "val_decref _ s = s"

definition tok_decref :: "nat \<Rightarrow> cstate \<Rightarrow> cstate" where
  "tok_decref t s =
     (let s1 = on_h (py_decref t) s in if h_ref (cs_heap s) t = 1 then val_decref (tk_old (cs_tok s t)) s1 else s1)"

definition cs_new :: "pyexc \<Rightarrow> cstate \<Rightarrow> nat option \<times> cstate" where
  "cs_new e s = (let (q, w) = py_new e (cs_w s) in (q, s\<lparr>cs_w := w\<rparr>))"

definition new_capsule :: "nat \<Rightarrow> cstate \<Rightarrow> nat option \<times> cstate" where
  "new_capsule ctx s =
     (case cs_new CalleeError s of
        (None, s1) \<Rightarrow> (None, s1) | (Some c, s1) \<Rightarrow> (Some c, s1\<lparr>cs_block := (cs_block s1)(c := ctx)\<rparr>))"

text \<open>
  The name object of a method call is made before the call and dropped after it.
\<close>

definition call_method :: "'a \<Rightarrow> (cstate \<Rightarrow> 'a \<times> cstate) \<Rightarrow> cstate \<Rightarrow> 'a \<times> cstate" where
  "call_method failed k s =
     (case cs_new CalleeError s of
        (None, s1) \<Rightarrow> (failed, s1)
      | (Some name, s1) \<Rightarrow> (let (x, s2) = k s1 in (x, on_h (py_decref name) s2)))"

section \<open>The variable\<close>

text \<open>The context the variable gives access to; \<open>w_context\<close> is kept equal to it.\<close>

definition current_context :: "cstate \<Rightarrow> ExecutionContext option" where
  "current_context s =
     (case cs_value s of Capsule c \<Rightarrow> Some (cs_ctx s (cs_block s c)) | _ \<Rightarrow> None)"

definition set_value :: "ctxval \<Rightarrow> cstate \<Rightarrow> cstate" where
  "set_value v s =
     (let s1 = s\<lparr>cs_value := v\<rparr> in on_w (\<lambda>w. w\<lparr>w_context := current_context s1\<rparr>) s1)"

text \<open>\<^verbatim>\<open>ContextVar.set\<close>: the reference to the old value goes from the variable to the token.\<close>

definition py_var_set :: "ctxval \<Rightarrow> cstate \<Rightarrow> nat option \<times> cstate" where
  "py_var_set v s =
     (case cs_new CalleeError s of
        (None, s1) \<Rightarrow> (None, s1)
      | (Some t, s1) \<Rightarrow>
          (Some t, set_value v (val_incref v
             (s1\<lparr>cs_tok := (cs_tok s1)(t := \<lparr>tk_old = cs_value s1, tk_used = False\<rparr>)\<rparr>))))"

text \<open>\<^verbatim>\<open>ContextVar.reset\<close>; a null token is a call without an argument.\<close>

definition py_var_reset :: "token_field \<Rightarrow> cstate \<Rightarrow> bool \<times> cstate" where
  "py_var_reset tok s =
     (case tok of
        No_Token \<Rightarrow> (False, cs_raise (TypeError ''ContextVar.reset() takes exactly one argument (0 given)'') s)
      | Uninit \<Rightarrow> (False, on_w (fault_at Indeterminate) s)
      | Token t \<Rightarrow>
          if tk_used (cs_tok s t) then (False, cs_raise (RuntimeError ''Token has already been used once'') s)
          else
            (let s1 = s\<lparr>cs_tok := (cs_tok s)(t := (cs_tok s t)\<lparr>tk_used := True\<rparr>)\<rparr>;
                 old = tk_old (cs_tok s t)
             in (True, val_decref (cs_value s) (set_value old (val_incref old s1)))))"

section \<open>The functions of the file\<close>

definition not_initialized :: pyexc where
  "not_initialized = RuntimeError ''ContextVar not initialized''"

definition ContextVar_set :: "ctxval \<Rightarrow> cstate \<Rightarrow> nat option \<times> cstate" where
  "ContextVar_set v s =
     (if cs_var s = None then (None, cs_raise not_initialized s) else call_method None (py_var_set v) s)"

definition ContextVar_reset :: "token_field \<Rightarrow> cstate \<Rightarrow> int \<times> cstate" where
  "ContextVar_reset tok s =
     (if cs_var s = None then (- 1, cs_raise not_initialized s)
      else let (ok, s1) = call_method False (py_var_reset tok) s in (if ok then 0 else - 1, s1))"

definition py_var_get :: "ctxval option \<Rightarrow> cstate \<Rightarrow> ctxval option \<times> cstate" where
  "py_var_get default_val s =
     (case cs_value s of
        Unset \<Rightarrow>
          (case default_val of
             None \<Rightarrow> (None, cs_raise CalleeError s) | Some v \<Rightarrow> (Some v, val_incref v s))
      | v \<Rightarrow> (Some v, val_incref v s))"

definition ContextVar_get :: "ctxval option \<Rightarrow> cstate \<Rightarrow> nat option \<times> cstate" where
  "ContextVar_get default_val s =
     (if cs_var s = None then (None, cs_raise not_initialized s)
      else
        let (capsule, s1) = call_method None (py_var_get default_val) s
        in case capsule of
             None \<Rightarrow> (None, s1)
           | Some (Capsule c) \<Rightarrow> (Some (cs_block s1 c), val_decref (Capsule c) s1)
           | Some v \<Rightarrow>
               (None, val_decref v (cs_raise (TypeError ''execution_context_var does not hold a capsule'') s1)))"

text \<open>The block of a context.\<close>

definition default_context :: ExecutionContext where
  "default_context =
     \<lparr>ec_buffer_mode = NORMAL_BUF, ec_stream = ONESHOT, ec_transfer_mode = NORMAL_TRANSFER, ec_buffer_payload = None\<rparr>"

definition cs_malloc :: "int \<Rightarrow> cstate \<Rightarrow> nat option \<times> cstate" where
  "cs_malloc sz s =
     (case c_malloc sz (cs_heap s) of
        (None, h) \<Rightarrow> (None, cs_raise MemoryError (on_h (\<lambda>_. h) s))
      | (Some b, h) \<Rightarrow> (Some b, on_h (\<lambda>_. h) s))"

text \<open>
  Making the variable: the module, the class and the variable itself are objects the interpreter hands out; the
  module and the class are dropped.
\<close>

definition make_variable :: "cstate \<Rightarrow> bool \<times> cstate" where
  "make_variable s =
     call_method False (call_method False (\<lambda>s1.
       case cs_new CalleeError s1 of (None, s2) \<Rightarrow> (False, s2\<lparr>cs_var := None\<rparr>) | (Some v, s2) \<Rightarrow> (True, s2\<lparr>cs_var := Some v\<rparr>))) s"

definition ContextVar_init :: "cstate \<Rightarrow> bool \<times> cstate" where
  "ContextVar_init s =
     (let (made, s1) = (case cs_var s of None \<Rightarrow> make_variable s | Some v \<Rightarrow> (True, on_h (py_incref v) s))
      in if \<not> made then (False, s1)
         else case cs_malloc 24 s1 of
                (None, s2) \<Rightarrow> (False, s2)
              | (Some b, s2) \<Rightarrow>
                  (case new_capsule b (s2\<lparr>cs_ctx := (cs_ctx s2)(b := default_context)\<rparr>) of
                     (None, s3) \<Rightarrow> (False, on_h (c_free (Some b)) s3)
                   | (Some c, s3) \<Rightarrow>
                       (case py_var_set (Capsule c) s3 of
                          (None, s4) \<Rightarrow> (False, cap_decref c s4)
                        | (Some t, s4) \<Rightarrow> (True, tok_decref t (cap_decref c s4)))))"

end
