(* ===== verification/Execution_Context.thy ===== *)
theory Execution_Context
  imports Context_Var
begin

text \<open>
  \<^verbatim>\<open>src/python_api/execution_context/execution_context.c\<close>: the constructors of the four context managers and their
  \<^verbatim>\<open>__enter__\<close> and \<^verbatim>\<open>__exit__\<close>. Entering a manager clones the current context, changes one component and makes the clone
  current; leaving it resets the variable with the token. An enumeration argument is the integer the interpreter
  stored.
\<close>

section \<open>Constructors\<close>

definition validate_buffer_mode :: "int \<Rightarrow> cstate \<Rightarrow> BufferMode \<times> cstate" where
  "validate_buffer_mode mode s =
     (if mode = 0 then (NORMAL_BUF, s) else if mode = 1 then (FIXED, s) else if mode = 2 then (PROVIDED, s)
      else if mode = 3 then (BUF_RING, s)
      else (BUF_NO_VAL, cs_raise (ValueError ''Wrong value for buffer mode'') s))"

definition validate_payload_type :: "int \<Rightarrow> cstate \<Rightarrow> PayloadType \<times> cstate" where
  "validate_payload_type pt s =
     (if pt = 0 then (PAYLOAD_LINEAR, s) else if pt = 1 then (PAYLOAD_IOVEC, s)
      else if pt = 2 then (PAYLOAD_LINEAR_AND_IOVEC, s)
      else (PAYLOAD_TYPE_NO_VAL, cs_raise (ValueError ''Wrong value for payload type'') s))"

definition stream_of :: "int \<Rightarrow> StreamStrategy option" where
  "stream_of n = (if n = 0 then Some ONESHOT else if n = 1 then Some MULTISHOT else None)"

definition transfer_of :: "int \<Rightarrow> TransferMode option" where
  "transfer_of n = (if n = 0 then Some NORMAL_TRANSFER else if n = 1 then Some ZERO_COPY else None)"

text \<open>The guard and the parsing of the arguments; \<open>None\<close> is a parse that failed and raised.\<close>

definition ctx_guarded ::
  "'a option \<Rightarrow> ('a \<Rightarrow> cstate \<Rightarrow> nat option \<times> cstate) \<Rightarrow> cstate \<Rightarrow> nat option \<times> cstate" where
  "ctx_guarded args k s =
     (case loop_guard (cs_w s) of
        Some e \<Rightarrow> (None, cs_raise e s)
      | None \<Rightarrow> (case args of None \<Rightarrow> (None, cs_raise CalleeError s) | Some x \<Rightarrow> k x s))"

text \<open>\<open>rnd\<close> is what \<^verbatim>\<open>rand()\<close> returns. \<^verbatim>\<open>create_buffer_payload\<close> raises whenever it fails for a valid mode and type.\<close>

definition context_payload ::
  "int \<Rightarrow> BufferMode \<Rightarrow> PayloadType \<Rightarrow> pyseq option \<Rightarrow> int \<Rightarrow> int \<Rightarrow> cstate \<Rightarrow> nat option \<times> cstate" where
  "context_payload rnd mode ptype buffers_obj amount bufsize s =
     (let (q, w) = make_payload (Some CalleeError)
                     (create_buffer_payload (w_junk (cs_w s)) rnd mode ptype buffers_obj amount bufsize) (cs_w s)
      in (q, s\<lparr>cs_w := w\<rparr>))"

definition UringioLoop_buffer_mode ::
  "int \<Rightarrow> (int \<times> pyseq option \<times> int \<times> int \<times> int) option \<Rightarrow> cstate \<Rightarrow> nat option \<times> cstate" where
  "UringioLoop_buffer_mode rnd args =
     ctx_guarded args (\<lambda>(mode, buffers_obj, payload_type_obj, amount, bufsize) s.
       let (buffer_mode, s1) = validate_buffer_mode mode s
       in if buffer_mode = BUF_NO_VAL then (None, s1)
          else
            let (ptype, s2) = validate_payload_type payload_type_obj s1
            in if ptype = PAYLOAD_TYPE_NO_VAL then (None, s2)
               else case context_payload rnd buffer_mode ptype buffers_obj amount bufsize s2 of
                      (None, s3) \<Rightarrow> (None, s3)
                    | (Some pa, s3) \<Rightarrow>
                        (case cs_new MemoryError s3 of
                           (None, s4) \<Rightarrow> (None, cs_raise MemoryError (on_w (free_payload_at (Some pa) True) s4))
                         | (Some m, s4) \<Rightarrow>
                             (Some m, s4\<lparr>cs_bm := (cs_bm s4)(m :=
                                \<lparr>bmc_payload = buffer_mode, bmc_token = No_Token, bmc_buffer_payload = pa\<rparr>)\<rparr>)))"

definition UringioLoop_stream_strategy :: "int option \<Rightarrow> cstate \<Rightarrow> nat option \<times> cstate" where
  "UringioLoop_stream_strategy args =
     ctx_guarded args (\<lambda>stream s.
       case stream_of stream of
         None \<Rightarrow> (None, cs_raise (ValueError ''Wrong value for stream strategy'') s)
       | Some st \<Rightarrow>
           (case cs_new MemoryError s of
              (None, s1) \<Rightarrow> (None, s1)
            | (Some m, s1) \<Rightarrow> (Some m, s1\<lparr>cs_ss := (cs_ss s1)(m := \<lparr>ssc_payload = st, ssc_token = Uninit\<rparr>)\<rparr>)))"

definition UringioLoop_transfer_mode :: "int option \<Rightarrow> cstate \<Rightarrow> nat option \<times> cstate" where
  "UringioLoop_transfer_mode args =
     ctx_guarded args (\<lambda>transfer_mode s.
       case transfer_of transfer_mode of
         None \<Rightarrow> (None, cs_raise (ValueError ''Wrong value for transfer mode'') s)
       | Some tm \<Rightarrow>
           (case cs_new MemoryError s of
              (None, s1) \<Rightarrow> (None, s1)
            | (Some m, s1) \<Rightarrow> (Some m, s1\<lparr>cs_tm := (cs_tm s1)(m := \<lparr>tmc_payload = tm, tmc_token = Uninit\<rparr>)\<rparr>)))"

text \<open>\<open>loop_ob\<close> is the loop object, of which the manager takes a reference.\<close>

definition UringioLoop_execution_context ::
  "nat \<Rightarrow> int \<Rightarrow> (int \<times> int \<times> int \<times> pyseq option \<times> int \<times> int \<times> int) option \<Rightarrow> cstate \<Rightarrow> nat option \<times> cstate" where
  "UringioLoop_execution_context loop_ob rnd args =
     ctx_guarded args (\<lambda>(buffer_mode_val, stream_strategy, transfer_mode, buffers_obj, payload_type_obj, amount, bufsize) s.
       let (buffer_mode, s1) = validate_buffer_mode buffer_mode_val s
       in if buffer_mode = BUF_NO_VAL then (None, s1)
          else
            let (ptype, s2) = validate_payload_type payload_type_obj s1
            in if ptype = PAYLOAD_TYPE_NO_VAL then (None, s2)
               else case context_payload rnd buffer_mode ptype buffers_obj amount bufsize s2 of
                 (None, s3) \<Rightarrow> (None, s3)
               | (Some pa, s3) \<Rightarrow>
                 (case stream_of stream_strategy of
                    None \<Rightarrow> (None, cs_raise (ValueError ''Wrong value for stream strategy'') s3)
                  | Some st \<Rightarrow>
                  (case transfer_of transfer_mode of
                     None \<Rightarrow> (None, cs_raise (ValueError ''Wrong value for transfer mode'') s3)
                   | Some tm \<Rightarrow>
                   (case cs_new MemoryError s3 of
                      (None, s4) \<Rightarrow> (None, s4)
                    | (Some m, s4) \<Rightarrow>
                      (case cs_malloc 24 (on_h (py_incref loop_ob) s4) of
                         (None, s5) \<Rightarrow> (None, on_h (py_decref m) s5)
                       | (Some b, s5) \<Rightarrow>
                           (Some m, s5\<lparr>cs_ctx := (cs_ctx s5)(b :=
                                         \<lparr>ec_buffer_mode = buffer_mode, ec_stream = st, ec_transfer_mode = tm,
                                          ec_buffer_payload = Some pa\<rparr>),
                                       cs_ec := (cs_ec s5)(m :=
                                         \<lparr>ecc_payload = b, ecc_token = No_Token, ecc_buffer_payload = pa\<rparr>)\<rparr>))))))"

section \<open>Entering\<close>

definition clone_execution_context :: "nat \<Rightarrow> cstate \<Rightarrow> nat option \<times> cstate" where
  "clone_execution_context src s =
     (case cs_malloc 24 s of
        (None, s1) \<Rightarrow> (None, s1)
      | (Some b, s1) \<Rightarrow>
          (Some b, (if src \<in> h_live (cs_heap s) then s1 else on_w (fault_at Indeterminate) s1)
                     \<lparr>cs_ctx := (cs_ctx s1)(b := cs_ctx s1 src)\<rparr>))"

text \<open>
  The steps the \<^verbatim>\<open>__enter__\<close> methods share: clone the current context, change it by \<open>f\<close>, wrap it in a capsule, set the
  variable, drop the capsule. \<open>on_no_capsule\<close> is what the method does with the clone when no capsule could be made.
  When the variable could not be set the clone is freed after the capsule was dropped.
\<close>

definition enter_clone ::
  "(ExecutionContext \<Rightarrow> ExecutionContext) \<Rightarrow> (nat \<Rightarrow> cstate \<Rightarrow> cstate) \<Rightarrow> cstate \<Rightarrow> nat option \<times> cstate" where
  "enter_clone f on_no_capsule s =
     (case ContextVar_get None s of
        (None, s1) \<Rightarrow> (None, s1)
      | (Some current, s1) \<Rightarrow>
      (case clone_execution_context current s1 of
         (None, s2) \<Rightarrow> (None, s2)
       | (Some b, s2) \<Rightarrow>
       (case new_capsule b (s2\<lparr>cs_ctx := (cs_ctx s2)(b := f (cs_ctx s2 b))\<rparr>) of
          (None, s3) \<Rightarrow> (None, on_no_capsule b s3)
        | (Some c, s3) \<Rightarrow>
            (let (tok, s4) = ContextVar_set (Capsule c) s3; s5 = cap_decref c s4
             in case tok of None \<Rightarrow> (None, on_h (c_free (Some b)) s5) | Some t \<Rightarrow> (Some t, s5)))))"

definition StreamStrategyCtx_enter :: "nat \<Rightarrow> cstate \<Rightarrow> nat option \<times> cstate" where
  "StreamStrategyCtx_enter self s =
     (case enter_clone (\<lambda>c. c\<lparr>ec_stream := ssc_payload (cs_ss s self)\<rparr>) (\<lambda>b. on_h (c_free (Some b))) s of
        (None, s1) \<Rightarrow> (None, s1)
      | (Some t, s1) \<Rightarrow>
          (Some self, on_h (py_incref self) (s1\<lparr>cs_ss := (cs_ss s1)(self := (cs_ss s1 self)\<lparr>ssc_token := Token t\<rparr>)\<rparr>)))"

definition TransferModeCtx_enter :: "nat \<Rightarrow> cstate \<Rightarrow> nat option \<times> cstate" where
  "TransferModeCtx_enter self s =
     (case enter_clone (\<lambda>c. c\<lparr>ec_transfer_mode := tmc_payload (cs_tm s self)\<rparr>) (\<lambda>b. on_h (c_free (Some b))) s of
        (None, s1) \<Rightarrow> (None, s1)
      | (Some t, s1) \<Rightarrow>
          (Some self, on_h (py_incref self) (s1\<lparr>cs_tm := (cs_tm s1)(self := (cs_tm s1 self)\<lparr>tmc_token := Token t\<rparr>)\<rparr>)))"

text \<open>
  Registering the buffers of a payload with the ring; \<open>False\<close> when the mode could not be set up, in which case the
  variable has been reset with the token and an exception is set. A failed ring of buffers is not reported.
\<close>

definition undo_set :: "nat \<Rightarrow> cstate \<Rightarrow> cstate" where
  "undo_set t s = tok_decref t (snd (ContextVar_reset (Token t) s))"

definition cs_ring_op :: "(io_uring \<Rightarrow> 'a \<times> io_uring) \<Rightarrow> cstate \<Rightarrow> 'a \<times> cstate" where
  "cs_ring_op f s = (let (x, r) = f (w_ring (cs_w s)) in (x, on_w (\<lambda>w. w\<lparr>w_ring := r\<rparr>) s))"

definition set_payload :: "nat \<Rightarrow> (BufferPayload \<Rightarrow> BufferPayload) \<Rightarrow> cstate \<Rightarrow> cstate" where
  "set_payload pa f = on_w (\<lambda>w. w\<lparr>w_pay := (w_pay w)(pa := f (w_pay w pa))\<rparr>)"

definition init_buffer_mode :: "liburing \<Rightarrow> buf_api \<Rightarrow> nat \<Rightarrow> nat \<Rightarrow> cstate \<Rightarrow> bool \<times> cstate" where
  "init_buffer_mode L B pa t s =
     (let p = w_pay (cs_w s) pa in
      case bp_mode p of
        FIXED \<Rightarrow>
          (let (result, s1) = cs_ring_op (init_fixed_mode B (case bp_vector p of None \<Rightarrow> [] | Some v \<Rightarrow> snd (vb_iovecs v))
                                            (vector_nr p)) (on_w (check_vector p) s)
           in if result < 0
              then (False, cs_raise (RuntimeWarning ''Can not initialize fixed buffers'') (undo_set t s1))
              else case buffer_idx_registry_create (bp_amount p mod 2 ^ 32) (cs_heap s1) of
                     (None, h) \<Rightarrow>
                       (False, cs_raise (RuntimeWarning ''Can not initialize provided buffers'') (undo_set t (on_h (\<lambda>_. h) s1)))
                   | (Some (r, reg), h) \<Rightarrow>
                       (True, set_payload pa (\<lambda>q. q\<lparr>idx_registry := Some r, bp_vector := None, payload_type := PAYLOAD_LINEAR\<rparr>)
                                (on_w (\<lambda>w. w\<lparr>w_heap := h, w_pool := (w_pool w)(r := reg)\<rparr>) s1)))
      | PROVIDED \<Rightarrow>
          (let (result, s1) = cs_ring_op (init_provided_mode L (linear_buffer p) (c_int (linear_len p)) (bp_amount p) (bp_bgid p))
                                (on_w (check_linear p) s)
           in if result < 0
              then (False, undo_set t (cs_raise (RuntimeWarning ''Can not initialize provided buffers'') s1))
              else (True, s1))
      | BUF_RING \<Rightarrow>
          (let (buf_ring, s1) = cs_ring_op (init_buf_ring_mode B (linear_buffer p) (c_int (linear_len p)) (bp_amount p) (bp_bgid p))
                                  (on_w (check_linear p) s)
           in (True, (case buf_ring of
                        None \<Rightarrow> set_payload pa (\<lambda>q. q\<lparr>bp_buf_ring := None\<rparr>) s1
                      | Some (a, br) \<Rightarrow>
                          set_payload pa (\<lambda>q. q\<lparr>bp_buf_ring := Some a\<rparr>) (s1\<lparr>cs_rings := (cs_rings s1)(a := br)\<rparr>))))
      | _ \<Rightarrow> (True, s))"

definition BufferModeCtx_enter :: "liburing \<Rightarrow> buf_api \<Rightarrow> nat \<Rightarrow> cstate \<Rightarrow> nat option \<times> cstate" where
  "BufferModeCtx_enter L B self s =
     (let m = cs_bm s self in
      case enter_clone (\<lambda>c. c\<lparr>ec_buffer_mode := bmc_payload m, ec_buffer_payload := Some (bmc_buffer_payload m)\<rparr>)
             (\<lambda>b s. s) s of
        (None, s1) \<Rightarrow> (None, s1)
      | (Some t, s1) \<Rightarrow>
          (let (ok, s2) = init_buffer_mode L B (bmc_buffer_payload m) t s1
           in if ok
              then (Some self, on_h (py_incref self) (s2\<lparr>cs_bm := (cs_bm s2)(self := (cs_bm s2 self)\<lparr>bmc_token := Token t\<rparr>)\<rparr>))
              else (None, s2)))"

definition ExecutionContextCtx_enter :: "liburing \<Rightarrow> buf_api \<Rightarrow> nat \<Rightarrow> cstate \<Rightarrow> nat option \<times> cstate" where
  "ExecutionContextCtx_enter L B self s =
     (let m = cs_ec s self in
      case new_capsule (ecc_payload m) s of
        (None, s1) \<Rightarrow> (None, s1)
      | (Some c, s1) \<Rightarrow>
          (let (tok, s2) = ContextVar_set (Capsule c) s1; s3 = cap_decref c s2
           in case tok of
                None \<Rightarrow> (None, cs_raise (ValueError ''Error while setting contextvar'') s3)
              | Some t \<Rightarrow>
                  (let (ok, s4) = init_buffer_mode L B (ecc_buffer_payload m) t s3
                   in if ok
                      then (Some self, on_h (py_incref self)
                              (s4\<lparr>cs_ec := (cs_ec s4)(self := (cs_ec s4 self)\<lparr>ecc_token := Token t\<rparr>)\<rparr>))
                      else (None, s4))))"

section \<open>Leaving\<close>

text \<open>\<^verbatim>\<open>ContextVar_reset(self->token); Py_CLEAR(self->token);\<close> \<open>True\<close> when the variable was reset.\<close>

fun clear_token :: "token_field \<Rightarrow> cstate \<Rightarrow> cstate" where
  "clear_token No_Token s = s"
| "clear_token (Token t) s = tok_decref t s"
| "clear_token Uninit s = on_w (fault_at Indeterminate) s"

definition leave :: "token_field \<Rightarrow> (cstate \<Rightarrow> cstate) \<Rightarrow> cstate \<Rightarrow> bool \<times> cstate" where
  "leave tok forget s =
     (let (result, s1) = ContextVar_reset tok s; s2 = clear_token tok (forget s1)
      in if result < 0 then (False, cs_raise (ValueError ''Error while resetting contextvar'') s2) else (True, s2))"

definition StreamStrategyCtx_exit :: "nat \<Rightarrow> cstate \<Rightarrow> bool \<times> cstate" where
  "StreamStrategyCtx_exit self s =
     leave (ssc_token (cs_ss s self)) (\<lambda>s. s\<lparr>cs_ss := (cs_ss s)(self := (cs_ss s self)\<lparr>ssc_token := No_Token\<rparr>)\<rparr>) s"

definition TransferModeCtx_exit :: "nat \<Rightarrow> cstate \<Rightarrow> bool \<times> cstate" where
  "TransferModeCtx_exit self s =
     leave (tmc_token (cs_tm s self)) (\<lambda>s. s\<lparr>cs_tm := (cs_tm s)(self := (cs_tm s self)\<lparr>tmc_token := No_Token\<rparr>)\<rparr>) s"

definition ExecutionContextCtx_exit :: "nat \<Rightarrow> cstate \<Rightarrow> bool \<times> cstate" where
  "ExecutionContextCtx_exit self s =
     leave (ecc_token (cs_ec s self)) (\<lambda>s. s\<lparr>cs_ec := (cs_ec s)(self := (cs_ec s self)\<lparr>ecc_token := No_Token\<rparr>)\<rparr>) s"

definition close_buffer_mode :: "liburing \<Rightarrow> buf_api \<Rightarrow> nat \<Rightarrow> cstate \<Rightarrow> cstate" where
  "close_buffer_mode L B pa s =
     (let p = w_pay (cs_w s) pa in
      case bp_mode p of
        FIXED \<Rightarrow>
          (let s1 = snd (cs_ring_op (close_fixed_mode B) s)
           in case idx_registry p of
                None \<Rightarrow> on_w (fault_at NullDeref) s1
              | Some r \<Rightarrow>
                  (let (reg, h) = buffer_idx_registry_destroy (w_pool (cs_w s1) r) (cs_heap s1)
                   in on_w (\<lambda>w. w\<lparr>w_heap := h, w_pool := (w_pool w)(r := reg)\<rparr>) s1))
      | PROVIDED \<Rightarrow> snd (cs_ring_op (close_provided_mode L (bp_amount p) (bp_bgid p)) s)
      | BUF_RING \<Rightarrow>
          set_payload pa (\<lambda>q. q\<lparr>bp_buf_ring := None\<rparr>)
            (snd (cs_ring_op (close_buf_ring_mode B (bp_buf_ring p) (bp_amount p) (bp_bgid p)) s))
      | _ \<Rightarrow> s)"

definition BufferModeCtx_exit :: "liburing \<Rightarrow> buf_api \<Rightarrow> nat \<Rightarrow> cstate \<Rightarrow> bool \<times> cstate" where
  "BufferModeCtx_exit L B self s =
     (case leave (bmc_token (cs_bm s self)) (\<lambda>s. s\<lparr>cs_bm := (cs_bm s)(self := (cs_bm s self)\<lparr>bmc_token := No_Token\<rparr>)\<rparr>) s of
        (False, s1) \<Rightarrow> (False, s1)
      | (True, s1) \<Rightarrow> (True, close_buffer_mode L B (bmc_buffer_payload (cs_bm s1 self)) s1))"

end
