(* ===== verification/Context_Scopes.thy ===== *)
theory Context_Scopes
  imports Execution_Context
begin

text \<open>
  What the context managers promise: a block of code run under a manager sees the current context with the manager's
  component changed, and afterwards the context, the blocks and the reference counts are those from before, however
  the blocks are nested.
\<close>

section \<open>States in which a context is current\<close>

definition ready :: "cstate \<Rightarrow> bool" where
  "ready s \<longleftrightarrow>
     cs_var s \<noteq> None \<and> (\<forall>k. \<not> h_oom (cs_heap s) k) \<and> heap_wf (cs_heap s) \<and> w_context (cs_w s) = current_context s \<and>
     (\<exists>c. cs_value s = Capsule c \<and> c < h_next (cs_heap s) \<and> 1 \<le> h_ref (cs_heap s) c \<and>
          cs_block s c \<in> h_live (cs_heap s))"

lemmas ctx_defs = on_w_def on_h_def on_heap_def cs_new_def py_new_def call_method_def set_value_def Let_def

lemma ContextVar_get_eq:
  assumes "ready s" and "cs_value s = Capsule c" and "n = h_next (cs_heap s)"
  shows "ContextVar_get None s =
    (Some (cs_block s c), on_h (\<lambda>h. h\<lparr>h_next := Suc n, h_ref := (h_ref h)(n := 0)\<rparr>) s)"
  using assms
  by (auto simp: ready_def ContextVar_get_def py_var_get_def ctx_defs cap_decref_def py_incref_def py_decref_def
      fun_upd_twist fun_eq_iff intro!: cstate.equality world.equality heap.equality)

lemma ContextVar_set_eq:
  assumes "cs_var s \<noteq> None" and "\<And>k. \<not> h_oom (cs_heap s) k" and "n = h_next (cs_heap s)" and "c < n"
  shows "ContextVar_set (Capsule c) s =
    (Some (n + 1),
     s\<lparr>cs_w := (cs_w s)\<lparr>w_heap := (cs_heap s)\<lparr>h_next := n + 2, h_ref := (h_ref (cs_heap s))(n := 0, n + 1 := 1, c := h_ref (cs_heap s) c + 1)\<rparr>,
                        w_context := Some (cs_ctx s (cs_block s c))\<rparr>,
       cs_value := Capsule c, cs_tok := (cs_tok s)(n + 1 := \<lparr>tk_old = cs_value s, tk_used = False\<rparr>)\<rparr>)"
  using assms
  by (auto simp: ContextVar_set_def py_var_set_def ctx_defs py_incref_def py_decref_def current_context_def
      fun_eq_iff intro!: cstate.equality world.equality heap.equality)

lemma enter_clone_eq:
  assumes r: "ready s" and v: "cs_value s = Capsule c" and n: "n = h_next (cs_heap s)"
  shows "enter_clone f g s =
    (Some (n + 4),
     s\<lparr>cs_w := (cs_w s)\<lparr>w_heap := (cs_heap s)\<lparr>h_next := n + 5, h_live := insert (n + 1) (h_live (cs_heap s)),
                            h_ref := (h_ref (cs_heap s))(n := 0, n + 3 := 0, n + 4 := 1, n + 2 := 1)\<rparr>,
                        w_context := Some (f (cs_ctx s (cs_block s c)))\<rparr>,
       cs_value := Capsule (n + 2), cs_block := (cs_block s)(n + 2 := n + 1),
       cs_ctx := (cs_ctx s)(n + 1 := f (cs_ctx s (cs_block s c))),
       cs_tok := (cs_tok s)(n + 4 := \<lparr>tk_old = Capsule c, tk_used = False\<rparr>)\<rparr>)"
proof -
  define s1 where "s1 = on_h (\<lambda>h. h\<lparr>h_next := Suc n, h_ref := (h_ref h)(n := 0)\<rparr>) s"
  define s2 where "s2 = s1\<lparr>cs_w := (cs_w s)\<lparr>w_heap := (cs_heap s)\<lparr>h_next := n + 3, h_live := insert (n + 1) (h_live (cs_heap s)),
                            h_ref := (h_ref (cs_heap s))(n := 0, n + 2 := 1)\<rparr>\<rparr>,
       cs_block := (cs_block s)(n + 2 := n + 1),
       cs_ctx := (cs_ctx s)(n + 1 := f (cs_ctx s (cs_block s c)))\<rparr>"
  have oom: "\<And>k. \<not> h_oom (cs_heap s) k" and live: "cs_block s c \<in> h_live (cs_heap s)" and var: "cs_var s \<noteq> None"
    using r v by (auto simp: ready_def)
  have clone: "clone_execution_context (cs_block s c) s1 =
      (Some (n + 1), s1\<lparr>cs_w := (cs_w s)\<lparr>w_heap := (cs_heap s)\<lparr>h_next := n + 2, h_live := insert (n + 1) (h_live (cs_heap s)),
                            h_ref := (h_ref (cs_heap s))(n := 0)\<rparr>\<rparr>,
                        cs_ctx := (cs_ctx s)(n + 1 := cs_ctx s (cs_block s c))\<rparr>)"
    using oom live n by (simp add: clone_execution_context_def cs_malloc_def c_malloc_def s1_def ctx_defs alloc_max_def)
  have cap: "new_capsule (n + 1) (s1\<lparr>cs_w := (cs_w s)\<lparr>w_heap := (cs_heap s)\<lparr>h_next := n + 2, h_live := insert (n + 1) (h_live (cs_heap s)),
                            h_ref := (h_ref (cs_heap s))(n := 0)\<rparr>\<rparr>,
                        cs_ctx := (cs_ctx s)(n + 1 := f (cs_ctx s (cs_block s c)))\<rparr>) = (Some (n + 2), s2)"
    using oom by (simp add: new_capsule_def ctx_defs s2_def s1_def)
  have s2f: "cs_var s2 = cs_var s" "h_oom (cs_heap s2) = h_oom (cs_heap s)" "h_next (cs_heap s2) = n + 3"
    "h_ref (cs_heap s2) (n + 2) = 1" "cs_ctx s2 (cs_block s2 (n + 2)) = f (cs_ctx s (cs_block s c))"
    "cs_value s2 = cs_value s" "cs_tok s2 = cs_tok s"
    by (simp_all add: s2_def s1_def on_h_def on_w_def)
  have set: "ContextVar_set (Capsule (n + 2)) s2 =
    (Some (n + 4),
     s2\<lparr>cs_w := (cs_w s2)\<lparr>w_heap := (cs_heap s2)\<lparr>h_next := n + 5, h_ref := (h_ref (cs_heap s2))(n + 3 := 0, n + 4 := 1, n + 2 := 2)\<rparr>,
                        w_context := Some (f (cs_ctx s (cs_block s c)))\<rparr>,
       cs_value := Capsule (n + 2), cs_tok := (cs_tok s)(n + 4 := \<lparr>tk_old = Capsule c, tk_used = False\<rparr>)\<rparr>)"
    using ContextVar_set_eq [of s2 "n + 3" "n + 2"] oom var v s2f by (simp add: add.commute [of 4 n] add.commute [of 5 n])
  have last: "cap_decref (n + 2) (snd (ContextVar_set (Capsule (n + 2)) s2)) =
     s\<lparr>cs_w := (cs_w s)\<lparr>w_heap := (cs_heap s)\<lparr>h_next := n + 5, h_live := insert (n + 1) (h_live (cs_heap s)),
                            h_ref := (h_ref (cs_heap s))(n := 0, n + 3 := 0, n + 4 := 1, n + 2 := 1)\<rparr>,
                        w_context := Some (f (cs_ctx s (cs_block s c)))\<rparr>,
       cs_value := Capsule (n + 2), cs_block := (cs_block s)(n + 2 := n + 1),
       cs_ctx := (cs_ctx s)(n + 1 := f (cs_ctx s (cs_block s c))),
       cs_tok := (cs_tok s)(n + 4 := \<lparr>tk_old = Capsule c, tk_used = False\<rparr>)\<rparr>"
    unfolding set snd_conv
    by (intro cstate.equality world.equality heap.equality)
      (simp_all add: cap_decref_def on_h_def on_w_def on_heap_def s2_def s1_def Let_def)
  have mod: "cs_ctx (s1\<lparr>cs_w := w, cs_ctx := (cs_ctx s)(n + 1 := x)\<rparr>) (n + 1) = x" for w x by simp
  have enter: "enter_clone f g s =
      (let (tok, s4) = ContextVar_set (Capsule (n + 2)) s2; s5 = cap_decref (n + 2) s4
       in case tok of None \<Rightarrow> (None, on_h (c_free (Some (n + 1))) s5) | Some t \<Rightarrow> (Some t, s5))"
    unfolding enter_clone_def ContextVar_get_eq [OF r v n] s1_def [symmetric] prod.case option.case clone mod
    using cap by simp
  show ?thesis using last unfolding enter set by simp
qed

section \<open>Resetting\<close>

text \<open>The variable holds the capsule that was set with the token \<open>t\<close>, whose old value is \<open>c0\<close>.\<close>

definition opened_at :: "nat \<Rightarrow> nat \<Rightarrow> nat \<Rightarrow> cstate \<Rightarrow> bool" where
  "opened_at t c c0 s \<longleftrightarrow>
     cs_var s \<noteq> None \<and> (\<forall>k. \<not> h_oom (cs_heap s) k) \<and> cs_value s = Capsule c \<and>
     cs_tok s t = \<lparr>tk_old = Capsule c0, tk_used = False\<rparr> \<and>
     distinct [t, c, c0] \<and> {t, c, c0} \<subseteq> {..<h_next (cs_heap s)} \<and>
     h_ref (cs_heap s) t = 1 \<and> h_ref (cs_heap s) c = 1 \<and> 1 \<le> h_ref (cs_heap s) c0"

lemma reset_frees:
  assumes "opened_at t c c0 s" and "n = h_next (cs_heap s)"
  shows "ContextVar_reset (Token t) s =
    (0, on_h (c_free (Some (cs_block s c)))
         (s\<lparr>cs_w := (cs_w s)\<lparr>w_heap := (cs_heap s)\<lparr>h_next := Suc n,
                                h_ref := (h_ref (cs_heap s))(n := 0, c := 0, c0 := h_ref (cs_heap s) c0 + 1)\<rparr>,
                            w_context := Some (cs_ctx s (cs_block s c0))\<rparr>,
           cs_value := Capsule c0, cs_tok := (cs_tok s)(t := \<lparr>tk_old = Capsule c0, tk_used = True\<rparr>)\<rparr>))"
  using assms
  by (auto simp: opened_at_def ContextVar_reset_def py_var_reset_def ctx_defs py_incref_def py_decref_def cap_decref_def
      free_exec_context_def current_context_def add_fault_def fun_eq_iff intro!: cstate.equality world.equality heap.equality)

text \<open>The usual case: the block of the capsule is live.\<close>

definition opened_by :: "nat \<Rightarrow> nat \<Rightarrow> nat \<Rightarrow> cstate \<Rightarrow> bool" where
  "opened_by t c c0 s \<longleftrightarrow> opened_at t c c0 s \<and> cs_block s c \<in> h_live (cs_heap s)"

lemma ContextVar_reset_eq:
  assumes "opened_by t c c0 s" and "n = h_next (cs_heap s)"
  shows "ContextVar_reset (Token t) s =
    (0, s\<lparr>cs_w := (cs_w s)\<lparr>w_heap := (cs_heap s)\<lparr>h_next := Suc n, h_live := h_live (cs_heap s) - {cs_block s c},
                                h_ref := (h_ref (cs_heap s))(n := 0, c := 0, c0 := h_ref (cs_heap s) c0 + 1)\<rparr>,
                            w_context := Some (cs_ctx s (cs_block s c0))\<rparr>,
           cs_value := Capsule c0, cs_tok := (cs_tok s)(t := \<lparr>tk_old = Capsule c0, tk_used = True\<rparr>)\<rparr>)"
  using assms reset_frees [of t c c0 s n] by (simp add: opened_by_def on_h_def on_w_def on_heap_def)

lemma tok_decref_eq:
  assumes "h_ref (cs_heap s) t = 1" and "tk_old (cs_tok s t) = Capsule c0" and "2 \<le> h_ref (cs_heap s) c0" and "t \<noteq> c0"
  shows "tok_decref t s = on_h (\<lambda>h. h\<lparr>h_ref := (h_ref h)(t := 0, c0 := h_ref h c0 - 1)\<rparr>) s"
  using assms by (auto simp: tok_decref_def cap_decref_def on_h_def on_w_def on_heap_def Let_def)

section \<open>Managers\<close>

datatype manager = Stream nat | Transfer nat | Buffer nat

fun mgr_obj :: "manager \<Rightarrow> nat" where
  "mgr_obj (Stream i) = i" | "mgr_obj (Transfer i) = i" | "mgr_obj (Buffer i) = i"

fun mgr_token :: "manager \<Rightarrow> cstate \<Rightarrow> token_field" where
  "mgr_token (Stream i) s = ssc_token (cs_ss s i)"
| "mgr_token (Transfer i) s = tmc_token (cs_tm s i)"
| "mgr_token (Buffer i) s = bmc_token (cs_bm s i)"

fun set_token :: "manager \<Rightarrow> token_field \<Rightarrow> cstate \<Rightarrow> cstate" where
  "set_token (Stream i) t s = s\<lparr>cs_ss := (cs_ss s)(i := (cs_ss s i)\<lparr>ssc_token := t\<rparr>)\<rparr>"
| "set_token (Transfer i) t s = s\<lparr>cs_tm := (cs_tm s)(i := (cs_tm s i)\<lparr>tmc_token := t\<rparr>)\<rparr>"
| "set_token (Buffer i) t s = s\<lparr>cs_bm := (cs_bm s)(i := (cs_bm s i)\<lparr>bmc_token := t\<rparr>)\<rparr>"

text \<open>The change of the context a manager stands for.\<close>

fun mgr_change :: "manager \<Rightarrow> cstate \<Rightarrow> ExecutionContext \<Rightarrow> ExecutionContext" where
  "mgr_change (Stream i) s c = c\<lparr>ec_stream := ssc_payload (cs_ss s i)\<rparr>"
| "mgr_change (Transfer i) s c = c\<lparr>ec_transfer_mode := tmc_payload (cs_tm s i)\<rparr>"
| "mgr_change (Buffer i) s c =
     c\<lparr>ec_buffer_mode := bmc_payload (cs_bm s i), ec_buffer_payload := Some (bmc_buffer_payload (cs_bm s i))\<rparr>"

text \<open>A buffer manager whose payload needs no registration with the ring.\<close>

fun mgr_plain :: "manager \<Rightarrow> cstate \<Rightarrow> bool" where
  "mgr_plain (Buffer i) s \<longleftrightarrow> bp_mode (w_pay (cs_w s) (bmc_buffer_payload (cs_bm s i))) = NORMAL_BUF"
| "mgr_plain _ s \<longleftrightarrow> True"

fun mgr_enter :: "liburing \<Rightarrow> buf_api \<Rightarrow> manager \<Rightarrow> cstate \<Rightarrow> nat option \<times> cstate" where
  "mgr_enter L B (Stream i) s = StreamStrategyCtx_enter i s"
| "mgr_enter L B (Transfer i) s = TransferModeCtx_enter i s"
| "mgr_enter L B (Buffer i) s = BufferModeCtx_enter L B i s"

fun mgr_exit :: "liburing \<Rightarrow> buf_api \<Rightarrow> manager \<Rightarrow> cstate \<Rightarrow> bool \<times> cstate" where
  "mgr_exit L B (Stream i) s = StreamStrategyCtx_exit i s"
| "mgr_exit L B (Transfer i) s = TransferModeCtx_exit i s"
| "mgr_exit L B (Buffer i) s = BufferModeCtx_exit L B i s"

lemma set_token_simps [simp]:
  "cs_w (set_token m t s) = cs_w s" "cs_var (set_token m t s) = cs_var s" "cs_value (set_token m t s) = cs_value s"
  "cs_block (set_token m t s) = cs_block s" "cs_ctx (set_token m t s) = cs_ctx s" "cs_tok (set_token m t s) = cs_tok s"
  "mgr_token m' (set_token m t s) = (if m' = m then t else mgr_token m' s)"
  "mgr_change m' (set_token m t s) = mgr_change m' s" "mgr_plain m' (set_token m t s) = mgr_plain m' s"
  by (cases m; cases m'; auto simp: fun_eq_iff)+

text \<open>What the managers hold depends on nothing else.\<close>

definition same_mgrs :: "cstate \<Rightarrow> cstate \<Rightarrow> bool" where
  "same_mgrs s s' \<longleftrightarrow>
     cs_bm s' = cs_bm s \<and> cs_ss s' = cs_ss s \<and> cs_tm s' = cs_tm s \<and> w_pay (cs_w s') = w_pay (cs_w s)"

lemma same_mgrsD:
  assumes "same_mgrs s s'"
  shows "mgr_token m s' = mgr_token m s" and "mgr_change m s' = mgr_change m s" and "mgr_plain m s' = mgr_plain m s"
  using assms by (cases m; auto simp: same_mgrs_def fun_eq_iff)+

section \<open>Frames\<close>

text \<open>
  What a block of code leaves as it found it: the variable, the blocks, the faults, and everything about the objects
  that existed before, except the tokens of the managers in \<open>M\<close>.
\<close>

definition frame :: "manager set \<Rightarrow> cstate \<Rightarrow> cstate \<Rightarrow> bool" where
  "frame M s s' \<longleftrightarrow>
     cs_var s' = cs_var s \<and> cs_value s' = cs_value s \<and> w_context (cs_w s') = w_context (cs_w s) \<and>
     h_next (cs_heap s) \<le> h_next (cs_heap s') \<and> h_live (cs_heap s') = h_live (cs_heap s) \<and>
     h_pymem (cs_heap s') = h_pymem (cs_heap s) \<and> h_views (cs_heap s') = h_views (cs_heap s) \<and>
     h_faults (cs_heap s') = h_faults (cs_heap s) \<and> h_oom (cs_heap s') = h_oom (cs_heap s) \<and>
     (\<forall>x < h_next (cs_heap s). h_ref (cs_heap s') x = h_ref (cs_heap s) x \<and> cs_tok s' x = cs_tok s x \<and>
        cs_block s' x = cs_block s x \<and> cs_ctx s' x = cs_ctx s x) \<and>
     (\<forall>m. mgr_change m s' = mgr_change m s \<and> mgr_plain m s' = mgr_plain m s) \<and>
     (\<forall>m. m \<notin> M \<longrightarrow> mgr_token m s' = mgr_token m s)"

lemma frame_refl [simp]: "frame M s s"
  by (simp add: frame_def)

lemma frame_mono: "frame M s s' \<Longrightarrow> M \<subseteq> N \<Longrightarrow> frame N s s'"
  unfolding frame_def by blast

lemma frame_trans: "frame M s s' \<Longrightarrow> frame M s' s'' \<Longrightarrow> frame M s s''"
  unfolding frame_def by (simp add: order_trans [of "h_next (cs_heap s)" "h_next (cs_heap s')"])

lemma ready_frame:
  assumes r: "ready s" and f: "frame M s s'"
  shows "ready s'"
proof -
  obtain c where c: "cs_value s = Capsule c" "c < h_next (cs_heap s)" "1 \<le> h_ref (cs_heap s) c" "cs_block s c \<in> h_live (cs_heap s)"
    using r by (auto simp: ready_def)
  have b: "cs_block s c < h_next (cs_heap s)" using r c(4) by (auto simp: ready_def heap_wf_def)
  have fs: "cs_var s' = cs_var s" "cs_value s' = cs_value s" "w_context (cs_w s') = w_context (cs_w s)"
    "h_next (cs_heap s) \<le> h_next (cs_heap s')" "h_live (cs_heap s') = h_live (cs_heap s)"
    "h_pymem (cs_heap s') = h_pymem (cs_heap s)" "h_views (cs_heap s') = h_views (cs_heap s)"
    "h_oom (cs_heap s') = h_oom (cs_heap s)" "h_ref (cs_heap s') c = h_ref (cs_heap s) c"
    "cs_block s' c = cs_block s c" "cs_ctx s' (cs_block s c) = cs_ctx s (cs_block s c)"
    using f b c(2) unfolding frame_def by blast+
  have wf: "heap_wf (cs_heap s')"
    using r fs(4) unfolding ready_def heap_wf_def fs by (meson order_less_le_trans)
  have "current_context s' = current_context s" by (simp add: current_context_def fs c(1))
  then show ?thesis using r fs c wf unfolding ready_def by (simp add: order_less_le_trans)
qed

definition mgr_alive :: "manager \<Rightarrow> cstate \<Rightarrow> bool" where
  "mgr_alive m s \<longleftrightarrow> mgr_obj m < h_next (cs_heap s) \<and> 1 \<le> h_ref (cs_heap s) (mgr_obj m) \<and> mgr_plain m s"

lemma mgr_alive_frame: "frame M s s' \<Longrightarrow> mgr_alive m s \<Longrightarrow> mgr_alive m s'"
  by (auto simp: frame_def mgr_alive_def)

section \<open>The contract of a manager\<close>

text \<open>The state in which the body of a block runs.\<close>

definition open_state :: "manager \<Rightarrow> cstate \<Rightarrow> cstate" where
  "open_state m s =
     (let n = h_next (cs_heap s); c = mgr_change m s (the (current_context s))
      in on_h (py_incref (mgr_obj m)) (set_token m (Token (n + 4))
          (s\<lparr>cs_w := (cs_w s)\<lparr>w_heap := (cs_heap s)\<lparr>h_next := n + 5, h_live := insert (n + 1) (h_live (cs_heap s)),
                            h_ref := (h_ref (cs_heap s))(n := 0, n + 3 := 0, n + 4 := 1, n + 2 := 1)\<rparr>,
                        w_context := Some c\<rparr>,
             cs_value := Capsule (n + 2), cs_block := (cs_block s)(n + 2 := n + 1), cs_ctx := (cs_ctx s)(n + 1 := c),
             cs_tok := (cs_tok s)(n + 4 := \<lparr>tk_old = cs_value s, tk_used = False\<rparr>)\<rparr>)))"

lemma open_state_simps:
  assumes "n = h_next (cs_heap s)" and "mgr_obj m < n" and "current_context s = Some cx"
  shows "cs_var (open_state m s) = cs_var s" "cs_value (open_state m s) = Capsule (n + 2)"
    "w_context (cs_w (open_state m s)) = Some (mgr_change m s cx)"
    "h_next (cs_heap (open_state m s)) = n + 5" "h_live (cs_heap (open_state m s)) = insert (n + 1) (h_live (cs_heap s))"
    "h_pymem (cs_heap (open_state m s)) = h_pymem (cs_heap s)" "h_views (cs_heap (open_state m s)) = h_views (cs_heap s)"
    "h_faults (cs_heap (open_state m s)) = h_faults (cs_heap s)" "h_oom (cs_heap (open_state m s)) = h_oom (cs_heap s)"
    "h_ref (cs_heap (open_state m s)) (n + 2) = 1" "h_ref (cs_heap (open_state m s)) (n + 4) = 1"
    "x < n \<Longrightarrow> h_ref (cs_heap (open_state m s)) x = h_ref (cs_heap s) x + (if x = mgr_obj m then 1 else 0)"
    "cs_block (open_state m s) (n + 2) = n + 1" "cs_ctx (open_state m s) (n + 1) = mgr_change m s cx"
    "cs_tok (open_state m s) (n + 4) = \<lparr>tk_old = cs_value s, tk_used = False\<rparr>"
    "x < n \<Longrightarrow> cs_tok (open_state m s) x = cs_tok s x" "x < n \<Longrightarrow> cs_block (open_state m s) x = cs_block s x"
    "x < n \<Longrightarrow> cs_ctx (open_state m s) x = cs_ctx s x"
  using assms by (simp_all add: open_state_def on_h_def on_w_def on_heap_def py_incref_def Let_def)

lemma open_state_mgrs:
  "mgr_change m' (open_state m s) = mgr_change m' s" "mgr_plain m' (open_state m s) = mgr_plain m' s"
  "mgr_token m' (open_state m s) = (if m' = m then Token (h_next (cs_heap s) + 4) else mgr_token m' s)"
proof -
  define u where "u = (let n = h_next (cs_heap s); c = mgr_change m s (the (current_context s))
      in s\<lparr>cs_w := (cs_w s)\<lparr>w_heap := (cs_heap s)\<lparr>h_next := n + 5, h_live := insert (n + 1) (h_live (cs_heap s)),
                            h_ref := (h_ref (cs_heap s))(n := 0, n + 3 := 0, n + 4 := 1, n + 2 := 1)\<rparr>,
                        w_context := Some c\<rparr>,
             cs_value := Capsule (n + 2), cs_block := (cs_block s)(n + 2 := n + 1), cs_ctx := (cs_ctx s)(n + 1 := c),
             cs_tok := (cs_tok s)(n + 4 := \<lparr>tk_old = cs_value s, tk_used = False\<rparr>)\<rparr>)"
  define v where "v = set_token m (Token (h_next (cs_heap s) + 4)) u"
  have o: "open_state m s = on_h (py_incref (mgr_obj m)) v" by (simp add: open_state_def u_def v_def Let_def)
  have vo: "same_mgrs v (open_state m s)" by (simp add: o same_mgrs_def on_h_def on_w_def)
  have su: "same_mgrs s u" by (simp add: u_def same_mgrs_def Let_def)
  show "mgr_change m' (open_state m s) = mgr_change m' s" "mgr_plain m' (open_state m s) = mgr_plain m' s"
    "mgr_token m' (open_state m s) = (if m' = m then Token (h_next (cs_heap s) + 4) else mgr_token m' s)"
    by (simp_all add: same_mgrsD [OF vo] v_def same_mgrsD [OF su])
qed

text \<open>
  The contract: entering is the clone step with the manager's change, leaving is the reset step, as long as the
  manager's payload needs no registration.
\<close>

locale scope =
  fixes m :: manager and enter_op :: "cstate \<Rightarrow> nat option \<times> cstate" and exit_op :: "cstate \<Rightarrow> bool \<times> cstate"
    and on_no_capsule :: "nat \<Rightarrow> cstate \<Rightarrow> cstate"
  assumes enter: "ready s \<Longrightarrow> mgr_plain m s \<Longrightarrow>
      enter_op s = (case enter_clone (mgr_change m s) on_no_capsule s of
         (None, s1) \<Rightarrow> (None, s1)
       | (Some t, s1) \<Rightarrow> (Some (mgr_obj m), on_h (py_incref (mgr_obj m)) (set_token m (Token t) s1)))"
    and exit: "leave (mgr_token m s) (set_token m No_Token) s = (True, s') \<Longrightarrow> mgr_plain m s' \<Longrightarrow> exit_op s = (True, s')"
begin

lemma enter_open:
  assumes "ready s" and "mgr_alive m s"
  shows "enter_op s = (Some (mgr_obj m), open_state m s)"
proof -
  obtain c where c: "cs_value s = Capsule c" using assms(1) by (auto simp: ready_def)
  then have cx: "current_context s = Some (cs_ctx s (cs_block s c))" by (simp add: current_context_def)
  have "enter_op s = (case enter_clone (mgr_change m s) on_no_capsule s of
         (None, s1) \<Rightarrow> (None, s1)
       | (Some t, s1) \<Rightarrow> (Some (mgr_obj m), on_h (py_incref (mgr_obj m)) (set_token m (Token t) s1)))"
    using assms by (intro enter) (simp_all add: mgr_alive_def)
  then show ?thesis
    unfolding enter_clone_eq [OF assms(1) c refl] open_state_def cx Let_def option.sel by (simp add: c)
qed

end

lemma ready_open:
  assumes r: "ready s" and a: "mgr_alive m s"
  shows "ready (open_state m s)" and "\<exists>c. opened_by (h_next (cs_heap s) + 4) (h_next (cs_heap s) + 2) c (open_state m s) \<and> cs_value s = Capsule c"
proof -
  define n where "n = h_next (cs_heap s)"
  obtain c where c: "cs_value s = Capsule c" "c < n" "1 \<le> h_ref (cs_heap s) c"
    and oom: "\<forall>k. \<not> h_oom (cs_heap s) k" and var: "cs_var s \<noteq> None" and wf: "heap_wf (cs_heap s)"
    using r by (auto simp: ready_def n_def)
  have cx: "current_context s = Some (cs_ctx s (cs_block s c))" by (simp add: current_context_def c)
  have ob: "mgr_obj m < n" using a by (simp add: mgr_alive_def n_def)
  note o = open_state_simps [OF n_def ob cx]
  have wf': "heap_wf (cs_heap (open_state m s))"
    using wf unfolding heap_wf_def o n_def [symmetric] by (auto simp: trans_less_add1)
  have "current_context (open_state m s) = w_context (cs_w (open_state m s))"
    unfolding current_context_def o ctxval.case ..
  then show "ready (open_state m s)" unfolding ready_def using oom var wf' o by simp
  show "\<exists>c. opened_by (h_next (cs_heap s) + 4) (h_next (cs_heap s) + 2) c (open_state m s) \<and> cs_value s = Capsule c"
    unfolding n_def [symmetric] opened_by_def opened_at_def using oom var c o by (intro exI [of _ c]) auto
qed

text \<open>Leaving: the steps of \<open>leave\<close> on a state opened by the token.\<close>

definition closed_state :: "manager \<Rightarrow> nat \<Rightarrow> nat \<Rightarrow> nat \<Rightarrow> cstate \<Rightarrow> cstate" where
  "closed_state m t c c0 s =
     (set_token m No_Token
       (s\<lparr>cs_w := (cs_w s)\<lparr>w_heap := (cs_heap s)\<lparr>h_next := Suc (h_next (cs_heap s)),
                                h_live := h_live (cs_heap s) - {cs_block s c},
                                h_ref := (h_ref (cs_heap s))(h_next (cs_heap s) := 0, c := 0, t := 0)\<rparr>,
                            w_context := Some (cs_ctx s (cs_block s c0))\<rparr>,
           cs_value := Capsule c0, cs_tok := (cs_tok s)(t := \<lparr>tk_old = Capsule c0, tk_used = True\<rparr>)\<rparr>))"

lemma leave_closed:
  assumes o: "opened_by t c c0 s"
  shows "leave (Token t) (set_token m No_Token) s = (True, closed_state m t c c0 s)"
proof -
  define n where "n = h_next (cs_heap s)"
  define u where "u = s\<lparr>cs_w := (cs_w s)\<lparr>w_heap := (cs_heap s)\<lparr>h_next := Suc n, h_live := h_live (cs_heap s) - {cs_block s c},
                                h_ref := (h_ref (cs_heap s))(n := 0, c := 0, c0 := h_ref (cs_heap s) c0 + 1)\<rparr>,
                            w_context := Some (cs_ctx s (cs_block s c0))\<rparr>,
           cs_value := Capsule c0, cs_tok := (cs_tok s)(t := \<lparr>tk_old = Capsule c0, tk_used = True\<rparr>)\<rparr>"
  have d: "t \<noteq> c" "t \<noteq> c0" "c \<noteq> c0" "t < n" "c < n" "c0 < n" "h_ref (cs_heap s) t = 1" "1 \<le> h_ref (cs_heap s) c0"
    using o by (auto simp: opened_by_def opened_at_def n_def)
  have ref: "(h_ref (cs_heap s))(n := 0, c := 0, c0 := h_ref (cs_heap s) c0 + 1, t := 0, c0 := h_ref (cs_heap s) c0) =
      (h_ref (cs_heap s))(n := 0, c := 0, t := 0)"
    using d by (auto simp: fun_eq_iff)
  have "clear_token (Token t) (set_token m No_Token u) =
      on_h (\<lambda>h. h\<lparr>h_ref := (h_ref h)(t := 0, c0 := h_ref h c0 - 1)\<rparr>) (set_token m No_Token u)"
    using d unfolding clear_token.simps by (intro tok_decref_eq) (simp_all add: u_def)
  moreover have "\<dots> = closed_state m t c c0 s"
    using d ref by (cases m) (simp_all add: closed_state_def u_def n_def on_h_def on_w_def on_heap_def)
  moreover have "ContextVar_reset (Token t) s = (0, u)" using ContextVar_reset_eq [OF o n_def] by (simp add: u_def)
  ultimately show ?thesis by (simp add: leave_def)
qed

lemma closed_state_simps:
  assumes "n = h_next (cs_heap s)"
  shows "cs_var (closed_state m t c c0 s) = cs_var s" "cs_value (closed_state m t c c0 s) = Capsule c0"
    "w_context (cs_w (closed_state m t c c0 s)) = Some (cs_ctx s (cs_block s c0))"
    "h_next (cs_heap (closed_state m t c c0 s)) = Suc n"
    "h_live (cs_heap (closed_state m t c c0 s)) = h_live (cs_heap s) - {cs_block s c}"
    "h_pymem (cs_heap (closed_state m t c c0 s)) = h_pymem (cs_heap s)" "h_views (cs_heap (closed_state m t c c0 s)) = h_views (cs_heap s)"
    "h_faults (cs_heap (closed_state m t c c0 s)) = h_faults (cs_heap s)" "h_oom (cs_heap (closed_state m t c c0 s)) = h_oom (cs_heap s)"
    "x \<noteq> n \<Longrightarrow> x \<noteq> c \<Longrightarrow> x \<noteq> t \<Longrightarrow> h_ref (cs_heap (closed_state m t c c0 s)) x = h_ref (cs_heap s) x"
    "x \<noteq> t \<Longrightarrow> cs_tok (closed_state m t c c0 s) x = cs_tok s x" "cs_block (closed_state m t c c0 s) = cs_block s"
    "cs_ctx (closed_state m t c c0 s) = cs_ctx s"
  using assms by (simp_all add: closed_state_def)

lemma closed_state_mgrs:
  "mgr_change m' (closed_state m t c c0 s) = mgr_change m' s" "mgr_plain m' (closed_state m t c c0 s) = mgr_plain m' s"
  "mgr_token m' (closed_state m t c c0 s) = (if m' = m then No_Token else mgr_token m' s)"
  by (cases m; cases m'; simp add: closed_state_def fun_eq_iff)+

lemma opened_by_frame:
  assumes o: "opened_by t c c0 s" and f: "frame M s s'" and b: "cs_block s c < h_next (cs_heap s)"
  shows "opened_by t c c0 s'"
proof -
  have lt: "t < h_next (cs_heap s)" "c < h_next (cs_heap s)" "c0 < h_next (cs_heap s)" using o by (auto simp: opened_by_def opened_at_def)
  have "h_ref (cs_heap s') x = h_ref (cs_heap s) x \<and> cs_tok s' x = cs_tok s x \<and> cs_block s' x = cs_block s x"
    if "x < h_next (cs_heap s)" for x using f that unfolding frame_def by blast
  note k = this [OF lt(1)] this [OF lt(2)] this [OF lt(3)]
  have fs: "cs_var s' = cs_var s" "cs_value s' = cs_value s" "h_next (cs_heap s) \<le> h_next (cs_heap s')"
    "h_live (cs_heap s') = h_live (cs_heap s)" "h_oom (cs_heap s') = h_oom (cs_heap s)"
    using f unfolding frame_def by blast+
  show ?thesis using o fs k lt unfolding opened_by_def opened_at_def by auto
qed

text \<open>A block is entered, its body keeps everything, the manager is left: the whole keeps everything.\<close>

lemma block_frame:
  assumes r: "ready s" and a: "mgr_alive m s" and f: "frame M (open_state m s) s2" and m: "m \<notin> M"
  shows "\<exists>t c c0. opened_by t c c0 s2 \<and> mgr_token m s2 = Token t \<and>
           frame (insert m M) s (on_h (py_decref (mgr_obj m)) (closed_state m t c c0 s2))"
proof -
  define n where "n = h_next (cs_heap s)"
  obtain c0 where ob: "opened_by (n + 4) (n + 2) c0 (open_state m s)" and v: "cs_value s = Capsule c0"
    using ready_open(2) [OF r a] by (auto simp: n_def)
  have cx: "current_context s = Some (cs_ctx s (cs_block s c0))" by (simp add: current_context_def v)
  have id: "mgr_obj m < n" "1 \<le> h_ref (cs_heap s) (mgr_obj m)" using a by (simp_all add: mgr_alive_def n_def)
  note o = open_state_simps [OF n_def id(1) cx]
  have wf: "heap_wf (cs_heap s)" and wc: "w_context (cs_w s) = current_context s" and c0: "c0 < n" "cs_block s c0 < n"
    using r v by (auto simp: ready_def heap_wf_def n_def)
  have fresh: "n + 1 \<notin> h_live (cs_heap s)" using heap_wf_fresh_ge [OF wf] by (simp add: n_def)
  have old: "h_ref (cs_heap s2) x = h_ref (cs_heap (open_state m s)) x" "cs_tok s2 x = cs_tok (open_state m s) x"
    "cs_block s2 x = cs_block (open_state m s) x" "cs_ctx s2 x = cs_ctx (open_state m s) x" if "x < n + 5" for x
    using f that unfolding frame_def o by blast+
  have fs: "cs_var s2 = cs_var s" "h_live (cs_heap s2) = insert (n + 1) (h_live (cs_heap s))"
    "h_pymem (cs_heap s2) = h_pymem (cs_heap s)" "h_views (cs_heap s2) = h_views (cs_heap s)"
    "h_faults (cs_heap s2) = h_faults (cs_heap s)" "h_oom (cs_heap s2) = h_oom (cs_heap s)" "n + 5 \<le> h_next (cs_heap s2)"
    using f unfolding frame_def o by simp_all
  have ms: "mgr_change m' s2 = mgr_change m' s" "mgr_plain m' s2 = mgr_plain m' s"
    "m' \<notin> M \<Longrightarrow> mgr_token m' s2 = (if m' = m then Token (n + 4) else mgr_token m' s)" for m'
    using f unfolding frame_def open_state_mgrs n_def by simp_all
  have o2: "opened_by (n + 4) (n + 2) c0 s2" using opened_by_frame [OF ob f] o by simp
  define s3 where "s3 = closed_state m (n + 4) (n + 2) c0 s2"
  have cl: "cs_var s3 = cs_var s2" "cs_value s3 = Capsule c0" "w_context (cs_w s3) = Some (cs_ctx s2 (cs_block s2 c0))"
    "h_next (cs_heap s3) = Suc (h_next (cs_heap s2))" "h_live (cs_heap s3) = h_live (cs_heap s2) - {cs_block s2 (n + 2)}"
    "h_pymem (cs_heap s3) = h_pymem (cs_heap s2)" "h_views (cs_heap s3) = h_views (cs_heap s2)"
    "h_faults (cs_heap s3) = h_faults (cs_heap s2)" "h_oom (cs_heap s3) = h_oom (cs_heap s2)"
    "cs_block s3 = cs_block s2" "cs_ctx s3 = cs_ctx s2"
    by (simp_all add: s3_def closed_state_simps)
  have cl': "h_ref (cs_heap s3) x = h_ref (cs_heap s2) x" "cs_tok s3 x = cs_tok s2 x" if "x < n" for x
    using that fs(7) by (simp_all add: s3_def closed_state_simps)
  note cm = closed_state_mgrs [of _ m "n + 4" "n + 2" c0 s2, folded s3_def]
  have lv: "h_live (cs_heap s3) = h_live (cs_heap s)" using fresh old(3) [of "n + 2"] o(13) by (simp add: cl fs)
  have rf: "h_ref (cs_heap s3) x = h_ref (cs_heap s) x + (if x = mgr_obj m then 1 else 0)"
    "cs_tok s3 x = cs_tok s x" "cs_block s3 x = cs_block s x" "cs_ctx s3 x = cs_ctx s x" if "x < n" for x
    using that by (simp_all add: cl cl' old o)
  have w3: "w_context (cs_w s3) = w_context (cs_w s)" using c0 by (simp add: cl old o wc cx)
  have dec: "on_h (py_decref (mgr_obj m)) s3 =
      on_h (\<lambda>h. h\<lparr>h_ref := (h_ref h)(mgr_obj m := h_ref (cs_heap s) (mgr_obj m))\<rparr>) s3"
    using id rf(1) [OF id(1)] by (simp add: on_h_def on_w_def on_heap_def)
  have sm: "same_mgrs s3 (on_h g s3)" for g by (simp add: same_mgrs_def on_h_def on_w_def)
  have "frame (insert m M) s (on_h (py_decref (mgr_obj m)) s3)"
    unfolding dec frame_def same_mgrsD [OF sm]
    unfolding on_h_def on_w_def on_heap_def
    using fs lv rf w3 ms by (simp add: cl cm v n_def [symmetric])
  moreover have "mgr_token m s2 = Token (n + 4)" using ms(3) [OF m] by simp
  ultimately show ?thesis using o2 unfolding s3_def by blast
qed

context scope
begin

lemma exit_closes:
  assumes "ready s" and "mgr_alive m s" and f: "frame M (open_state m s) s2" and m: "m \<notin> M"
  shows "\<exists>s3. exit_op s2 = (True, s3) \<and> frame (insert m M) s (on_h (py_decref (mgr_obj m)) s3)"
proof -
  obtain t c c0 where o: "opened_by t c c0 s2" and t: "mgr_token m s2 = Token t"
    and fr: "frame (insert m M) s (on_h (py_decref (mgr_obj m)) (closed_state m t c c0 s2))"
    using block_frame [OF assms] by blast
  have "mgr_plain m s2" using f assms(2) unfolding frame_def open_state_mgrs mgr_alive_def by simp
  then have "exit_op s2 = (True, closed_state m t c c0 s2)"
    using leave_closed [OF o, of m] t by (intro exit) (simp_all add: closed_state_mgrs)
  then show ?thesis using fr by blast
qed

end

section \<open>The managers of the program\<close>

interpretation stream_scope: scope "Stream i" "StreamStrategyCtx_enter i" "StreamStrategyCtx_exit i" "\<lambda>b. on_h (c_free (Some b))"
proof unfold_locales
  fix s s'
  show "StreamStrategyCtx_enter i s = (case enter_clone (mgr_change (Stream i) s) (\<lambda>b. on_h (c_free (Some b))) s of
         (None, s1) \<Rightarrow> (None, s1)
       | (Some t, s1) \<Rightarrow> (Some (mgr_obj (Stream i)), on_h (py_incref (mgr_obj (Stream i))) (set_token (Stream i) (Token t) s1)))"
    unfolding StreamStrategyCtx_enter_def mgr_obj.simps set_token.simps mgr_change.simps [abs_def] ..
  show "leave (mgr_token (Stream i) s) (set_token (Stream i) No_Token) s = (True, s') \<Longrightarrow> StreamStrategyCtx_exit i s = (True, s')"
    unfolding StreamStrategyCtx_exit_def mgr_token.simps set_token.simps [abs_def] .
qed

interpretation transfer_scope: scope "Transfer i" "TransferModeCtx_enter i" "TransferModeCtx_exit i" "\<lambda>b. on_h (c_free (Some b))"
proof unfold_locales
  fix s s'
  show "TransferModeCtx_enter i s = (case enter_clone (mgr_change (Transfer i) s) (\<lambda>b. on_h (c_free (Some b))) s of
         (None, s1) \<Rightarrow> (None, s1)
       | (Some t, s1) \<Rightarrow> (Some (mgr_obj (Transfer i)), on_h (py_incref (mgr_obj (Transfer i))) (set_token (Transfer i) (Token t) s1)))"
    unfolding TransferModeCtx_enter_def mgr_obj.simps set_token.simps mgr_change.simps [abs_def] ..
  show "leave (mgr_token (Transfer i) s) (set_token (Transfer i) No_Token) s = (True, s') \<Longrightarrow> TransferModeCtx_exit i s = (True, s')"
    unfolding TransferModeCtx_exit_def mgr_token.simps set_token.simps [abs_def] .
qed

lemma plain_payload_modes:
  "bp_mode (w_pay (cs_w s) pa) = NORMAL_BUF \<Longrightarrow> init_buffer_mode L B pa t s = (True, s)"
  "bp_mode (w_pay (cs_w s) pa) = NORMAL_BUF \<Longrightarrow> close_buffer_mode L B pa s = s"
  by (simp_all add: init_buffer_mode_def close_buffer_mode_def Let_def)

interpretation buffer_scope: scope "Buffer i" "BufferModeCtx_enter L B i" "BufferModeCtx_exit L B i" "\<lambda>b s. s"
proof unfold_locales
  fix s s'
  assume r: "ready s" and p: "mgr_plain (Buffer i) s"
  obtain c where c: "cs_value s = Capsule c" using r by (auto simp: ready_def)
  show "BufferModeCtx_enter L B i s = (case enter_clone (mgr_change (Buffer i) s) (\<lambda>b s. s) s of
         (None, s1) \<Rightarrow> (None, s1)
       | (Some t, s1) \<Rightarrow> (Some (mgr_obj (Buffer i)), on_h (py_incref (mgr_obj (Buffer i))) (set_token (Buffer i) (Token t) s1)))"
    unfolding BufferModeCtx_enter_def mgr_obj.simps set_token.simps mgr_change.simps [abs_def] Let_def
      enter_clone_eq [OF r c refl]
    using p by (simp add: plain_payload_modes)
next
  fix s s'
  assume "leave (mgr_token (Buffer i) s) (set_token (Buffer i) No_Token) s = (True, s')" and "mgr_plain (Buffer i) s'"
  then show "BufferModeCtx_exit L B i s = (True, s')"
    unfolding BufferModeCtx_exit_def mgr_token.simps set_token.simps [abs_def] by (simp add: plain_payload_modes)
qed

lemma mgr_enter_open: "ready s \<Longrightarrow> mgr_alive m s \<Longrightarrow> mgr_enter L B m s = (Some (mgr_obj m), open_state m s)"
  using stream_scope.enter_open transfer_scope.enter_open buffer_scope.enter_open by (cases m) auto

lemma mgr_exit_closes:
  assumes "ready s" and "mgr_alive m s" and "frame M (open_state m s) s2" and "m \<notin> M"
  shows "\<exists>s3. mgr_exit L B m s2 = (True, s3) \<and> frame (insert m M) s (on_h (py_decref (mgr_obj m)) s3)"
  using assms stream_scope.exit_closes transfer_scope.exit_closes buffer_scope.exit_closes by (cases m) auto

section \<open>Nested blocks\<close>

text \<open>
  A program of nested \<^verbatim>\<open>with\<close> statements that looks at the current context at some points. The statement keeps the
  reference \<^verbatim>\<open>__enter__\<close> returned until \<^verbatim>\<open>__exit__\<close> is done.
\<close>

datatype block = Observe | Seq block block | With manager block

fun run_block :: "liburing \<Rightarrow> buf_api \<Rightarrow> block \<Rightarrow> cstate \<Rightarrow> ExecutionContext option list \<times> cstate" where
  "run_block L B Observe s = ([w_context (cs_w s)], s)"
| "run_block L B (Seq p q) s = (let (x, s1) = run_block L B p s; (y, s2) = run_block L B q s1 in (x @ y, s2))"
| "run_block L B (With m p) s =
     (case mgr_enter L B m s of
        (None, s1) \<Rightarrow> ([], s1)
      | (Some ob, s1) \<Rightarrow>
          (let (x, s2) = run_block L B p s1; (_, s3) = mgr_exit L B m s2 in (x, on_h (py_decref ob) s3)))"

text \<open>The reference: the contexts a reader of the program expects, by the lexical structure alone.\<close>

fun expected_contexts :: "(manager \<Rightarrow> ExecutionContext \<Rightarrow> ExecutionContext) \<Rightarrow> block \<Rightarrow> ExecutionContext \<Rightarrow> ExecutionContext list" where
  "expected_contexts ch Observe c = [c]"
| "expected_contexts ch (Seq p q) c = expected_contexts ch p c @ expected_contexts ch q c"
| "expected_contexts ch (With m p) c = expected_contexts ch p (ch m c)"

fun managers :: "block \<Rightarrow> manager set" where
  "managers Observe = {}"
| "managers (Seq p q) = managers p \<union> managers q"
| "managers (With m p) = insert m (managers p)"

text \<open>No manager is entered again inside its own block.\<close>

fun well_nested :: "block \<Rightarrow> bool" where
  "well_nested Observe \<longleftrightarrow> True"
| "well_nested (Seq p q) \<longleftrightarrow> well_nested p \<and> well_nested q"
| "well_nested (With m p) \<longleftrightarrow> m \<notin> managers p \<and> well_nested p"

lemma mgr_alive_open: "mgr_alive m s \<Longrightarrow> ready s \<Longrightarrow> mgr_alive m' s \<Longrightarrow> mgr_alive m' (open_state m s)"
  using ready_open(2) [of s m] by (auto simp: mgr_alive_def open_state_mgrs current_context_def
      open_state_simps [OF refl, of m s "cs_ctx s (cs_block s c)" for c])

lemma run_block_correct:
  assumes "ready s" and "well_nested p" and "\<forall>m \<in> managers p. mgr_alive m s" and "w_context (cs_w s) = Some c"
  shows "\<exists>s'. run_block L B p s = (map Some (expected_contexts (\<lambda>m. mgr_change m s) p c), s') \<and> frame (managers p) s s'"
  using assms
proof (induction p arbitrary: s c)
  case Observe
  then show ?case by simp
next
  case (Seq p q)
  obtain s1 where s1: "run_block L B p s = (map Some (expected_contexts (\<lambda>m. mgr_change m s) p c), s1)" "frame (managers p) s s1"
    using Seq.IH(1) [of s c] Seq.prems by auto
  have ch: "mgr_change m s1 = mgr_change m s" for m using s1(2) by (simp add: frame_def)
  have "w_context (cs_w s1) = Some c" using s1(2) Seq.prems(4) by (simp add: frame_def)
  then obtain s2 where s2: "run_block L B q s1 = (map Some (expected_contexts (\<lambda>m. mgr_change m s) q c), s2)" "frame (managers q) s1 s2"
    using Seq.IH(2) [of s1 c] Seq.prems s1(2) ready_frame mgr_alive_frame by (fastforce simp: ch)
  have "frame (managers p \<union> managers q) s s2"
    using frame_trans [OF frame_mono [OF s1(2)] frame_mono [OF s2(2)], of "managers p \<union> managers q"] by simp
  then show ?case using s1(1) s2(1) by simp
next
  case (With m p)
  have m: "ready s" "mgr_alive m s" "m \<notin> managers p" using With.prems by simp_all
  have cx: "current_context s = Some c" using With.prems(1,4) by (simp add: ready_def)
  have alive: "\<forall>m' \<in> managers p. mgr_alive m' (open_state m s)" using With.prems(3) mgr_alive_open m by simp
  have "w_context (cs_w (open_state m s)) = Some (mgr_change m s c)"
    using m(2) open_state_simps(3) [OF refl _ cx] by (simp add: mgr_alive_def)
  then obtain s2 where s2: "run_block L B p (open_state m s) = (map Some (expected_contexts (\<lambda>m. mgr_change m s) p (mgr_change m s c)), s2)"
    "frame (managers p) (open_state m s) s2"
    using With.IH [OF ready_open(1) [OF m(1,2)] _ alive, of "mgr_change m s c"] With.prems(2) by (auto simp: open_state_mgrs)
  obtain s3 where "mgr_exit L B m s2 = (True, s3)" "frame (insert m (managers p)) s (on_h (py_decref (mgr_obj m)) s3)"
    using mgr_exit_closes [OF m(1,2) s2(2) m(3)] by blast
  then show ?case using s2(1) mgr_enter_open [OF m(1,2)] by simp
qed

text \<open>
  C19. A program of nested \<^verbatim>\<open>with\<close> blocks over the managers for the stream strategy, the transfer mode and the
  (unregistered) buffer mode sees, at every point, the context its lexical structure says: the enclosing managers'
  changes applied outside in to the context it started with. Afterwards the context is the one from before, every
  clone has been freed, no reference is lost or dropped twice, and nothing went wrong in memory. A manager may be used
  again after its block, but not inside it.
\<close>

theorem context_blocks_nest:
  assumes "ready s" and "well_nested p" and "\<forall>m \<in> managers p. mgr_alive m s" and "w_context (cs_w s) = Some c"
    and "run_block L B p s = (seen, s')"
  shows "seen = map Some (expected_contexts (\<lambda>m. mgr_change m s) p c) \<and> cs_value s' = cs_value s \<and>
    w_context (cs_w s') = Some c \<and> h_live (cs_heap s') = h_live (cs_heap s) \<and> h_faults (cs_heap s') = h_faults (cs_heap s) \<and>
    (\<forall>x < h_next (cs_heap s). h_ref (cs_heap s') x = h_ref (cs_heap s) x)"
  using run_block_correct [OF assms(1-4), of L B] assms(4,5) by (auto simp: frame_def)

section \<open>A state to evaluate\<close>

definition cs_start :: cstate where
  "cs_start =
     \<lparr>cs_w = init_world, cs_var = None, cs_value = Unset, cs_block = (\<lambda>_. 0), cs_ctx = (\<lambda>_. default_context),
      cs_tok = (\<lambda>_. \<lparr>tk_old = Unset, tk_used = False\<rparr>),
      cs_bm = (\<lambda>_. \<lparr>bmc_payload = NORMAL_BUF, bmc_token = No_Token, bmc_buffer_payload = 0\<rparr>),
      cs_ss = (\<lambda>_. \<lparr>ssc_payload = ONESHOT, ssc_token = Uninit\<rparr>),
      cs_tm = (\<lambda>_. \<lparr>tmc_payload = NORMAL_TRANSFER, tmc_token = Uninit\<rparr>),
      cs_ec = (\<lambda>_. \<lparr>ecc_payload = 0, ecc_token = No_Token, ecc_buffer_payload = 0\<rparr>),
      cs_rings = (\<lambda>_. \<lparr>br_bufs = [], br_tail = 0\<rparr>)\<rparr>"

text \<open>The variable is initialised, then a stream manager and a transfer manager are made.\<close>

definition cs_demo :: cstate where
  "cs_demo =
     snd (UringioLoop_transfer_mode (Some 1) (snd (UringioLoop_stream_strategy (Some 1) (snd (ContextVar_init cs_start)))))"

lemmas ctx_eval = ContextVar_init_def make_variable_def cs_malloc_def new_capsule_def py_var_set_def cap_decref_def
  tok_decref_def c_malloc_def alloc_max_def py_decref_def py_incref_def cs_start_def init_world_def init_heap_def
  current_context_def UringioLoop_stream_strategy_def UringioLoop_transfer_mode_def ctx_guarded_def loop_guard_def
  ASSERT_LOOP_THREAD_def ASSERT_RING_LOOP_IS_CLOSING_def stream_of_def transfer_of_def

lemma init_cs:
  "ContextVar_init cs_start = (True, cs_start
     \<lparr>cs_w := init_world\<lparr>w_heap := init_heap\<lparr>h_next := 6, h_live := {3}, h_ref := (\<lambda>_. 0)(2 := 1, 4 := 1)\<rparr>,
                         w_context := Some default_context\<rparr>,
      cs_var := Some 2, cs_value := Capsule 4, cs_block := (\<lambda>_. 0)(4 := 3), cs_tok := (\<lambda>_. \<lparr>tk_old = Unset, tk_used = False\<rparr>)\<rparr>)"
  by (simp add: ctx_eval ctx_defs fun_eq_iff)

lemma cs_demo_eq:
  "cs_demo = cs_start
     \<lparr>cs_w := init_world\<lparr>w_heap := init_heap\<lparr>h_next := 8, h_live := {3}, h_ref := (\<lambda>_. 0)(2 := 1, 4 := 1, 6 := 1, 7 := 1)\<rparr>,
                         w_context := Some default_context\<rparr>,
      cs_var := Some 2, cs_value := Capsule 4, cs_block := (\<lambda>_. 0)(4 := 3), cs_tok := (\<lambda>_. \<lparr>tk_old = Unset, tk_used = False\<rparr>),
      cs_ss := (cs_ss cs_start)(6 := \<lparr>ssc_payload = MULTISHOT, ssc_token = Uninit\<rparr>),
      cs_tm := (cs_tm cs_start)(7 := \<lparr>tmc_payload = ZERO_COPY, tmc_token = Uninit\<rparr>)\<rparr>"
  unfolding cs_demo_def init_cs snd_conv by (simp add: ctx_eval ctx_defs)

lemma cs_demo_ready: "ready cs_demo"
  by (simp add: cs_demo_eq ready_def heap_wf_def init_heap_def current_context_def cs_start_def)

theorem context_blocks_nest_witness:
  "fst (run_block (lib_model 4 False) buf_model (With (Stream 6) (Seq (With (Transfer 7) Observe) Observe)) cs_demo) =
     [Some (default_context\<lparr>ec_stream := MULTISHOT, ec_transfer_mode := ZERO_COPY\<rparr>), Some (default_context\<lparr>ec_stream := MULTISHOT\<rparr>)]"
proof -
  obtain seen s' where r: "run_block (lib_model 4 False) buf_model (With (Stream 6) (Seq (With (Transfer 7) Observe) Observe)) cs_demo = (seen, s')"
    by (cases "run_block (lib_model 4 False) buf_model (With (Stream 6) (Seq (With (Transfer 7) Observe) Observe)) cs_demo")
  have "seen = map Some (expected_contexts (\<lambda>m. mgr_change m cs_demo) (With (Stream 6) (Seq (With (Transfer 7) Observe) Observe)) default_context)"
    using context_blocks_nest [OF cs_demo_ready _ _ _ r, of default_context]
    by (simp add: mgr_alive_def cs_demo_eq)
  then show ?thesis unfolding r by (simp add: cs_demo_eq)
qed

section \<open>Entering an execution context twice\<close>

text \<open>A manager made by \<^verbatim>\<open>loop.execution_context\<close>, its block \<open>b\<close> live or not, in a state where \<open>c0\<close> is current.\<close>

definition usable :: "nat \<Rightarrow> nat \<Rightarrow> nat \<Rightarrow> cstate \<Rightarrow> bool" where
  "usable e b c0 s \<longleftrightarrow>
     cs_var s \<noteq> None \<and> (\<forall>k. \<not> h_oom (cs_heap s) k) \<and> cs_value s = Capsule c0 \<and> c0 < h_next (cs_heap s) \<and>
     1 \<le> h_ref (cs_heap s) c0 \<and> e < h_next (cs_heap s) \<and> 1 \<le> h_ref (cs_heap s) e \<and> ecc_payload (cs_ec s e) = b \<and>
     bp_mode (w_pay (cs_w s) (ecc_buffer_payload (cs_ec s e))) = NORMAL_BUF"

lemma execution_context_enter_eq:
  assumes u: "usable e b c0 s" and n: "n = h_next (cs_heap s)"
  shows "ExecutionContextCtx_enter L B e s =
    (Some e,
     s\<lparr>cs_w := (cs_w s)\<lparr>w_heap := (cs_heap s)\<lparr>h_next := n + 3,
                 h_ref := (h_ref (cs_heap s))(n + 1 := 0, n + 2 := 1, n := 1, e := h_ref (cs_heap s) e + 1)\<rparr>,
                        w_context := Some (cs_ctx s b)\<rparr>,
       cs_value := Capsule n, cs_block := (cs_block s)(n := b),
       cs_tok := (cs_tok s)(n + 2 := \<lparr>tk_old = Capsule c0, tk_used = False\<rparr>),
       cs_ec := (cs_ec s)(e := (cs_ec s e)\<lparr>ecc_token := Token (n + 2)\<rparr>)\<rparr>)"
proof -
  define s1 where "s1 = s\<lparr>cs_w := (cs_w s)\<lparr>w_heap := (cs_heap s)\<lparr>h_next := n + 1, h_ref := (h_ref (cs_heap s))(n := 1)\<rparr>\<rparr>,
       cs_block := (cs_block s)(n := b)\<rparr>"
  have c: "new_capsule b s = (Some n, s1)" using u n by (simp add: new_capsule_def ctx_defs usable_def s1_def)
  have pl: "ecc_payload (cs_ec s e) = b" using u by (simp add: usable_def)
  have e: "e \<noteq> n" "e \<noteq> n + 1" "e \<noteq> n + 2" using u n by (auto simp: usable_def)
  have set: "ContextVar_set (Capsule n) s1 = (Some (n + 2),
     s1\<lparr>cs_w := (cs_w s1)\<lparr>w_heap := (cs_heap s1)\<lparr>h_next := n + 3, h_ref := (h_ref (cs_heap s))(n + 1 := 0, n + 2 := 1, n := 2)\<rparr>,
                        w_context := Some (cs_ctx s b)\<rparr>,
       cs_value := Capsule n, cs_tok := (cs_tok s)(n + 2 := \<lparr>tk_old = Capsule c0, tk_used = False\<rparr>)\<rparr>)"
    using u ContextVar_set_eq [of s1 "n + 1" n] by (simp add: usable_def s1_def fun_upd_twist)
  show ?thesis
    using u e unfolding ExecutionContextCtx_enter_def Let_def pl c prod.case option.case set
    by (simp add: usable_def cap_decref_def on_h_def on_w_def on_heap_def plain_payload_modes py_incref_def s1_def)
qed

lemma use_execution_context:
  assumes u: "usable e b c0 s"
  shows "\<exists>s1 s2. ExecutionContextCtx_enter L B e s = (Some e, s1) \<and> w_context (cs_w s1) = Some (cs_ctx s b) \<and>
    ExecutionContextCtx_exit e s1 = (True, s2) \<and> usable e b c0 s2 \<and>
    h_live (cs_heap s2) = h_live (c_free (Some b) (cs_heap s)) \<and> h_faults (cs_heap s2) = h_faults (c_free (Some b) (cs_heap s))"
proof -
  define n where "n = h_next (cs_heap s)"
  define s1 where "s1 = snd (ExecutionContextCtx_enter L B e s)"
  note en = execution_context_enter_eq [OF u n_def, of L B]
  have c0: "c0 < n" "1 \<le> h_ref (cs_heap s) c0" "e < n" "1 \<le> h_ref (cs_heap s) e" using u by (simp_all add: usable_def n_def)
  have o: "opened_at (n + 2) n c0 s1"
    using u c0 unfolding s1_def en by (auto simp: opened_at_def usable_def n_def)
  have f1: "h_next (cs_heap s1) = n + 3" "cs_block s1 n = b" "h_live (cs_heap s1) = h_live (cs_heap s)"
    "h_faults (cs_heap s1) = h_faults (cs_heap s)" "ecc_token (cs_ec s1 e) = Token (n + 2)" "ecc_payload (cs_ec s1 e) = b"
    "ecc_buffer_payload (cs_ec s1 e) = ecc_buffer_payload (cs_ec s e)" "w_pay (cs_w s1) = w_pay (cs_w s)"
    "h_ref (cs_heap s1) c0 \<ge> 1" "h_ref (cs_heap s1) e \<ge> 1" "cs_var s1 = cs_var s" "h_oom (cs_heap s1) = h_oom (cs_heap s)"
    using u c0 unfolding s1_def en by (auto simp: usable_def)
  define s2 where "s2 = snd (ContextVar_reset (Token (n + 2)) s1)"
  note rs = reset_frees [OF o f1(1) [symmetric]]
  have f2: "h_live (cs_heap s2) = h_live (c_free (Some b) (cs_heap s))" "h_faults (cs_heap s2) = h_faults (c_free (Some b) (cs_heap s))"
    "h_ref (cs_heap s2) (n + 2) = 1" "tk_old (cs_tok s2 (n + 2)) = Capsule c0" "2 \<le> h_ref (cs_heap s2) c0"
    "1 \<le> h_ref (cs_heap s2) e" "cs_value s2 = Capsule c0" "h_next (cs_heap s2) = n + 4" "cs_ec s2 = cs_ec s1"
    "w_pay (cs_w s2) = w_pay (cs_w s)" "cs_var s2 = cs_var s" "h_oom (cs_heap s2) = h_oom (cs_heap s)"
    using o c0 f1 unfolding s2_def rs by (auto simp: on_h_def on_w_def on_heap_def opened_at_def)
  define s3 where "s3 = s2\<lparr>cs_ec := (cs_ec s2)(e := (cs_ec s2 e)\<lparr>ecc_token := No_Token\<rparr>)\<rparr>"
  have t: "tok_decref (n + 2) s3 = on_h (\<lambda>h. h\<lparr>h_ref := (h_ref h)(n + 2 := 0, c0 := h_ref h c0 - 1)\<rparr>) s3"
    using f2 c0 by (intro tok_decref_eq) (simp_all add: s3_def)
  have "ExecutionContextCtx_exit e s1 = (True, tok_decref (n + 2) s3)"
    unfolding ExecutionContextCtx_exit_def f1 leave_def s3_def s2_def rs by simp
  moreover have "usable e b c0 (tok_decref (n + 2) s3)"
    using u f1 f2 c0 unfolding t by (auto simp: usable_def on_h_def on_w_def on_heap_def s3_def)
  moreover have "h_live (cs_heap (tok_decref (n + 2) s3)) = h_live (c_free (Some b) (cs_heap s)) \<and>
      h_faults (cs_heap (tok_decref (n + 2) s3)) = h_faults (c_free (Some b) (cs_heap s))"
    using f2 unfolding t by (simp add: on_h_def on_w_def on_heap_def s3_def)
  moreover have "w_context (cs_w s1) = Some (cs_ctx s b)" unfolding s1_def en by simp
  moreover have "ExecutionContextCtx_enter L B e s = (Some e, s1)" unfolding s1_def en by simp
  ultimately show ?thesis by blast
qed

text \<open>
  C40. The manager of \<^verbatim>\<open>loop.execution_context\<close> can be used once only: its block is wrapped in a capsule that owns it, so
  leaving the manager frees it. A second \<^verbatim>\<open>with\<close> on the same object makes the freed block the current context and frees
  it again when it is left.
\<close>

theorem execution_context_reuse_double_free:
  assumes "usable e b c0 s" and "b \<in> h_live (cs_heap s)"
    and "ExecutionContextCtx_enter L B e s = (Some e, s1)" and "ExecutionContextCtx_exit e s1 = (True, s2)"
    and "ExecutionContextCtx_enter L B e s2 = (Some e, s3)" and "ExecutionContextCtx_exit e s3 = (True, s4)"
  shows "h_faults (cs_heap s2) = h_faults (cs_heap s) \<and> b \<notin> h_live (cs_heap s2) \<and>
    w_context (cs_w s3) = Some (cs_ctx s2 b) \<and> h_faults (cs_heap s4) = h_faults (cs_heap s) @ [BadFree b]"
proof -
  have s2: "usable e b c0 s2" "h_live (cs_heap s2) = h_live (cs_heap s) - {b}" "h_faults (cs_heap s2) = h_faults (cs_heap s)"
    using use_execution_context [OF assms(1), of L B] assms(2-4) by auto
  have "w_context (cs_w s3) = Some (cs_ctx s2 b)" "h_faults (cs_heap s4) = h_faults (c_free (Some b) (cs_heap s2))"
    using use_execution_context [OF s2(1), of L B] assms(5,6) by auto
  then show ?thesis using s2 by simp
qed

text \<open>An execution context made by the constructor, with one buffer of 16 bytes.\<close>

definition cs_exec :: "nat option \<times> cstate" where
  "cs_exec = UringioLoop_execution_context 2 0 (Some (0, 1, 0, None, 0, 1, 16)) (snd (ContextVar_init cs_start))"

lemma cs_exec_usable: "fst cs_exec = Some 13" "usable 13 14 4 (snd cs_exec)" "14 \<in> h_live (cs_heap (snd cs_exec))"
  unfolding cs_exec_def init_cs snd_conv
  by (simp_all add: UringioLoop_execution_context_def ctx_guarded_def loop_guard_def ASSERT_LOOP_THREAD_def
      ASSERT_RING_LOOP_IS_CLOSING_def validate_buffer_mode_def validate_payload_type_def context_payload_def make_payload_def
      create_buffer_payload_def get_buffer_metadata_def fill_linear_def fill_both_def create_linear_buffers_def make_buffers_def
      pymem_malloc_def size_mul_def ctx_eval ctx_defs usable_def)

theorem execution_context_reuse_double_free_witness:
  "\<exists>s1 s2 s3 s4. ExecutionContextCtx_enter (lib_model 4 False) buf_model 13 (snd cs_exec) = (Some 13, s1) \<and>
     ExecutionContextCtx_exit 13 s1 = (True, s2) \<and> ExecutionContextCtx_enter (lib_model 4 False) buf_model 13 s2 = (Some 13, s3) \<and>
     ExecutionContextCtx_exit 13 s3 = (True, s4) \<and> BadFree 14 \<in> set (h_faults (cs_heap s4))"
proof -
  obtain s1 s2 where a: "ExecutionContextCtx_enter (lib_model 4 False) buf_model 13 (snd cs_exec) = (Some 13, s1)"
    "ExecutionContextCtx_exit 13 s1 = (True, s2)" "usable 13 14 4 s2"
    using use_execution_context [OF cs_exec_usable(2), of "lib_model 4 False" buf_model] by blast
  obtain s3 s4 where b: "ExecutionContextCtx_enter (lib_model 4 False) buf_model 13 s2 = (Some 13, s3)"
    "ExecutionContextCtx_exit 13 s3 = (True, s4)"
    using use_execution_context [OF a(3), of "lib_model 4 False" buf_model] by blast
  have "h_faults (cs_heap s4) = h_faults (cs_heap (snd cs_exec)) @ [BadFree 14]"
    using execution_context_reuse_double_free [OF cs_exec_usable(2,3) a(1,2) b] by simp
  then show ?thesis using a b by auto
qed

end
