(* ===== verification/Reader.thy ===== *)
theory Reader
  imports File_Api
begin

text \<open>
  \<^verbatim>\<open>src/python_api/reader/on_ready.c\<close>: the completion reader. One completion is looked up in the registry
  by its user data; the case of the opcode of its slot makes the result of the operation, releases what the
  request held, and the future gets the result or the error. One definition per case of the \<^verbatim>\<open>switch\<close>; what a
  case leaves behind is its outcome: a result for the future, or the \<^verbatim>\<open>continue\<close> that leaves the slot alone.

  The completion queue and the helpers for multishot \<^verbatim>\<open>recvmsg\<close> belong to liburing and are a parameter. The
  contents of a buffer are \<open>w_mem\<close>, what the kernel wrote into it. A call of a method of a future follows asyncio: it
  raises unless the future is pending. \<^verbatim>\<open>IS_SIGNALS_DATA\<close> selects by the static type of its argument, which is never
  \<^verbatim>\<open>SignalsData\<close>; it is the constant 0.
\<close>

record completions =
  io_uring_peek_cqe :: "io_uring \<Rightarrow> cqe option"
  io_uring_cqe_seen :: "cqe \<Rightarrow> io_uring \<Rightarrow> io_uring"
  io_uring_recvmsg_validate :: "nat option \<times> int \<Rightarrow> int \<Rightarrow> nat option \<Rightarrow> nat option"
  io_uring_recvmsg_payload :: "nat \<Rightarrow> nat option \<Rightarrow> nat"
  io_uring_recvmsg_payload_length :: "nat \<Rightarrow> int \<Rightarrow> nat option \<Rightarrow> u32"

definition completions_ok :: "completions \<Rightarrow> bool" where
  "completions_ok K \<longleftrightarrow>
     (\<forall>r. io_uring_peek_cqe K r = (case r_cq r of [] \<Rightarrow> None | c # _ \<Rightarrow> Some c)) \<and>
     (\<forall>c r. io_uring_cqe_seen K c r = r\<lparr>r_cq := tl (r_cq r)\<rparr>)"

text \<open>A completion queue as the manual pages describe it, whose multishot messages are all invalid.\<close>

definition cq_model :: completions where
  "cq_model =
     \<lparr>io_uring_peek_cqe = (\<lambda>r. case r_cq r of [] \<Rightarrow> None | c # _ \<Rightarrow> Some c),
      io_uring_cqe_seen = (\<lambda>c r. r\<lparr>r_cq := tl (r_cq r)\<rparr>),
      io_uring_recvmsg_validate = (\<lambda>_ _ _. None), io_uring_recvmsg_payload = (\<lambda>o' _. o'),
      io_uring_recvmsg_payload_length = (\<lambda>_ n _. word_of_int n)\<rparr>"

lemma cq_model_ok [simp]: "completions_ok cq_model"
  by (simp add: completions_ok_def cq_model_def)

definition ETIME :: int where "ETIME = 62"

definition IORING_CQE_BUFFER_SHIFT :: nat where "IORING_CQE_BUFFER_SHIFT = 16"

section \<open>Objects and futures\<close>

text \<open>
  The result of an operation: the object that is returned with its value; an object without a count is immortal.
\<close>

type_synonym py_result = "(nat option \<times> pyval) option"

datatype outcome = Skip | Done py_result

definition py_value :: "pyval \<Rightarrow> world \<Rightarrow> py_result \<times> world" where
  "py_value v w =
     (case py_new MemoryError w of (None, w1) \<Rightarrow> (None, w1) | (Some n, w1) \<Rightarrow> (Some (Some n, v), w1))"

definition PyBytes_FromStringAndSize :: "nat option \<Rightarrow> int \<Rightarrow> world \<Rightarrow> py_result \<times> world" where
  "PyBytes_FromStringAndSize src n w =
     (if n < 0 then (None, set_err CalleeError w)
      else
        case src of
          None \<Rightarrow> py_value (PyBytes (replicate (nat n) 0)) (if n = 0 then w else fault_at Indeterminate w)
        | Some m \<Rightarrow>
            py_value (PyBytes (take (nat n) (w_mem w m)))
              (if n \<le> int (length (w_mem w m)) then w else fault_at OutOfBounds w))"

definition PyErr_Print :: "world \<Rightarrow> world" where
  "PyErr_Print w = w\<lparr>w_err := None\<rparr>"

definition settle :: "nat \<Rightarrow> future \<Rightarrow> world \<Rightarrow> world" where
  "settle fu v w =
     (if w_fut w fu = Pending then w\<lparr>w_fut := (w_fut w)(fu := v)\<rparr> else set_err CalleeError w)"

definition set_result :: "nat \<Rightarrow> nat option \<times> pyval \<Rightarrow> world \<Rightarrow> world" where
  "set_result fu res w =
     (if w_fut w fu = Pending then on_heap (py_xincref (fst res)) (settle fu (Result (snd res)) w)
      else settle fu (Result (snd res)) w)"

text \<open>\<^verbatim>\<open>exc = OSError(-res)\<close>, passed to \<^verbatim>\<open>set_exception\<close>.\<close>

definition fail_future :: "nat \<Rightarrow> pyexc \<Rightarrow> world \<Rightarrow> world" where
  "fail_future fu e w =
     (case py_value PyNone w of
        (None, w1) \<Rightarrow> PyErr_Print w1
      | (Some (ob, _), w1) \<Rightarrow>
          on_heap (py_xdecref ob)
            (if w_fut w1 fu = Pending then on_heap (py_xincref ob) (settle fu (Exception e) w1)
             else settle fu (Exception e) w1))"

section \<open>Access to the slot\<close>

definition modify_slot :: "int \<Rightarrow> (RequestSlot \<Rightarrow> RequestSlot) \<Rightarrow> world \<Rightarrow> world" where
  "modify_slot i f w =
     w\<lparr>w_reg := (w_reg w)\<lparr>rr_slots := (rr_slots (w_reg w))[nat i := f (rr_slots (w_reg w) ! nat i)]\<rparr>\<rparr>"

text \<open>\<^verbatim>\<open>free_buffer_payload(slot->buffer_payload, force); slot->buffer_payload = NULL;\<close>\<close>

definition drop_payload :: "int \<Rightarrow> nat \<Rightarrow> bool \<Rightarrow> world \<Rightarrow> world" where
  "drop_payload i a force w =
     modify_slot i (\<lambda>s. s\<lparr>sl_buffer_payload := None\<rparr>) (free_payload_at (Some a) force w)"

definition release_fixed :: "nat \<Rightarrow> world \<Rightarrow> world" where
  "release_fixed a w =
     (let p = w_pay w a
      in if bp_mode p = FIXED
         then case idx_registry p of
                None \<Rightarrow> fault_at NullDeref w
              | Some r \<Rightarrow> w\<lparr>w_pool := (w_pool w)(r := snd (release_buffer_idx (w_pool w r) (bp_buf_idx p)))\<rparr>
         else w)"

definition with_slot_payload :: "RequestSlot \<Rightarrow> (nat \<Rightarrow> world \<Rightarrow> outcome \<times> world) \<Rightarrow> world \<Rightarrow> outcome \<times> world" where
  "with_slot_payload slot k w =
     (case sl_buffer_payload slot of None \<Rightarrow> (Done None, fault_at NullDeref w) | Some a \<Rightarrow> k a w)"

text \<open>
  The bytes of a scattered read: the loop over the iovecs that copies until the number of bytes of the completion
  is reached; the bytes copied, how many are still missing, and the faults of the copy.
\<close>

definition ssize :: "int \<Rightarrow> int" where
  "ssize n = signed_take_bit 63 n"

fun gather :: "(nat \<Rightarrow> u8 list) \<Rightarrow> iovec list \<Rightarrow> int \<Rightarrow> int \<Rightarrow> u8 list \<times> int \<times> fault list" where
  "gather M [] nr remaining = ([], remaining, if 0 < nr \<and> 0 < remaining then [OutOfBounds] else [])"
| "gather M (v # vs) nr remaining =
     (if nr \<le> 0 \<or> remaining \<le> 0 then ([], remaining, [])
      else
        let chunk = (if ssize (iov_len v) > remaining then remaining else iov_len v);
            src = (case iov_base v of None \<Rightarrow> [] | Some b \<Rightarrow> M b);
            (bs, rest, fs) = gather M vs (nr - 1) (remaining - ssize chunk)
        in (take (nat chunk) src @ bs, rest, (if int (length src) < chunk then [OutOfBounds] else []) @ fs))"

definition gather_bytes :: "VectoredBuffer option \<Rightarrow> int \<Rightarrow> world \<Rightarrow> py_result \<times> world" where
  "gather_bytes vec res w =
     (if res < 0 then (None, set_err CalleeError w)
      else
        case py_new MemoryError w of
          (None, w1) \<Rightarrow> (None, w1)
        | (Some n, w1) \<Rightarrow>
            (case vec of
               None \<Rightarrow> (None, fault_at NullDeref w1)
             | Some v \<Rightarrow>
                 (let (bs, rest, fs) = gather (w_mem w1) (snd (vb_iovecs v)) (vb_nr_vecs v) res
                  in (Some (Some n, PyBytes (bs @ replicate (nat rest) 0)),
                      fold fault_at (fs @ (if 0 < rest then [Indeterminate] else [])) w1))))"

section \<open>The cases of the switch\<close>

definition complete_read :: "int \<Rightarrow> RequestSlot \<Rightarrow> cqe \<Rightarrow> world \<Rightarrow> outcome \<times> world" where
  "complete_read i slot c =
     with_slot_payload slot (\<lambda>a w.
       let (result, w1) =
             (case linear_head (w_pay w a) of
                None \<Rightarrow> (None, fault_at NullDeref w)
              | Some b \<Rightarrow>
                  (case lb_buffer b of
                     None \<Rightarrow> (None, w)
                   | Some m \<Rightarrow> PyBytes_FromStringAndSize (Some m) (cqe_res c) w))
       in (Done result, drop_payload i a False (release_fixed a w1)))"

definition complete_readv :: "int \<Rightarrow> RequestSlot \<Rightarrow> cqe \<Rightarrow> world \<Rightarrow> outcome \<times> world" where
  "complete_readv i slot c =
     with_slot_payload slot (\<lambda>a w.
       let (result, w1) = gather_bytes (bp_vector (w_pay w a)) (cqe_res c) w
       in (Done result, drop_payload i a False w1))"

definition complete_write :: "int \<Rightarrow> RequestSlot \<Rightarrow> cqe \<Rightarrow> world \<Rightarrow> outcome \<times> world" where
  "complete_write i slot c w =
     (let (result, w1) = py_value (PyLong (cqe_res c)) w
      in case sl_buffer_payload slot of
           None \<Rightarrow> (Done None, fault_at NullDeref w1)
         | Some a \<Rightarrow> (Done result, drop_payload i a True (release_fixed a w1)))"

definition complete_writev :: "int \<Rightarrow> RequestSlot \<Rightarrow> cqe \<Rightarrow> world \<Rightarrow> outcome \<times> world" where
  "complete_writev i slot c w =
     (let (result, w1) = py_value (PyLong (cqe_res c)) w
      in (Done result,
          case sl_buffer_payload slot of None \<Rightarrow> w1 | Some a \<Rightarrow> drop_payload i a False w1))"

definition complete_open :: "int \<Rightarrow> RequestSlot \<Rightarrow> cqe \<Rightarrow> world \<Rightarrow> outcome \<times> world" where
  "complete_open i slot c w =
     (case sl_file slot of
        None \<Rightarrow> (Done None, w)
      | Some f \<Rightarrow>
          (Done (Some (Some f, PyObj f)), w\<lparr>w_files := (w_files w)(f := (w_files w f)\<lparr>uf_fd := cqe_res c\<rparr>)\<rparr>))"

definition complete_socket :: "int \<Rightarrow> RequestSlot \<Rightarrow> cqe \<Rightarrow> world \<Rightarrow> outcome \<times> world" where
  "complete_socket i slot c w =
     (case sl_socket slot of
        None \<Rightarrow> (Done None, w)
      | Some s \<Rightarrow>
          (Done (Some (Some s, PyObj s)), w\<lparr>w_socks := (w_socks w)(s := (w_socks w s)\<lparr>us_sock_fd := cqe_res c\<rparr>)\<rparr>))"

text \<open>\<^verbatim>\<open>bind\<close>, \<^verbatim>\<open>connect\<close> and \<^verbatim>\<open>listen\<close>.\<close>

definition complete_status :: "int \<Rightarrow> RequestSlot \<Rightarrow> cqe \<Rightarrow> world \<Rightarrow> outcome \<times> world" where
  "complete_status i slot c w =
     (case sl_socket slot of
        None \<Rightarrow> (Done None, w)
      | Some _ \<Rightarrow> (let (result, w1) = py_value (PyLong (cqe_res c)) w in (Done result, w1)))"

definition complete_accept :: "int \<Rightarrow> RequestSlot \<Rightarrow> cqe \<Rightarrow> world \<Rightarrow> outcome \<times> world" where
  "complete_accept i slot c w =
     (case sl_socket slot of
        None \<Rightarrow> (Done None, w)
      | Some s \<Rightarrow>
          (case py_new MemoryError w of
             (None, w1) \<Rightarrow>
               (Skip, on_heap (c_free (sl_addr slot))
                        (PyErr_Print (set_err (RuntimeError ''Can't create socket'') w1)))
           | (Some conn, w1) \<Rightarrow>
               (Done (Some (Some conn, PyObj conn)),
                modify_slot i (\<lambda>s. s\<lparr>sl_buffer_payload := None\<rparr>)
                  (w1\<lparr>w_socks := (w_socks w1)(conn :=
                         \<lparr>us_sock_fd = cqe_res c, us_domain = us_domain (w_socks w1 s),
                          us_addr = sl_addr slot, us_closed = False\<rparr>)\<rparr>))))"

definition linear_bytes :: "nat \<Rightarrow> int \<Rightarrow> world \<Rightarrow> py_result \<times> world" where
  "linear_bytes a n w =
     (case linear_head (w_pay w a) of
        None \<Rightarrow> (None, fault_at NullDeref w)
      | Some b \<Rightarrow> PyBytes_FromStringAndSize (lb_buffer b) n w)"

definition complete_recv :: "int \<Rightarrow> RequestSlot \<Rightarrow> cqe \<Rightarrow> world \<Rightarrow> outcome \<times> world" where
  "complete_recv i slot c w =
     (case sl_socket slot of
        None \<Rightarrow> (Done None, w)
      | Some _ \<Rightarrow>
          with_slot_payload slot (\<lambda>a w.
            let (result, w1) =
                  (if cqe_res c = 0 then PyBytes_FromStringAndSize None 0 w
                   else if 0 < cqe_res c then linear_bytes a (cqe_res c) w
                   else (None, w))
            in (Done result, drop_payload i a False (release_fixed a w1))) w)"

definition multishot_bytes ::
  "liburing \<Rightarrow> completions \<Rightarrow> int \<Rightarrow> RequestSlot \<Rightarrow> nat \<Rightarrow> cqe \<Rightarrow> world \<Rightarrow> outcome \<times> world" where
  "multishot_bytes L K i slot a c w =
     (let p = w_pay w a;
          bid = drop_bit IORING_CQE_BUFFER_SHIFT (cqe_flags c);
          buf = (case linear_head p of None \<Rightarrow> None | Some b \<Rightarrow> lb_buffer b, uint bid * linear_len p);
          out = uringio_recvmsg_validate_multishot (io_uring_recvmsg_validate K) (io_uring_recvmsg_payload K)
                  (io_uring_recvmsg_payload_length K) buf (cqe_res c) (sl_msghdr slot) (cqe_res c);
          w1 = check_linear p w;
          w2 = (if rm_is_null out
                then PyErr_Print (set_err (RuntimeError ''Operation result is not valid.'') w1) else w1);
          w3 = (if is_uringio_recvmsg_multishot_resubmit_required c
                then case sl_socket slot of
                       None \<Rightarrow> fault_at NullDeref w2
                     | Some s \<Rightarrow>
                         snd (ring_op (\<lambda>r. uringio_recvmsg_multishot L r i (us_sock_fd (w_socks w2 s))
                                (bp_bgid p) 0 (to_ptr (sl_msghdr slot)) zero_timeout) w2)
                else w2);
          (result, w4) = PyBytes_FromStringAndSize (rm_payload out) (ssize (uint (rm_payload_len out))) w3
      in (Done result, w4))"

definition complete_recvmsg ::
  "liburing \<Rightarrow> completions \<Rightarrow> int \<Rightarrow> RequestSlot \<Rightarrow> cqe \<Rightarrow> world \<Rightarrow> outcome \<times> world" where
  "complete_recvmsg L K i slot c =
     with_slot_payload slot (\<lambda>a w.
       let w1 = release_fixed a w
       in if sl_stream_strategy slot = MULTISHOT then multishot_bytes L K i slot a c w1
          else
            (let (result, w2) =
                   (if payload_type (w_pay w1 a) = PAYLOAD_LINEAR
                    then let (result, w2) = linear_bytes a (cqe_res c) w1
                         in (result, modify_slot i (\<lambda>s. s\<lparr>sl_addr := None\<rparr>) (on_heap (c_free (sl_addr slot)) w2))
                    else gather_bytes (bp_vector (w_pay w1 a)) (cqe_res c) w1)
             in (Done result, drop_payload i a False w2)))"

text \<open>\<^verbatim>\<open>send\<close> and \<^verbatim>\<open>sendmsg\<close>.\<close>

definition complete_send :: "int \<Rightarrow> RequestSlot \<Rightarrow> cqe \<Rightarrow> world \<Rightarrow> outcome \<times> world" where
  "complete_send i slot c w =
     (let w1 = (case sl_buffer_payload slot of
                  None \<Rightarrow> w | Some a \<Rightarrow> drop_payload i a False (release_fixed a w));
          (result, w2) = py_value (PyLong (cqe_res c)) w1
      in (Done result, w2))"

definition complete_close :: "int \<Rightarrow> RequestSlot \<Rightarrow> cqe \<Rightarrow> world \<Rightarrow> outcome \<times> world" where
  "complete_close i slot c w =
     (case sl_socket slot of
        Some s \<Rightarrow>
          (let (result, w1) = py_value (PyLong (cqe_res c))
                 (w\<lparr>w_socks := (w_socks w)(s := (w_socks w s)\<lparr>us_closed := True\<rparr>)\<rparr>)
           in (Done result, w1))
      | None \<Rightarrow>
          (case sl_file slot of
             Some f \<Rightarrow>
               (let (result, w1) = py_value (PyLong (cqe_res c)) (set_file_closed True f w) in (Done result, w1))
           | None \<Rightarrow> (Done None, w)))"

definition complete_timeout :: "int \<Rightarrow> RequestSlot \<Rightarrow> cqe \<Rightarrow> world \<Rightarrow> outcome \<times> world" where
  "complete_timeout i slot c w = (Done (Some (None, PyNone)), w)"

definition complete_other :: "int \<Rightarrow> RequestSlot \<Rightarrow> cqe \<Rightarrow> world \<Rightarrow> outcome \<times> world" where
  "complete_other i slot c w = (let (result, w1) = py_value (PyLong (cqe_res c)) w in (Done result, w1))"

definition complete :: "liburing \<Rightarrow> completions \<Rightarrow> int \<Rightarrow> RequestSlot \<Rightarrow> cqe \<Rightarrow> world \<Rightarrow> outcome \<times> world" where
  "complete L K i slot =
     (let oc = sl_opcode slot
      in if oc = IORING_OP_READ then complete_read i slot
         else if oc = IORING_OP_READV then complete_readv i slot
         else if oc = IORING_OP_WRITE then complete_write i slot
         else if oc = IORING_OP_WRITEV then complete_writev i slot
         else if oc = IORING_OP_OPENAT2 then complete_open i slot
         else if oc = IORING_OP_SOCKET then complete_socket i slot
         else if oc = IORING_OP_BIND \<or> oc = IORING_OP_CONNECT \<or> oc = IORING_OP_LISTEN then complete_status i slot
         else if oc = IORING_OP_ACCEPT then complete_accept i slot
         else if oc = IORING_OP_RECV then complete_recv i slot
         else if oc = IORING_OP_RECVMSG then complete_recvmsg L K i slot
         else if oc = IORING_OP_SEND \<or> oc = IORING_OP_SENDMSG then complete_send i slot
         else if oc = IORING_OP_CLOSE then complete_close i slot
         else if oc = IORING_OP_TIMEOUT then complete_timeout i slot
         else complete_other i slot)"

section \<open>One completion\<close>

definition cqe_seen :: "completions \<Rightarrow> cqe \<Rightarrow> world \<Rightarrow> world" where
  "cqe_seen K c w = w\<lparr>w_ring := io_uring_cqe_seen K c (w_ring w)\<rparr>"

definition rearm_wakeup :: "liburing \<Rightarrow> world \<Rightarrow> world" where
  "rearm_wakeup L w =
     (case io_uring_get_sqe L (w_ring w) of
        (None, r1) \<Rightarrow> w\<lparr>w_ring := r1\<rparr>
      | (Some sqe, r1) \<Rightarrow>
          w\<lparr>w_ring := with_sqe sqe (io_uring_sqe_set_data64 L WAKEUP_FD_TAG)
             (with_sqe sqe (io_uring_prep L (Prep_read (w_wakeup_fd w) (Addr (w_wakeup_buf w)) 8 0)) r1)\<rparr>)"

definition settle_result :: "nat \<Rightarrow> py_result \<Rightarrow> world \<Rightarrow> world" where
  "settle_result fu result w =
     (case result of None \<Rightarrow> w | Some res \<Rightarrow> on_heap (py_xdecref (fst res)) (set_result fu res w))"

definition handle_cqe :: "liburing \<Rightarrow> completions \<Rightarrow> cqe \<Rightarrow> world \<Rightarrow> world" where
  "handle_cqe L K c w =
     (let index = data_to_idx (cqe_user_data c)
      in case registry_get (w_reg w) index of
           None \<Rightarrow> cqe_seen K c w
         | Some slot \<Rightarrow>
             (case sl_future slot of
                None \<Rightarrow> cqe_seen K c w
              | Some fu \<Rightarrow>
                  (let timeout_expired = (sl_opcode slot = IORING_OP_TIMEOUT \<and> cqe_res c = - ETIME)
                   in if cqe_res c < 0 \<and> \<not> timeout_expired
                      then cqe_seen K c (remove_request index (fail_future fu (OSError (- cqe_res c)) w))
                      else if cqe_user_data c = WAKEUP_FD_TAG then cqe_seen K c (rearm_wakeup L w)
                      else
                        (case complete L K index slot c w of
                           (Skip, w1) \<Rightarrow> cqe_seen K c w1
                         | (Done result, w1) \<Rightarrow>
                             cqe_seen K c (remove_request index (settle_result fu result w1))))))"

text \<open>
  The loop runs while completions are available; new ones may arrive meanwhile. \<open>None\<close>: still running when the fuel
  is used up.
\<close>

fun on_uring_ready :: "nat \<Rightarrow> liburing \<Rightarrow> completions \<Rightarrow> world \<Rightarrow> world option" where
  "on_uring_ready 0 L K w = None"
| "on_uring_ready (Suc n) L K w =
     (case io_uring_peek_cqe K (w_ring w) of
        None \<Rightarrow> Some w
      | Some c \<Rightarrow> on_uring_ready n L K (handle_cqe L K c w))"

section \<open>What a case may change\<close>

text \<open>
  A case edits its own slot, keeps the future in it, and leaves the futures, the payloads and the contents of
  the buffers alone; the result goes to the future only afterwards.
\<close>

definition slot_edit :: "int \<Rightarrow> RequestRegistry \<Rightarrow> RequestRegistry \<Rightarrow> bool" where
  "slot_edit i reg reg' \<longleftrightarrow>
     (\<exists>f. (\<forall>s. sl_future (f s) = sl_future s \<and> sl_opcode (f s) = sl_opcode s) \<and>
        reg' = reg\<lparr>rr_slots := (rr_slots reg)[nat i := f (rr_slots reg ! nat i)]\<rparr>)"

definition own_slot :: "int \<Rightarrow> world \<Rightarrow> world \<Rightarrow> bool" where
  "own_slot i w w' \<longleftrightarrow> slot_edit i (w_reg w) (w_reg w') \<and> w_fut w' = w_fut w \<and> w_aborted w' = w_aborted w \<and>
     w_pay w' = w_pay w \<and> w_mem w' = w_mem w \<and> h_oom (w_heap w') = h_oom (w_heap w)"

lemma fold_oom:
  "(\<And>x h. h_oom (f x h) = h_oom h) \<Longrightarrow> h_oom (fold f xs h) = h_oom h"
  by (induction xs arbitrary: h) simp_all

lemma fault_at_mem [simp]: "w_mem (fault_at f w) = w_mem w"
  by (simp add: fault_at_def)

lemma free_oom [simp]:
  "h_oom (c_free q h) = h_oom h" "h_oom (pymem_free q h) = h_oom h" "h_oom (pybuffer_release v h) = h_oom h"
  by (cases q, simp_all) (cases q, simp_all add: pybuffer_release_def)

lemma range_oom [simp]:
  "h_oom (pymem_free_range ps n h) = h_oom h" "h_oom (release_range vs n h) = h_oom h"
  by (simp_all add: pymem_free_range_def release_range_def fold_oom)

lemma free_views_oom [simp]: "h_oom (release_views vs n h) = h_oom h"
  by (induction vs n h rule: release_views.induct) (simp_all del: pymem_free.simps)

lemma free_linear_oom [simp]: "h_oom (free_linear p h) = h_oom h"
  by (simp add: free_linear_def Let_def split: option.split prod.split list.split)

lemma free_vector_oom [simp]: "h_oom (free_vector p h) = h_oom h"
  by (simp add: free_vector_def Let_def del: pymem_free.simps split: option.split)

lemma free_buffer_payload_oom [simp]: "h_oom (free_buffer_payload pp force h) = h_oom h"
  by (simp add: free_buffer_payload_def del: c_free.simps split: option.split prod.split)

lemma slot_edit_refl [simp]: "slot_edit i reg reg"
  unfolding slot_edit_def by (rule exI [of _ "\<lambda>s. s"]) simp

lemma slot_edit_trans:
  assumes "slot_edit i r1 r2" and "slot_edit i r2 r3"
  shows "slot_edit i r1 r3"
proof -
  obtain f g where f: "\<And>s. sl_future (f s) = sl_future s \<and> sl_opcode (f s) = sl_opcode s"
      and g: "\<And>s. sl_future (g s) = sl_future s \<and> sl_opcode (g s) = sl_opcode s"
      and r: "r2 = r1\<lparr>rr_slots := (rr_slots r1)[nat i := f (rr_slots r1 ! nat i)]\<rparr>"
        "r3 = r2\<lparr>rr_slots := (rr_slots r2)[nat i := g (rr_slots r2 ! nat i)]\<rparr>"
    using assms unfolding slot_edit_def by blast
  show ?thesis unfolding slot_edit_def
    by (rule exI [of _ "\<lambda>s. g (f s)"], cases "nat i < length (rr_slots r1)") (simp_all add: f g r list_update_beyond)
qed

lemma own_slot_refl [simp]: "own_slot i w w"
  by (simp add: own_slot_def)

lemma own_slot_trans: "own_slot i w w1 \<Longrightarrow> own_slot i w1 w2 \<Longrightarrow> own_slot i w w2"
  by (auto simp: own_slot_def intro: slot_edit_trans)

lemma own_slot_modify:
  "(\<And>s. sl_future (f s) = sl_future s \<and> sl_opcode (f s) = sl_opcode s) \<Longrightarrow> own_slot i w (modify_slot i f w)"
  by (auto simp: own_slot_def modify_slot_def slot_edit_def intro!: exI [of _ f])

lemma own_slot_steps [simp]:
  "own_slot i w (set_err e w)" "own_slot i w (fault_at f w)" "own_slot i w (on_heap (c_free q) w)"
  "own_slot i w (PyErr_Print w)" "own_slot i w (release_fixed a w)" "own_slot i w (drop_payload i a b w)"
  "own_slot i w (check_linear p w)" "own_slot i w (snd (ring_op h w))" "own_slot i w (set_file_closed c x w)"
proof -
  show "own_slot i w (release_fixed a w)"
    by (auto simp: release_fixed_def own_slot_def Let_def split: option.splits)
  show "own_slot i w (drop_payload i a b w)" unfolding drop_payload_def
    by (rule own_slot_trans [OF _ own_slot_modify]) (simp_all add: own_slot_def free_payload_at_def)
qed (auto simp: own_slot_def PyErr_Print_def check_linear_def set_file_closed_def ring_op_def case_prod_beta)

lemma own_slot_faults: "own_slot i w (fold fault_at fs w)"
  by (induction fs arbitrary: w) (auto intro: own_slot_trans own_slot_steps)

lemma own_slot_py_new: "own_slot i w (snd (py_new e w))"
  by (simp add: py_new_def own_slot_def Let_def set_err_def)

lemma own_slot_py_value: "own_slot i w (snd (py_value v w))"
  using own_slot_py_new [of i w MemoryError] by (auto simp: py_value_def split: prod.splits option.splits)

lemma own_slot_bytes: "own_slot i w (snd (PyBytes_FromStringAndSize src n w))"
  by (auto simp: PyBytes_FromStringAndSize_def intro: own_slot_trans own_slot_py_value own_slot_steps
      split: option.split)

lemma own_slot_linear: "own_slot i w (snd (linear_bytes a n w))"
  by (simp add: linear_bytes_def own_slot_bytes split: option.split)

lemma own_slot_gather: "own_slot i w (snd (gather_bytes vec n w))"
proof -
  obtain q w1 where n: "py_new MemoryError w = (q, w1)" by force
  have w1: "own_slot i w w1" using own_slot_py_new [of i w MemoryError] n by simp
  have f: "own_slot i w (fold fault_at fs w1)" for fs by (rule own_slot_trans [OF w1 own_slot_faults])
  have f1: "own_slot i w (fault_at x (fold fault_at fs w1))" for x fs using f [of "fs @ [x]"] by simp
  show ?thesis
    by (simp add: gather_bytes_def n w1 f f1 own_slot_trans [OF w1] own_slot_steps case_prod_beta split: option.split)
qed

lemmas own_slot_objects = own_slot_py_new own_slot_py_value own_slot_bytes own_slot_linear own_slot_gather

lemma slot_edit_effect:
  assumes inv: "reg_inv reg" and s: "reg_abs reg i = Some s" and e: "slot_edit i reg reg'"
  shows "reg_inv reg'" and "reg_free reg' = reg_free reg"
    and "\<exists>s'. reg_abs reg' = (reg_abs reg)(i \<mapsto> s') \<and> sl_future s' = sl_future s \<and> sl_opcode s' = sl_opcode s"
proof -
  obtain f where f: "\<And>x. sl_future (f x) = sl_future x" "\<And>x. sl_opcode (f x) = sl_opcode x"
      and r: "reg' = reg\<lparr>rr_slots := (rr_slots reg)[nat i := f (rr_slots reg ! nat i)]\<rparr>"
    using e unfolding slot_edit_def by blast
  have i: "0 \<le> i" "i < rr_size reg" "nat i < length (rr_slots reg)" "rr_slots reg ! nat i = s" "sl_future s \<noteq> None"
    using reg_abs_range [OF s] reg_invD(3) [OF inv] s by (auto simp: reg_abs_def split: if_splits)
  show free: "reg_free reg' = reg_free reg" by (simp add: r reg_free_def)
  have fut: "sl_future (rr_slots reg' ! k) = sl_future (rr_slots reg ! k)" if "k < length (rr_slots reg)" for k
    using that i by (cases "k = nat i") (simp_all add: r f)
  show "reg_inv reg'"
  proof (rule reg_invI)
    fix k assume k: "k < length (rr_slots reg')"
    then have k': "k < length (rr_slots reg)" by (simp add: r)
    show "sl_future (rr_slots reg' ! k) = None \<longleftrightarrow> int k \<in> set (reg_free reg')"
      using reg_invD(9) [OF inv k'] fut [OF k'] free by simp
    assume none: "sl_future (rr_slots reg' ! k) = None"
    then have "k \<noteq> nat i" using fut [OF k'] i by auto
    then show "slot_blank (rr_slots reg' ! k)" using reg_invD(10) [OF inv k'] none fut [OF k'] by (simp add: r)
  qed (use reg_invD [OF inv] free in \<open>simp_all add: r\<close>)
  have "reg_abs reg' = (reg_abs reg)(i \<mapsto> f s)"
  proof (rule ext)
    fix k
    show "reg_abs reg' k = ((reg_abs reg)(i \<mapsto> f s)) k"
      using i by (cases "k = i") (auto simp: reg_abs_def r f nat_eq_iff)
  qed
  then show "\<exists>s'. reg_abs reg' = (reg_abs reg)(i \<mapsto> s') \<and> sl_future s' = sl_future s \<and> sl_opcode s' = sl_opcode s"
    using f by blast
qed

section \<open>The contract of a case\<close>

locale completion_case =
  fixes h :: "int \<Rightarrow> RequestSlot \<Rightarrow> cqe \<Rightarrow> world \<Rightarrow> outcome \<times> world"
  assumes own: "own_slot i w (snd (h i slot c w))"
begin

lemma case_effect:
  assumes inv: "reg_inv (w_reg w)" and s: "reg_abs (w_reg w) i = Some s"
  shows "reg_inv (w_reg (snd (h i slot c w)))" and "reg_free (w_reg (snd (h i slot c w))) = reg_free (w_reg w)"
    and "\<exists>s'. reg_abs (w_reg (snd (h i slot c w))) = (reg_abs (w_reg w))(i \<mapsto> s') \<and> sl_future s' = sl_future s"
    and "w_fut (snd (h i slot c w)) = w_fut w" and "w_aborted (snd (h i slot c w)) = w_aborted w"
    and "w_pay (snd (h i slot c w)) = w_pay w" and "w_mem (snd (h i slot c w)) = w_mem w"
    and "h_oom (w_heap (snd (h i slot c w))) = h_oom (w_heap w)"
  using own [of i w slot c] slot_edit_effect [OF inv s] unfolding own_slot_def by blast+

end

lemma own_slot_payload:
  "(\<And>a. own_slot i w (snd (k a w))) \<Longrightarrow> own_slot i w (snd (with_slot_payload slot k w))"
  by (simp add: with_slot_payload_def split: option.split)

lemma own_slot_after:
  "own_slot i w w1 \<Longrightarrow> own_slot i w (release_fixed a w1)"
  "own_slot i w w1 \<Longrightarrow> own_slot i w (drop_payload i a b w1)"
  "own_slot i w w1 \<Longrightarrow> own_slot i w (fault_at f w1)"
  "own_slot i w w1 \<Longrightarrow> own_slot i w (on_heap (c_free q) w1)"
  "own_slot i w w1 \<Longrightarrow> own_slot i w (PyErr_Print w1)"
  "own_slot i w w1 \<Longrightarrow> own_slot i w (set_err e w1)"
  "own_slot i w w1 \<Longrightarrow> own_slot i w (check_linear p w1)"
  "own_slot i w w1 \<Longrightarrow> own_slot i w (snd (ring_op h w1))"
  "own_slot i w w1 \<Longrightarrow> own_slot i w (snd (py_value v w1))"
  "own_slot i w w1 \<Longrightarrow> own_slot i w (snd (PyBytes_FromStringAndSize src n w1))"
  "own_slot i w w1 \<Longrightarrow> own_slot i w (snd (linear_bytes a n w1))"
  "own_slot i w w1 \<Longrightarrow> own_slot i w (snd (gather_bytes vec n w1))"
  "own_slot i w w1 \<Longrightarrow> own_slot i w (modify_slot i (\<lambda>s. s\<lparr>sl_buffer_payload := None\<rparr>) w1)"
  "own_slot i w w1 \<Longrightarrow> own_slot i w (modify_slot i (\<lambda>s. s\<lparr>sl_addr := None\<rparr>) w1)"
  using own_slot_trans own_slot_steps own_slot_objects own_slot_modify by auto

interpretation c_read: completion_case complete_read
  by unfold_locales (auto simp: complete_read_def Let_def case_prod_beta split: option.split
      intro!: own_slot_payload own_slot_after own_slot_refl)

interpretation c_readv: completion_case complete_readv
  by unfold_locales (auto simp: complete_readv_def Let_def case_prod_beta
      intro!: own_slot_payload own_slot_after own_slot_refl)

interpretation c_write: completion_case complete_write
  by unfold_locales (auto simp: complete_write_def Let_def case_prod_beta split: option.split
      intro!: own_slot_after own_slot_refl)

interpretation c_writev: completion_case complete_writev
  by unfold_locales (auto simp: complete_writev_def Let_def case_prod_beta split: option.split
      intro!: own_slot_after own_slot_refl)

interpretation c_open: completion_case complete_open
  by unfold_locales (auto simp: complete_open_def own_slot_def split: option.split)

interpretation c_socket: completion_case complete_socket
  by unfold_locales (auto simp: complete_socket_def own_slot_def split: option.split)

interpretation c_status: completion_case complete_status
  by unfold_locales (auto simp: complete_status_def Let_def case_prod_beta split: option.split
      intro!: own_slot_after own_slot_refl)

interpretation c_recv: completion_case complete_recv
  by unfold_locales (auto simp: complete_recv_def Let_def case_prod_beta split: option.split
      intro!: own_slot_payload own_slot_after own_slot_refl)

interpretation c_recvmsg: completion_case "complete_recvmsg L K" for L K
  by unfold_locales (auto simp: complete_recvmsg_def multishot_bytes_def Let_def case_prod_beta split: option.split
      intro!: own_slot_payload own_slot_after own_slot_refl)

interpretation c_send: completion_case complete_send
  by unfold_locales (auto simp: complete_send_def Let_def case_prod_beta split: option.split
      intro!: own_slot_after own_slot_refl)

interpretation c_timeout: completion_case complete_timeout
  by unfold_locales (simp add: complete_timeout_def)

interpretation c_other: completion_case complete_other
  by unfold_locales (auto simp: complete_other_def case_prod_beta intro!: own_slot_after own_slot_refl)

interpretation c_close: completion_case complete_close
proof
  fix i w slot c
  have "own_slot i w (w\<lparr>w_socks := x\<rparr>)" for x by (simp add: own_slot_def)
  then show "own_slot i w (snd (complete_close i slot c w))"
    by (auto simp: complete_close_def Let_def case_prod_beta split: option.split
        intro!: own_slot_after own_slot_steps)
qed

interpretation c_accept: completion_case complete_accept
proof
  fix i w slot c
  obtain q w1 where n: "py_new MemoryError w = (q, w1)" by force
  have w1: "own_slot i w w1" using own_slot_py_new [of i w MemoryError] n by simp
  then have "own_slot i w (w1\<lparr>w_socks := x\<rparr>)" for x by (simp add: own_slot_def)
  with w1 show "own_slot i w (snd (complete_accept i slot c w))"
    by (auto simp: complete_accept_def n split: option.split intro!: own_slot_after)
qed

interpretation every_case: completion_case "complete L K" for L K
  by unfold_locales (simp add: complete_def Let_def c_read.own c_readv.own c_write.own c_writev.own c_open.own
      c_socket.own c_status.own c_accept.own c_recv.own c_recvmsg.own c_send.own c_close.own c_timeout.own
      c_other.own)

section \<open>One completion and the registry\<close>

lemma settle_simps [simp]:
  "w_reg (settle fu v w) = w_reg w" "w_ring (settle fu v w) = w_ring w" "w_aborted (settle fu v w) = w_aborted w"
  "w_heap (settle fu v w) = w_heap w" "w_pay (settle fu v w) = w_pay w" "w_mem (settle fu v w) = w_mem w"
  "w_fut (settle fu v w) = (if w_fut w fu = Pending then (w_fut w)(fu := v) else w_fut w)"
  by (simp_all add: settle_def)

lemma settle_result_simps [simp]:
  "w_reg (settle_result fu q w) = w_reg w" "w_ring (settle_result fu q w) = w_ring w"
  "w_aborted (settle_result fu q w) = w_aborted w"
  "w_pay (settle_result fu q w) = w_pay w" "w_mem (settle_result fu q w) = w_mem w" "h_oom (w_heap (settle_result fu q w)) = h_oom (w_heap w)"
  "w_fut (settle_result fu q w) =
     (case q of Some res \<Rightarrow> if w_fut w fu = Pending then (w_fut w)(fu := Result (snd res)) else w_fut w
      | None \<Rightarrow> w_fut w)"
  by (simp_all add: settle_result_def set_result_def split: option.split)

lemma fail_future_simps [simp]:
  "w_reg (fail_future fu e w) = w_reg w" "w_ring (fail_future fu e w) = w_ring w"
  "w_aborted (fail_future fu e w) = w_aborted w"
  "w_pay (fail_future fu e w) = w_pay w" "w_mem (fail_future fu e w) = w_mem w" "h_oom (w_heap (fail_future fu e w)) = h_oom (w_heap w)"
  "w_fut (fail_future fu e w) =
     (if w_fut w fu = Pending \<and> \<not> h_oom (w_heap w) (h_next (w_heap w)) then (w_fut w)(fu := Exception e) else w_fut w)"
  by (simp_all add: fail_future_def py_value_def py_new_def PyErr_Print_def set_err_def Let_def)

lemma cqe_seen_simps [simp]:
  "w_pay (cqe_seen K c w) = w_pay w" "w_mem (cqe_seen K c w) = w_mem w" "w_heap (cqe_seen K c w) = w_heap w"
  "w_reg (cqe_seen K c w) = w_reg w" "w_fut (cqe_seen K c w) = w_fut w" "w_aborted (cqe_seen K c w) = w_aborted w"
  by (simp_all add: cqe_seen_def)

lemma remove_request_effect:
  assumes inv: "reg_inv (w_reg w)" and s: "reg_abs (w_reg w) i = Some s"
  shows "reg_inv (w_reg (remove_request i w))" and "reg_abs (w_reg (remove_request i w)) = (reg_abs (w_reg w))(i := None)"
    and "w_fut (remove_request i w) = w_fut w" and "w_aborted (remove_request i w) = w_aborted w"
    and "w_ring (remove_request i w) = w_ring w"
    and "w_pay (remove_request i w) = w_pay w" and "w_mem (remove_request i w) = w_mem w"
    and "h_oom (w_heap (remove_request i w)) = h_oom (w_heap w)"
proof -
  obtain reg' h' where rem: "registry_remove (w_pay w) (w_reg w) i (w_heap w) = Some (reg', h')"
    using registry_remove_held [OF inv s] by blast
  note eff = registry_remove_effect [OF inv s rem]
  show "reg_inv (w_reg (remove_request i w))" and "reg_abs (w_reg (remove_request i w)) = (reg_abs (w_reg w))(i := None)"
    and "w_fut (remove_request i w) = w_fut w" and "w_aborted (remove_request i w) = w_aborted w"
    and "w_ring (remove_request i w) = w_ring w"
    and "w_pay (remove_request i w) = w_pay w" and "w_mem (remove_request i w) = w_mem w"
    using rem eff by (simp_all add: remove_request_def)
  show "h_oom (w_heap (remove_request i w)) = h_oom (w_heap w)"
    using rem by (auto simp: remove_request_def registry_remove_def release_slot_def Let_def simp del: c_free.simps
        split: if_splits)
qed

lemma handle_cqe_unknown:
  assumes inv: "reg_inv (w_reg w)" and none: "reg_abs (w_reg w) (data_to_idx (cqe_user_data c)) = None"
  shows "handle_cqe L K c w = cqe_seen K c w"
proof (cases "registry_get (w_reg w) (data_to_idx (cqe_user_data c))")
  case (Some slot)
  with none inv have "sl_future slot = None" by (auto simp: registry_get_def reg_abs_def split: if_splits)
  with Some show ?thesis by (simp add: handle_cqe_def)
qed (simp add: handle_cqe_def)

lemma wakeup_index: "data_to_idx WAKEUP_FD_TAG = - 1"
  using data_to_idx_to_data [of "- 1"] by (simp add: idx_to_data_def WAKEUP_FD_TAG_def)

lemma handle_cqe_held:
  assumes inv: "reg_inv (w_reg w)" and s: "reg_abs (w_reg w) i = Some s" and fu: "sl_future s = Some fu"
    and i: "i = data_to_idx (cqe_user_data c)"
  shows "handle_cqe L K c w =
    (if cqe_res c < 0 \<and> \<not> (sl_opcode s = IORING_OP_TIMEOUT \<and> cqe_res c = - ETIME)
     then cqe_seen K c (remove_request i (fail_future fu (OSError (- cqe_res c)) w))
     else
       (case complete L K i s c w of
          (Skip, w1) \<Rightarrow> cqe_seen K c w1
        | (Done result, w1) \<Rightarrow> cqe_seen K c (remove_request i (settle_result fu result w1))))"
proof -
  have "cqe_user_data c \<noteq> WAKEUP_FD_TAG" using reg_abs_range [OF s] i wakeup_index by auto
  then show ?thesis
    using registry_get_abs [OF inv s] fu by (auto simp: handle_cqe_def Let_def i [symmetric])
qed

end
