(* ===== verification/Completion.thy ===== *)
theory Completion
  imports Reader
begin

text \<open>
  What the completion reader promises. \<open>expected\<close> is the value a caller of an operation waits for, stated over
  the contents of its buffers without the loops and the bookkeeping of the reader; \<open>slot_ready\<close> is what the kernel and the
  method that started the operation have to provide. The properties say that a completion settles exactly
  the future of its request, with that value or with the error, removes exactly its slot, and that the loop over the
  completion queue ends and leaves no completion behind.
\<close>

section \<open>The reference\<close>

definition iov_bytes :: "(nat \<Rightarrow> u8 list) \<Rightarrow> iovec list \<Rightarrow> u8 list" where
  "iov_bytes M vs = concat (map (\<lambda>v. case iov_base v of None \<Rightarrow> [] | Some b \<Rightarrow> M b) vs)"

definition iov_ok :: "(nat \<Rightarrow> u8 list) \<Rightarrow> iovec \<Rightarrow> bool" where
  "iov_ok M v \<longleftrightarrow>
     (case iov_base v of None \<Rightarrow> False | Some b \<Rightarrow> iov_len v = int (length (M b)) \<and> iov_len v < 2 ^ 63)"

definition linear_mem :: "world \<Rightarrow> nat \<Rightarrow> u8 list" where
  "linear_mem w a =
     (case linear_head (w_pay w a) of
        None \<Rightarrow> []
      | Some b \<Rightarrow> (case lb_buffer b of None \<Rightarrow> [] | Some m \<Rightarrow> w_mem w m))"

definition vector_mem :: "world \<Rightarrow> nat \<Rightarrow> u8 list" where
  "vector_mem w a =
     (case bp_vector (w_pay w a) of None \<Rightarrow> [] | Some v \<Rightarrow> iov_bytes (w_mem w) (snd (vb_iovecs v)))"

definition has_linear :: "world \<Rightarrow> nat \<Rightarrow> int \<Rightarrow> bool" where
  "has_linear w a n \<longleftrightarrow>
     (case linear_head (w_pay w a) of
        None \<Rightarrow> False
      | Some b \<Rightarrow> (case lb_buffer b of None \<Rightarrow> False | Some m \<Rightarrow> n \<le> int (length (w_mem w m))))"

definition has_vector :: "world \<Rightarrow> nat \<Rightarrow> int \<Rightarrow> bool" where
  "has_vector w a n \<longleftrightarrow>
     (case bp_vector (w_pay w a) of
        None \<Rightarrow> False
      | Some v \<Rightarrow> vb_nr_vecs v = int (length (snd (vb_iovecs v))) \<and> list_all (iov_ok (w_mem w)) (snd (vb_iovecs v)) \<and>
          n \<le> int (length (vector_mem w a)))"

definition slot_ready :: "world \<Rightarrow> RequestSlot \<Rightarrow> int \<Rightarrow> bool" where
  "slot_ready w s n =
     (let oc = sl_opcode s; sock = sl_socket s \<noteq> None
      in if oc = IORING_OP_READ then (case sl_buffer_payload s of None \<Rightarrow> False | Some a \<Rightarrow> has_linear w a n)
         else if oc = IORING_OP_READV then (case sl_buffer_payload s of None \<Rightarrow> False | Some a \<Rightarrow> has_vector w a n)
         else if oc = IORING_OP_WRITE then sl_buffer_payload s \<noteq> None
         else if oc = IORING_OP_OPENAT2 then sl_file s \<noteq> None
         else if oc = IORING_OP_RECV then sock \<and> (case sl_buffer_payload s of None \<Rightarrow> False | Some a \<Rightarrow> has_linear w a n)
         else if oc = IORING_OP_RECVMSG
         then sl_stream_strategy s = ONESHOT \<and>
              (case sl_buffer_payload s of
                 None \<Rightarrow> False
               | Some a \<Rightarrow> if payload_type (w_pay w a) = PAYLOAD_LINEAR then has_linear w a n else has_vector w a n)
         else if oc = IORING_OP_CLOSE then sock \<or> sl_file s \<noteq> None
         else if oc \<in> {IORING_OP_SOCKET, IORING_OP_BIND, IORING_OP_CONNECT, IORING_OP_LISTEN, IORING_OP_ACCEPT} then sock
         else True)"

definition expected :: "world \<Rightarrow> RequestSlot \<Rightarrow> int \<Rightarrow> pyval" where
  "expected w s n =
     (let oc = sl_opcode s
      in if oc = IORING_OP_READ \<or> oc = IORING_OP_RECV
         then PyBytes (take (nat n) (linear_mem w (the (sl_buffer_payload s))))
         else if oc = IORING_OP_READV then PyBytes (take (nat n) (vector_mem w (the (sl_buffer_payload s))))
         else if oc = IORING_OP_RECVMSG
         then (let a = the (sl_buffer_payload s)
               in PyBytes (take (nat n) (if payload_type (w_pay w a) = PAYLOAD_LINEAR then linear_mem w a else vector_mem w a)))
         else if oc = IORING_OP_OPENAT2 then PyObj (the (sl_file s))
         else if oc = IORING_OP_SOCKET then PyObj (the (sl_socket s))
         else if oc = IORING_OP_ACCEPT then PyObj (h_next (w_heap w))
         else if oc = IORING_OP_TIMEOUT then PyNone
         else PyLong n)"

lemma same_data:
  assumes "w_pay w' = w_pay w" and "w_mem w' = w_mem w"
  shows "linear_mem w' a = linear_mem w a" and "vector_mem w' a = vector_mem w a"
    and "has_linear w' a n = has_linear w a n" and "has_vector w' a n = has_vector w a n"
    and "slot_ready w' s n = slot_ready w s n"
proof -
  show 1: "linear_mem w' a = linear_mem w a" and 2: "vector_mem w' a = vector_mem w a" for a
    unfolding linear_mem_def vector_mem_def assms by (rule refl)+
  show 3: "has_linear w' a n = has_linear w a n" and 4: "has_vector w' a n = has_vector w a n" for a
    unfolding has_linear_def has_vector_def assms 2 by (rule refl)+
  show "slot_ready w' s n = slot_ready w s n" unfolding slot_ready_def 3 4 assms by (rule refl)
qed

section \<open>Copying out of the buffers\<close>

lemma ssize_id: "0 \<le> n \<Longrightarrow> n < 2 ^ 63 \<Longrightarrow> ssize n = n"
  by (simp add: ssize_def signed_take_bit_int_eq_self_iff)

lemma gather_spec:
  assumes "list_all (iov_ok M) vs" and "nr = int (length vs)" and "0 \<le> n" and "n \<le> int (length (iov_bytes M vs))"
    and "n < 2 ^ 63"
  shows "gather M vs nr n = (take (nat n) (iov_bytes M vs), 0, [])"
  using assms
proof (induction vs arbitrary: nr n)
  case Nil
  then show ?case by (simp add: iov_bytes_def)
next
  case (Cons v vs)
  obtain b where b: "iov_base v = Some b" "iov_len v = int (length (M b))" "iov_len v < 2 ^ 63"
    using Cons.prems(1) by (auto simp: iov_ok_def split: option.splits)
  have split: "iov_bytes M (v # vs) = M b @ iov_bytes M vs" by (simp add: iov_bytes_def b)
  show ?case
  proof (cases "n \<le> iov_len v")
    case True
    have rest: "gather M vs (nr - 1) 0 = ([], 0, [])"
      using Cons.IH [of "nr - 1" 0] Cons.prems by simp
    show ?thesis
      using True b Cons.prems rest split by (auto simp: ssize_id Let_def)
  next
    case False
    have rest: "gather M vs (nr - 1) (n - iov_len v) = (take (nat (n - iov_len v)) (iov_bytes M vs), 0, [])"
      using Cons.IH [of "nr - 1" "n - iov_len v"] Cons.prems False b split by simp
    have "nat n - length (M b) = nat (n - int (length (M b)))" by simp
    then show ?thesis
      using False b Cons.prems rest split by (simp add: ssize_id Let_def)
  qed
qed

section \<open>The result of a case\<close>

definition no_oom :: "world \<Rightarrow> bool" where
  "no_oom w \<longleftrightarrow> (\<forall>k. \<not> h_oom (w_heap w) k)"

lemma py_value_fst: "no_oom w \<Longrightarrow> fst (py_value v w) = Some (Some (h_next (w_heap w)), v)"
  by (simp add: py_value_def py_new_def no_oom_def Let_def)

lemma no_oom_own: "own_slot i w w' \<Longrightarrow> no_oom w \<Longrightarrow> no_oom w'"
  by (simp add: own_slot_def no_oom_def)

lemma bytes_fst:
  "no_oom w \<Longrightarrow> 0 \<le> n \<Longrightarrow> \<exists>ob. fst (PyBytes_FromStringAndSize (Some m) n w) = Some (ob, PyBytes (take (nat n) (w_mem w m)))"
  by (simp add: PyBytes_FromStringAndSize_def py_value_fst no_oom_own [OF own_slot_steps(2)])

lemma linear_bytes_fst:
  assumes "no_oom w" and "has_linear w a n" and "0 \<le> n"
  shows "\<exists>ob. fst (linear_bytes a n w) = Some (ob, PyBytes (take (nat n) (linear_mem w a)))"
  using assms bytes_fst [of w n]
  by (auto simp: linear_bytes_def linear_mem_def has_linear_def split: option.splits)

lemma gather_bytes_fst:
  assumes "no_oom w" and "has_vector w a n" and "0 \<le> n" and "n < 2 ^ 63"
  shows "\<exists>ob. fst (gather_bytes (bp_vector (w_pay w a)) n w) = Some (ob, PyBytes (take (nat n) (vector_mem w a)))"
proof -
  obtain v where v: "bp_vector (w_pay w a) = Some v" "vb_nr_vecs v = int (length (snd (vb_iovecs v)))"
      "list_all (iov_ok (w_mem w)) (snd (vb_iovecs v))" "n \<le> int (length (vector_mem w a))"
    using assms(2) by (auto simp: has_vector_def split: option.splits)
  obtain k w1 where n: "py_new MemoryError w = (Some k, w1)" "w_mem w1 = w_mem w"
    using assms(1) by (simp add: py_new_def no_oom_def Let_def)
  have "gather (w_mem w) (snd (vb_iovecs v)) (vb_nr_vecs v) n = (take (nat n) (vector_mem w a), 0, [])"
    using gather_spec [OF v(3) v(2) assms(3) _ assms(4)] v(1,4) by (simp add: vector_mem_def)
  then show ?thesis using n v(1) assms(3) by (simp add: gather_bytes_def)
qed

lemma release_fixed_data:
  assumes "no_oom w"
  shows "no_oom (release_fixed a w)" "has_linear (release_fixed a w) b m = has_linear w b m"
    "has_vector (release_fixed a w) b m = has_vector w b m" "linear_mem (release_fixed a w) b = linear_mem w b"
    "vector_mem (release_fixed a w) b = vector_mem w b" "w_pay (release_fixed a w) = w_pay w"
proof -
  have "w_pay (release_fixed a w) = w_pay w" "w_mem (release_fixed a w) = w_mem w"
    using own_slot_steps(5) [of 0 w a] by (simp_all add: own_slot_def)
  note same_data [OF this] this
  then show "no_oom (release_fixed a w)" "has_linear (release_fixed a w) b m = has_linear w b m"
    "has_vector (release_fixed a w) b m = has_vector w b m" "linear_mem (release_fixed a w) b = linear_mem w b"
    "vector_mem (release_fixed a w) b = vector_mem w b" "w_pay (release_fixed a w) = w_pay w"
    using no_oom_own [OF own_slot_steps(5) assms] by simp_all
qed

lemma complete_data_fst:
  assumes oom: "no_oom w" and ready: "slot_ready w s n" and n: "n = cqe_res c" "n < 2 ^ 63" and n0: "0 \<le> n"
    and data: "sl_opcode s \<in> {IORING_OP_READ, IORING_OP_RECV, IORING_OP_READV, IORING_OP_RECVMSG}"
  shows "\<exists>ob. fst (complete L K i s c w) = Done (Some (ob, expected w s n))"
proof -
  note ops = opcode_defs and run = complete_def expected_def with_slot_payload_def Let_def case_prod_beta
  have empty: "fst (PyBytes_FromStringAndSize None 0 w) = Some (Some (h_next (w_heap w)), PyBytes [])"
    using py_value_fst [OF oom, of "PyBytes []"] by (simp add: PyBytes_FromStringAndSize_def)
  have lin: "\<exists>ob. fst (linear_bytes a n w1) = Some (ob, PyBytes (take (nat n) (linear_mem w1 a)))"
    if "has_linear w1 a n" "no_oom w1" for a w1 using linear_bytes_fst [OF that(2) that(1) n0] .
  have vec: "\<exists>ob. fst (gather_bytes (bp_vector (w_pay w1 a)) n w1) = Some (ob, PyBytes (take (nat n) (vector_mem w1 a)))"
    if "has_vector w1 a n" "no_oom w1" for a w1 using gather_bytes_fst [OF that(2) that(1) n0 n(2)] .
  obtain a where a: "sl_buffer_payload s = Some a"
    using data ready by (auto simp: slot_ready_def ops split: option.splits)
  consider (read) "sl_opcode s = IORING_OP_READ" | (recv) "sl_opcode s = IORING_OP_RECV"
    | (readv) "sl_opcode s = IORING_OP_READV" | (recvmsg) "sl_opcode s = IORING_OP_RECVMSG" using data by blast
  then show ?thesis
  proof cases
    case read
    then have "has_linear w a n" using ready a by (simp add: slot_ready_def ops)
    then show ?thesis using bytes_fst [OF oom n0] a read n
      by (auto simp: run ops complete_read_def has_linear_def linear_mem_def split: option.splits)
  next
    case readv
    then have "has_vector w a n" using ready a by (simp add: slot_ready_def ops)
    then show ?thesis using vec [OF _ oom] a readv n by (simp add: run ops complete_readv_def)
  next
    case recv
    then have "has_linear w a n" "sl_socket s \<noteq> None" using ready a by (simp_all add: slot_ready_def ops)
    then show ?thesis using lin [OF _ oom] empty a recv n n0 by (auto simp: run ops complete_recv_def)
  next
    case recvmsg
    then have "sl_stream_strategy s = ONESHOT"
        "if payload_type (w_pay w a) = PAYLOAD_LINEAR then has_linear w a n else has_vector w a n"
      using ready a by (simp_all add: slot_ready_def ops)
    then show ?thesis
      using lin [of "release_fixed a w" a] vec [of "release_fixed a w" a] a recvmsg n
      by (simp add: run ops complete_recvmsg_def release_fixed_data [OF oom] split: if_splits)
  qed
qed

lemma complete_fst:
  assumes oom: "no_oom w" and ready: "slot_ready w s n" and n: "n = cqe_res c" "n < 2 ^ 63"
    and pos: "0 \<le> n \<or> sl_opcode s = IORING_OP_TIMEOUT"
  shows "\<exists>ob. fst (complete L K i s c w) = Done (Some (ob, expected w s n))"
proof -
  note val = py_value_fst [OF oom] and ops = opcode_defs
  consider (data) "sl_opcode s \<in> {IORING_OP_READ, IORING_OP_RECV, IORING_OP_READV, IORING_OP_RECVMSG}"
    | (sent) "sl_opcode s \<in> {IORING_OP_WRITE, IORING_OP_WRITEV, IORING_OP_SEND, IORING_OP_SENDMSG}"
    | (accept) "sl_opcode s = IORING_OP_ACCEPT"
    | (other) "sl_opcode s \<notin> {IORING_OP_READ, IORING_OP_RECV, IORING_OP_READV, IORING_OP_RECVMSG, IORING_OP_WRITE,
        IORING_OP_WRITEV, IORING_OP_SEND, IORING_OP_SENDMSG, IORING_OP_ACCEPT}"
    by blast
  then show ?thesis
  proof cases
    case data
    then show ?thesis using pos by (intro complete_data_fst [OF oom ready n]) (auto simp: ops)
  next
    case sent
    have "no_oom (drop_payload i a b (release_fixed a w))" for a b
      by (rule no_oom_own [of i, OF _ oom]) (intro own_slot_after own_slot_refl)
    then show ?thesis
      using sent ready val py_value_fst
      by (auto simp: complete_def slot_ready_def expected_def ops complete_write_def complete_writev_def complete_send_def
          Let_def case_prod_beta n split: option.splits)
  next
    case accept
    then show ?thesis
      using ready oom
      by (auto simp: complete_def slot_ready_def expected_def ops complete_accept_def py_new_def no_oom_def Let_def
          split: option.splits)
  next
    case other
    have closed: "no_oom (w\<lparr>w_socks := x\<rparr>)" "no_oom (set_file_closed b f w)" for x b f
      using oom by (simp_all add: no_oom_def set_file_closed_def)
    show ?thesis
      using other ready val py_value_fst [OF closed(1)] py_value_fst [OF closed(2)]
      by (auto simp: complete_def slot_ready_def expected_def ops Let_def case_prod_beta n complete_open_def
          complete_socket_def complete_status_def complete_close_def complete_timeout_def complete_other_def
          split: option.splits)
  qed
qed

section \<open>The step\<close>

text \<open>
  What the completion of a request does, whatever its outcome: its slot is free again, and no other slot, future,
  payload or buffer has changed.
\<close>

definition completes :: "int \<Rightarrow> nat \<Rightarrow> world \<Rightarrow> world \<Rightarrow> bool" where
  "completes i fu w w' \<longleftrightarrow>
     reg_inv (w_reg w') \<and> reg_abs (w_reg w') = (reg_abs (w_reg w))(i := None) \<and>
     (\<forall>f. f \<noteq> fu \<longrightarrow> w_fut w' f = w_fut w f) \<and> w_aborted w' = w_aborted w \<and> w_pay w' = w_pay w \<and>
     w_mem w' = w_mem w \<and> h_oom (w_heap w') = h_oom (w_heap w)"

lemma remove_completes:
  assumes inv: "reg_inv (w_reg w1)" and s: "reg_abs (w_reg w1) = (reg_abs (w_reg w))(i \<mapsto> s)"
    and f: "\<And>f. f \<noteq> fu \<Longrightarrow> w_fut w1 f = w_fut w f"
    and d: "w_aborted w1 = w_aborted w" "w_pay w1 = w_pay w" "w_mem w1 = w_mem w" "h_oom (w_heap w1) = h_oom (w_heap w)"
  shows "completes i fu w (cqe_seen K c (remove_request i w1))" and "w_fut (cqe_seen K c (remove_request i w1)) = w_fut w1"
proof -
  have "reg_abs (w_reg w1) i = Some s" by (simp add: s)
  note eff = remove_request_effect [OF inv this]
  show "completes i fu w (cqe_seen K c (remove_request i w1))"
    unfolding completes_def using eff f d s by simp
  show "w_fut (cqe_seen K c (remove_request i w1)) = w_fut w1" using eff by simp
qed

lemma handle_cqe_failed:
  assumes inv: "reg_inv (w_reg w)" and s: "reg_abs (w_reg w) i = Some s" and fu: "sl_future s = Some fu"
    and i: "i = data_to_idx (cqe_user_data c)"
    and err: "cqe_res c < 0" "\<not> (sl_opcode s = IORING_OP_TIMEOUT \<and> cqe_res c = - ETIME)"
  shows "completes i fu w (handle_cqe L K c w)"
    and "w_fut (handle_cqe L K c w) fu =
      (if w_fut w fu = Pending \<and> \<not> h_oom (w_heap w) (h_next (w_heap w)) then Exception (OSError (- cqe_res c))
       else w_fut w fu)"
proof -
  let ?w1 = "fail_future fu (OSError (- cqe_res c)) w"
  have h: "handle_cqe L K c w = cqe_seen K c (remove_request i ?w1)"
    using handle_cqe_held [OF inv s fu i] err by simp
  have "completes i fu w (cqe_seen K c (remove_request i ?w1)) \<and> w_fut (cqe_seen K c (remove_request i ?w1)) = w_fut ?w1"
    by (intro conjI remove_completes [where s = s]) (use inv s in \<open>auto simp: fun_upd_idem\<close>)
  then show "completes i fu w (handle_cqe L K c w)"
    and "w_fut (handle_cqe L K c w) fu =
      (if w_fut w fu = Pending \<and> \<not> h_oom (w_heap w) (h_next (w_heap w)) then Exception (OSError (- cqe_res c))
       else w_fut w fu)"
    by (simp_all add: h)
qed

lemma handle_cqe_done:
  assumes inv: "reg_inv (w_reg w)" and s: "reg_abs (w_reg w) i = Some s" and fu: "sl_future s = Some fu"
    and i: "i = data_to_idx (cqe_user_data c)"
    and res: "0 \<le> cqe_res c \<or> sl_opcode s = IORING_OP_TIMEOUT \<and> cqe_res c = - ETIME"
    and d: "fst (complete L K i s c w) = Done q"
  shows "completes i fu w (handle_cqe L K c w)"
    and "w_fut (handle_cqe L K c w) fu =
      (case q of Some r \<Rightarrow> if w_fut w fu = Pending then Result (snd r) else w_fut w fu | None \<Rightarrow> w_fut w fu)"
proof -
  let ?w0 = "snd (complete L K i s c w)"
  let ?w1 = "settle_result fu q ?w0"
  note eff = every_case.case_effect [OF inv s, of L K s c]
  obtain s' where s': "reg_abs (w_reg ?w0) = (reg_abs (w_reg w))(i \<mapsto> s')" using eff(3) by blast
  have e: "complete L K i s c w = (Done q, ?w0)" using d by (simp add: prod_eq_iff)
  have h: "handle_cqe L K c w = cqe_seen K c (remove_request i ?w1)"
    unfolding handle_cqe_held [OF inv s fu i] using res by (subst e) auto
  have "completes i fu w (cqe_seen K c (remove_request i ?w1)) \<and> w_fut (cqe_seen K c (remove_request i ?w1)) = w_fut ?w1"
    by (intro conjI remove_completes [where s = s']) (use eff s' in \<open>auto split: option.split\<close>)
  then show "completes i fu w (handle_cqe L K c w)"
    and "w_fut (handle_cqe L K c w) fu =
      (case q of Some r \<Rightarrow> if w_fut w fu = Pending then Result (snd r) else w_fut w fu | None \<Rightarrow> w_fut w fu)"
    using eff(4) by (simp_all add: h split: option.split)
qed

lemma complete_skip:
  "fst (complete L K i s c w) = Skip \<Longrightarrow> \<not> no_oom w"
  by (auto simp: complete_def complete_read_def complete_readv_def complete_write_def complete_writev_def
      complete_open_def complete_socket_def complete_status_def complete_accept_def complete_recv_def
      complete_recvmsg_def complete_send_def complete_close_def complete_timeout_def complete_other_def
      with_slot_payload_def multishot_bytes_def py_new_def no_oom_def Let_def case_prod_beta
      split: option.splits if_splits)

section \<open>The completion queue\<close>

text \<open>
  While the reader runs the kernel may post further completions; that the loop ends is stated for a kernel that
  posts none meanwhile.
\<close>

definition quiet :: "liburing \<Rightarrow> bool" where
  "quiet L \<longleftrightarrow>
     (\<forall>r. r_cq (snd (io_uring_get_sqe L r)) = r_cq r) \<and> (\<forall>r. r_cq (snd (io_uring_submit L r)) = r_cq r)"

lemma lib_model_quiet [simp]: "quiet (lib_model e f)"
  by (simp add: quiet_def)

lemma quiet_steps:
  assumes "quiet L"
  shows "io_uring_get_sqe L r = (q, r1) \<Longrightarrow> r_cq r1 = r_cq r"
    and "io_uring_submit L r = (n, r1) \<Longrightarrow> r_cq r1 = r_cq r"
  using assms unfolding quiet_def by (metis snd_conv)+

lemma quiet_set_data_and_submit: "quiet L \<Longrightarrow> r_cq (snd (set_data_and_submit L sqe i r)) = r_cq r"
  by (auto simp: set_data_and_submit_def Let_def dest: quiet_steps split: prod.split)

lemma quiet_recvmsg_multishot:
  assumes "quiet L"
  shows "r_cq (snd (uringio_recvmsg_multishot L r i fd bgid pf m tp)) = r_cq r"
proof -
  have q: "r_cq (snd (io_uring_get_sqe L r)) = r_cq r" for r using assms by (simp add: quiet_def)
  show ?thesis
    by (simp add: uringio_recvmsg_multishot_def SQE_WITH_OPTIONAL_TIMEOUT_def create_sqe_def timeout_def q
        quiet_set_data_and_submit [OF assms] Let_def case_prod_beta split: option.split)
qed

lemma ring_kept [simp]:
  "w_ring (snd (py_new e w)) = w_ring w" "w_ring (snd (py_value v w)) = w_ring w"
  "w_ring (snd (PyBytes_FromStringAndSize src n w)) = w_ring w" "w_ring (snd (linear_bytes a n w)) = w_ring w"
  "w_ring (fold fault_at fs w) = w_ring w" "w_ring (snd (gather_bytes vec n w)) = w_ring w"
  "w_ring (drop_payload i a b w) = w_ring w" "w_ring (release_fixed a w) = w_ring w"
  "w_ring (modify_slot i g w) = w_ring w" "w_ring (PyErr_Print w) = w_ring w" "w_ring (check_linear p w) = w_ring w"
  "w_ring (set_file_closed c f w) = w_ring w"
proof -
  show new: "w_ring (snd (py_new e w)) = w_ring w" for e w by (simp add: py_new_def Let_def)
  show val: "w_ring (snd (py_value v w)) = w_ring w" for v w
    using new [of MemoryError w] by (auto simp: py_value_def split: prod.split option.split)
  show bytes: "w_ring (snd (PyBytes_FromStringAndSize src n w)) = w_ring w" for src n w
    by (simp add: PyBytes_FromStringAndSize_def val split: option.split)
  show "w_ring (snd (linear_bytes a n w)) = w_ring w" by (simp add: linear_bytes_def bytes split: option.split)
  show faults: "w_ring (fold fault_at fs w) = w_ring w" for fs w by (induction fs arbitrary: w) simp_all
  show "w_ring (snd (gather_bytes vec n w)) = w_ring w"
    using new [of MemoryError w] by (auto simp: gather_bytes_def faults split: prod.split option.split)
qed (simp_all add: drop_payload_def release_fixed_def modify_slot_def PyErr_Print_def check_linear_def
    set_file_closed_def Let_def split: option.split)

lemma case_ring [simp]:
  "w_ring (snd (complete_read i s c w)) = w_ring w" "w_ring (snd (complete_readv i s c w)) = w_ring w"
  "w_ring (snd (complete_write i s c w)) = w_ring w" "w_ring (snd (complete_writev i s c w)) = w_ring w"
  "w_ring (snd (complete_open i s c w)) = w_ring w" "w_ring (snd (complete_socket i s c w)) = w_ring w"
  "w_ring (snd (complete_status i s c w)) = w_ring w" "w_ring (snd (complete_accept i s c w)) = w_ring w"
  "w_ring (snd (complete_recv i s c w)) = w_ring w" "w_ring (snd (complete_send i s c w)) = w_ring w"
  "w_ring (snd (complete_close i s c w)) = w_ring w" "w_ring (snd (complete_timeout i s c w)) = w_ring w"
  "w_ring (snd (complete_other i s c w)) = w_ring w"
  by (simp_all add: complete_read_def complete_readv_def complete_write_def complete_writev_def complete_open_def
      complete_socket_def complete_status_def complete_accept_def complete_recv_def complete_send_def
      complete_close_def complete_timeout_def complete_other_def with_slot_payload_def Let_def case_prod_beta
      split: option.split)

lemma multishot_cq:
  "quiet L \<Longrightarrow> r_cq (w_ring (snd (multishot_bytes L K i s a c w))) = r_cq (w_ring w)"
  by (simp add: multishot_bytes_def Let_def case_prod_beta quiet_recvmsg_multishot split: option.split)

lemma recvmsg_cq:
  "quiet L \<Longrightarrow> r_cq (w_ring (snd (complete_recvmsg L K i s c w))) = r_cq (w_ring w)"
  by (simp add: complete_recvmsg_def with_slot_payload_def multishot_cq Let_def case_prod_beta split: option.split)

lemma complete_cq: "quiet L \<Longrightarrow> r_cq (w_ring (snd (complete L K i s c w))) = r_cq (w_ring w)"
  by (simp add: complete_def Let_def recvmsg_cq)

lemma handle_cqe_cq:
  assumes K: "completions_ok K" and q: "quiet L" and inv: "reg_inv (w_reg w)"
  shows "r_cq (w_ring (handle_cqe L K c w)) = tl (r_cq (w_ring w))"
proof (cases "reg_abs (w_reg w) (data_to_idx (cqe_user_data c))")
  case None
  then show ?thesis using K by (simp add: handle_cqe_unknown [OF inv] cqe_seen_def completions_ok_def)
next
  case (Some s)
  obtain fu where fu: "sl_future s = Some fu" using Some by (auto simp: reg_abs_def split: if_splits)
  define i where "i = data_to_idx (cqe_user_data c)"
  have seen: "r_cq (w_ring (cqe_seen K c x)) = tl (r_cq (w_ring x))" for x
    using K by (simp add: cqe_seen_def completions_ok_def)
  have rem: "w_ring (remove_request i x) = w_ring x" for x
    by (simp add: remove_request_def split: option.split prod.split)
  note cq = complete_cq [OF q, of K i s c w]
  show ?thesis
    unfolding handle_cqe_held [OF inv Some [folded i_def] fu i_def]
    using cq by (auto simp: seen rem split: prod.splits outcome.splits)
qed

section \<open>One step of the loop\<close>

lemma reg_abs_future: "reg_abs reg i = Some s \<Longrightarrow> \<exists>fu. sl_future s = Some fu"
  by (auto simp: reg_abs_def split: if_splits)

lemma handle_cqe_step:
  fixes c :: cqe
  assumes K: "completions_ok K" and q: "quiet L" and inv: "reg_inv (w_reg w)" and oom: "no_oom w"
  defines "i \<equiv> data_to_idx (cqe_user_data c)"
  shows "reg_inv (w_reg (handle_cqe L K c w))" and "no_oom (handle_cqe L K c w)"
    and "r_cq (w_ring (handle_cqe L K c w)) = tl (r_cq (w_ring w))"
    and "reg_abs (w_reg (handle_cqe L K c w)) = (reg_abs (w_reg w))(i := None)"
    and "w_aborted (handle_cqe L K c w) = w_aborted w" and "w_pay (handle_cqe L K c w) = w_pay w"
    and "w_mem (handle_cqe L K c w) = w_mem w"
    and "w_fut (handle_cqe L K c w) f \<noteq> w_fut w f \<Longrightarrow>
      w_fut w f = Pending \<and> (\<exists>s. reg_abs (w_reg w) i = Some s \<and> sl_future s = Some f)"
proof -
  let ?w = "handle_cqe L K c w"
  have ie: "i = data_to_idx (cqe_user_data c)" by (simp add: i_def)
  have "reg_inv (w_reg ?w) \<and> no_oom ?w \<and> reg_abs (w_reg ?w) = (reg_abs (w_reg w))(i := None) \<and>
      w_aborted ?w = w_aborted w \<and> w_pay ?w = w_pay w \<and> w_mem ?w = w_mem w \<and>
      (w_fut ?w f \<noteq> w_fut w f \<longrightarrow> w_fut w f = Pending \<and> (\<exists>s. reg_abs (w_reg w) i = Some s \<and> sl_future s = Some f))"
  proof (cases "reg_abs (w_reg w) i")
    case None
    then have "?w = cqe_seen K c w" using handle_cqe_unknown [OF inv] by (simp add: i_def)
    with None inv oom show ?thesis by (simp add: fun_upd_idem no_oom_def)
  next
    case (Some s)
    obtain fu where fu: "sl_future s = Some fu" using reg_abs_future [OF Some] by blast
    have "completes i fu w ?w \<and> (w_fut ?w fu \<noteq> w_fut w fu \<longrightarrow> w_fut w fu = Pending)"
    proof (cases "cqe_res c < 0 \<and> \<not> (sl_opcode s = IORING_OP_TIMEOUT \<and> cqe_res c = - ETIME)")
      case True
      then show ?thesis using handle_cqe_failed [OF inv Some fu ie] by simp
    next
      case False
      obtain d where d: "fst (complete L K i s c w) = Done d" using complete_skip [of L K i s c w] oom
        by (cases "fst (complete L K i s c w)") auto
      show ?thesis using handle_cqe_done [OF inv Some fu ie _ d] False by (auto split: option.splits if_splits)
    qed
    then show ?thesis using Some fu oom by (cases "f = fu") (auto simp: completes_def no_oom_def)
  qed
  then show "reg_inv (w_reg ?w)" and "no_oom ?w" and "reg_abs (w_reg ?w) = (reg_abs (w_reg w))(i := None)"
    and "w_aborted ?w = w_aborted w" and "w_pay ?w = w_pay w" and "w_mem ?w = w_mem w"
    and "w_fut ?w f \<noteq> w_fut w f \<Longrightarrow> w_fut w f = Pending \<and> (\<exists>s. reg_abs (w_reg w) i = Some s \<and> sl_future s = Some f)"
    by blast+
  show "r_cq (w_ring ?w) = tl (r_cq (w_ring w))" by (rule handle_cqe_cq [OF K q inv])
qed

text \<open>A completion that is an error, or whose operation has what it needs, settles the future of its request.\<close>

definition deliverable :: "world \<Rightarrow> cqe \<Rightarrow> bool" where
  "deliverable w c \<longleftrightarrow>
     c_int_range (cqe_res c) \<and>
     (case reg_abs (w_reg w) (data_to_idx (cqe_user_data c)) of
        None \<Rightarrow> True | Some s \<Rightarrow> cqe_res c < 0 \<or> slot_ready w s (cqe_res c))"

lemma slot_ready_timeout: "sl_opcode s = IORING_OP_TIMEOUT \<Longrightarrow> slot_ready w s n"
  by (simp add: slot_ready_def opcode_defs Let_def)

lemma handle_cqe_delivers:
  assumes inv: "reg_inv (w_reg w)" and oom: "no_oom w" and s: "reg_abs (w_reg w) i = Some s"
    and fu: "sl_future s = Some fu" and i: "i = data_to_idx (cqe_user_data c)" and rng: "c_int_range (cqe_res c)"
    and res: "0 \<le> cqe_res c \<or> sl_opcode s = IORING_OP_TIMEOUT \<and> cqe_res c = - ETIME"
    and ready: "slot_ready w s (cqe_res c)"
  shows "completes i fu w (handle_cqe L K c w)"
    and "w_fut w fu = Pending \<Longrightarrow> w_fut (handle_cqe L K c w) fu = Result (expected w s (cqe_res c))"
proof -
  have n: "cqe_res c < 2 ^ 63" using rng by (simp add: c_int_range_def)
  obtain ob where d: "fst (complete L K i s c w) = Done (Some (ob, expected w s (cqe_res c)))"
    using complete_fst [OF oom ready refl n, of L K i] res by auto
  note h = handle_cqe_done [OF inv s fu i res d]
  show "completes i fu w (handle_cqe L K c w)" by (rule h(1))
  show "w_fut w fu = Pending \<Longrightarrow> w_fut (handle_cqe L K c w) fu = Result (expected w s (cqe_res c))"
    using h(2) by simp
qed

lemma handle_cqe_settles:
  assumes inv: "reg_inv (w_reg w)" and oom: "no_oom w" and d: "deliverable w c"
    and s: "reg_abs (w_reg w) (data_to_idx (cqe_user_data c)) = Some s" and fu: "sl_future s = Some fu"
  shows "w_fut (handle_cqe L K c w) fu \<noteq> Pending"
proof (cases "w_fut w fu = Pending")
  case True
  show ?thesis
  proof (cases "cqe_res c < 0 \<and> \<not> (sl_opcode s = IORING_OP_TIMEOUT \<and> cqe_res c = - ETIME)")
    case err: True
    show ?thesis using handle_cqe_failed(2) [OF inv s fu refl] err True oom by (simp add: no_oom_def)
  next
    case False
    have "slot_ready w s (cqe_res c)" using d s False slot_ready_timeout [of s w] by (auto simp: deliverable_def)
    then show ?thesis
      using handle_cqe_delivers(2) [OF inv oom s fu refl _ _ _ True] d False by (auto simp: deliverable_def)
  qed
next
  case False
  have "w_fut (handle_cqe L K c w) fu = w_fut w fu"
  proof (cases "cqe_res c < 0 \<and> \<not> (sl_opcode s = IORING_OP_TIMEOUT \<and> cqe_res c = - ETIME)")
    case True
    then show ?thesis using handle_cqe_failed(2) [OF inv s fu refl] False by simp
  next
    case ok: False
    obtain q where "fst (complete L K (data_to_idx (cqe_user_data c)) s c w) = Done q"
      using complete_skip [of L K _ s c w] oom by (metis outcome.exhaust)
    then show ?thesis using handle_cqe_done(2) [OF inv s fu refl] ok False by (auto split: option.splits)
  qed
  with False show ?thesis by simp
qed

section \<open>The loop\<close>

definition cqe_idx :: "cqe \<Rightarrow> int" where
  "cqe_idx c = data_to_idx (cqe_user_data c)"

lemma deliverable_step:
  assumes "completions_ok K" and "quiet L" and "reg_inv (w_reg w)" and "no_oom w" and "deliverable w d"
  shows "deliverable (handle_cqe L K c w) d"
  using assms(5) handle_cqe_step(4,6,7) [OF assms(1-4), of c] same_data(5) [of "handle_cqe L K c w" w]
  by (auto simp: deliverable_def split: option.splits if_splits)

lemma on_uring_ready_run:
  assumes K: "completions_ok K" and q: "quiet L"
    and "reg_inv (w_reg w)" and "no_oom w" and "r_cq (w_ring w) = cs"
  shows "\<exists>w'. on_uring_ready (Suc (length cs)) L K w = Some w' \<and> r_cq (w_ring w') = [] \<and> reg_inv (w_reg w') \<and>
    w_aborted w' = w_aborted w \<and> reg_abs (w_reg w') = reg_abs (w_reg w) |` (- cqe_idx ` set cs) \<and>
    (\<forall>f. w_fut w' f \<noteq> w_fut w f \<longrightarrow> w_fut w f = Pending \<and>
       (\<exists>c \<in> set cs. \<exists>s. reg_abs (w_reg w) (cqe_idx c) = Some s \<and> sl_future s = Some f)) \<and>
    (list_all (deliverable w) cs \<longrightarrow> (\<forall>c \<in> set cs. \<forall>s f. reg_abs (w_reg w) (cqe_idx c) = Some s \<longrightarrow>
       sl_future s = Some f \<longrightarrow> w_fut w' f \<noteq> Pending))"
  using assms(3-5)
proof (induction cs arbitrary: w)
  case Nil
  then show ?case using K by (simp add: completions_ok_def)
next
  case (Cons c cs)
  let ?w1 = "handle_cqe L K c w"
  note st = handle_cqe_step [OF K q Cons.prems(1,2), of c]
  have cq: "r_cq (w_ring ?w1) = cs" using st(3) Cons.prems(3) by simp
  have peek: "on_uring_ready (Suc (length (c # cs))) L K w = on_uring_ready (Suc (length cs)) L K ?w1"
    using K Cons.prems(3) by (simp add: completions_ok_def)
  obtain w' where w': "on_uring_ready (Suc (length cs)) L K ?w1 = Some w'" "r_cq (w_ring w') = []"
      "reg_inv (w_reg w')" "w_aborted w' = w_aborted ?w1"
      "reg_abs (w_reg w') = reg_abs (w_reg ?w1) |` (- cqe_idx ` set cs)"
    and fut: "\<And>f. w_fut w' f \<noteq> w_fut ?w1 f \<Longrightarrow> w_fut ?w1 f = Pending \<and>
       (\<exists>c \<in> set cs. \<exists>s. reg_abs (w_reg ?w1) (cqe_idx c) = Some s \<and> sl_future s = Some f)"
    and del: "list_all (deliverable ?w1) cs \<Longrightarrow> \<forall>c \<in> set cs. \<forall>s f. reg_abs (w_reg ?w1) (cqe_idx c) = Some s \<longrightarrow>
       sl_future s = Some f \<longrightarrow> w_fut w' f \<noteq> Pending"
    using Cons.IH [OF st(1,2) cq] by blast
  have abs1: "reg_abs (w_reg ?w1) = (reg_abs (w_reg w))(cqe_idx c := None)" using st(4) by (simp add: cqe_idx_def)
  have kept: "w_fut w' f = w_fut ?w1 f" if "w_fut ?w1 f \<noteq> Pending" for f using fut [of f] that by blast
  have "w_fut w f = Pending \<and> (\<exists>d \<in> set (c # cs). \<exists>s. reg_abs (w_reg w) (cqe_idx d) = Some s \<and> sl_future s = Some f)"
    if "w_fut w' f \<noteq> w_fut w f" for f
  proof (cases "w_fut ?w1 f = w_fut w f")
    case True
    with fut [of f] that show ?thesis unfolding abs1 by (auto split: if_splits)
  next
    case False
    with st(8) [of f] show ?thesis by (auto simp: cqe_idx_def)
  qed
  then have futs: "\<forall>f. w_fut w' f \<noteq> w_fut w f \<longrightarrow> w_fut w f = Pending \<and>
      (\<exists>c \<in> set (c # cs). \<exists>s. reg_abs (w_reg w) (cqe_idx c) = Some s \<and> sl_future s = Some f)" by blast
  have "w_fut w' f \<noteq> Pending"
    if d: "list_all (deliverable w) (c # cs)" and m: "d \<in> set (c # cs)" and s: "reg_abs (w_reg w) (cqe_idx d) = Some s"
      and f: "sl_future s = Some f" for d s f
  proof (cases "cqe_idx d = cqe_idx c")
    case True
    have "w_fut ?w1 f \<noteq> Pending"
      using handle_cqe_settles [OF Cons.prems(1,2) _ s [unfolded True, unfolded cqe_idx_def] f] d by simp
    then show ?thesis using kept by simp
  next
    case False
    have "list_all (deliverable ?w1) cs"
      using d deliverable_step [OF K q Cons.prems(1,2)] by (simp add: list_all_iff)
    then show ?thesis using del m s f False abs1 by auto
  qed
  then have dels: "list_all (deliverable w) (c # cs) \<longrightarrow> (\<forall>c \<in> set (c # cs). \<forall>s f. reg_abs (w_reg w) (cqe_idx c) = Some s \<longrightarrow>
       sl_future s = Some f \<longrightarrow> w_fut w' f \<noteq> Pending)" by blast
  have abs: "reg_abs (w_reg w') = reg_abs (w_reg w) |` (- cqe_idx ` set (c # cs))"
    unfolding w'(5) abs1 by (rule ext) (simp add: restrict_map_def)
  have "w_aborted w' = w_aborted w" using w'(4) st(5) by simp
  then show ?case unfolding peek using w'(1-3) abs futs dels by (intro exI [of _ w'] conjI)
qed

section \<open>A request in flight\<close>

text \<open>A read of three bytes that was registered as request 2, and the completion that reports two of them.\<close>

definition read_payload :: BufferPayload where
  "read_payload = zero_payload\<lparr>bp_linear := Some (21, [\<lparr>lb_buffer = Some 30, lb_len = 3, lb_views = None\<rparr>])\<rparr>"

definition read_flight :: world where
  "read_flight =
     snd (register_request 7 (Some 20) ONESHOT IORING_OP_READ (Some 9) None None None
       (init_world\<lparr>w_pay := (\<lambda>_. read_payload), w_mem := (\<lambda>_. [10, 20, 30])\<rparr>))"

definition cqe_of :: "int \<Rightarrow> int \<Rightarrow> cqe" where
  "cqe_of i res = \<lparr>cqe_user_data = idx_to_data i, cqe_res = res, cqe_flags = 0\<rparr>"

lemma cqe_of_simps [simp]:
  "cqe_res (cqe_of i res) = res" "c_int_range i \<Longrightarrow> data_to_idx (cqe_user_data (cqe_of i res)) = i"
  by (simp_all add: cqe_of_def)

lemma read_flight_simps [simp]:
  "reg_inv (w_reg read_flight)" "no_oom read_flight" "w_fut read_flight = (\<lambda>_. Pending)"
  "w_pay read_flight = (\<lambda>_. read_payload)" "w_mem read_flight = (\<lambda>_. [10, 20, 30])"
  "w_ring read_flight = empty_ring"
proof -
  obtain j reg h where a: "registry_add reg3 7 (Some 20) ONESHOT IORING_OP_READ (Some 9) None None None init_heap = (j, reg, h)"
    using prod_cases3 by blast
  have "h = py_incref 9 (py_incref 7 init_heap)" using a by (auto simp: registry_add_def Let_def reg3_def split: if_splits)
  with a registry_add_inv [OF reg3_inv(1) a]
  show "reg_inv (w_reg read_flight)" "no_oom read_flight" "w_fut read_flight = (\<lambda>_. Pending)"
    "w_pay read_flight = (\<lambda>_. read_payload)" "w_mem read_flight = (\<lambda>_. [10, 20, 30])" "w_ring read_flight = empty_ring"
    by (simp_all add: read_flight_def register_request_def init_world_def no_oom_def init_heap_def)
qed

lemma read_flight_slot:
  "\<exists>s. reg_abs (w_reg read_flight) 2 = Some s \<and> sl_future s = Some 7 \<and> sl_opcode s = IORING_OP_READ \<and>
     sl_buffer_payload s = Some 20"
proof -
  obtain j reg h where a: "registry_add reg3 7 (Some 20) ONESHOT IORING_OP_READ (Some 9) None None None init_heap = (j, reg, h)"
    using prod_cases3 by blast
  have "w_reg read_flight = reg" by (simp add: read_flight_def register_request_def init_world_def a)
  with registry_add_abs [OF reg3_inv(1) _ a] show ?thesis by auto
qed

section \<open>Properties\<close>



text \<open>
  C11. A completion with an error gives the future of its request the \<^verbatim>\<open>OSError\<close> of that error and frees its slot,
  for every operation; no other request and no other future is touched.
\<close>

theorem completion_raises:
  assumes "reg_inv (w_reg w)" and "no_oom w" and "reg_abs (w_reg w) i = Some s" and "sl_future s = Some fu"
    and "i = data_to_idx (cqe_user_data c)" and "cqe_res c < 0"
    and "\<not> (sl_opcode s = IORING_OP_TIMEOUT \<and> cqe_res c = - ETIME)" and "w_fut w fu = Pending"
  shows "completes i fu w (handle_cqe L K c w) \<and>
    w_fut (handle_cqe L K c w) fu = Exception (OSError (- cqe_res c))"
  using handle_cqe_failed [OF assms(1,3-7), of L K] assms(2,8) by (simp add: no_oom_def)

theorem completion_raises_witness:
  "w_fut (handle_cqe (lib_model 256 False) cq_model (cqe_of 2 (- 5)) read_flight) 7 = Exception (OSError 5)"
proof -
  obtain s where s: "reg_abs (w_reg read_flight) 2 = Some s" "sl_future s = Some 7" "sl_opcode s = IORING_OP_READ"
    using read_flight_slot by blast
  show ?thesis
    using completion_raises [OF read_flight_simps(1,2) s(1,2), of "cqe_of 2 (- 5)" "lib_model 256 False" cq_model] s(3)
    by (simp add: c_int_range_def opcode_defs)
qed

text \<open>
  C10. The loop over the completion queue ends: it sees every completion, frees exactly the slots the completions
  name, settles only futures of those slots, and settles each of them when every completion can be delivered.
\<close>

theorem on_uring_ready_drains:
  assumes "completions_ok K" and "quiet L" and "reg_inv (w_reg w)" and "no_oom w"
  shows "\<exists>w'. on_uring_ready (Suc (length (r_cq (w_ring w)))) L K w = Some w' \<and> r_cq (w_ring w') = [] \<and>
    reg_inv (w_reg w') \<and> w_aborted w' = w_aborted w \<and>
    reg_abs (w_reg w') = reg_abs (w_reg w) |` (- cqe_idx ` set (r_cq (w_ring w))) \<and>
    (\<forall>f. w_fut w' f \<noteq> w_fut w f \<longrightarrow> w_fut w f = Pending \<and>
       (\<exists>c \<in> set (r_cq (w_ring w)). \<exists>s. reg_abs (w_reg w) (cqe_idx c) = Some s \<and> sl_future s = Some f)) \<and>
    (list_all (deliverable w) (r_cq (w_ring w)) \<longrightarrow>
      (\<forall>c \<in> set (r_cq (w_ring w)). \<forall>s f. reg_abs (w_reg w) (cqe_idx c) = Some s \<longrightarrow> sl_future s = Some f \<longrightarrow>
         w_fut w' f \<noteq> Pending))"
  by (rule on_uring_ready_run [OF assms refl])

theorem on_uring_ready_drains_witness:
  "\<exists>w'. on_uring_ready 2 (lib_model 256 False) cq_model
      (read_flight\<lparr>w_ring := empty_ring\<lparr>r_cq := [cqe_of 2 (- 5)]\<rparr>\<rparr>) = Some w' \<and>
     reg_abs (w_reg w') 2 = None \<and> w_fut w' 7 \<noteq> Pending"
proof -
  let ?w = "read_flight\<lparr>w_ring := empty_ring\<lparr>r_cq := [cqe_of 2 (- 5)]\<rparr>\<rparr>"
  obtain s where s: "reg_abs (w_reg read_flight) 2 = Some s" "sl_future s = Some 7" using read_flight_slot by blast
  have idx: "cqe_idx (cqe_of 2 (- 5)) = 2" by (simp add: cqe_idx_def c_int_range_def)
  have oom: "no_oom ?w" using read_flight_simps(2) by (simp add: no_oom_def)
  have del: "list_all (deliverable ?w) (r_cq (w_ring ?w))"
    using s by (simp add: deliverable_def c_int_range_def)
  have inv: "reg_inv (w_reg ?w)" by simp
  obtain w' where w': "on_uring_ready (Suc (length (r_cq (w_ring ?w)))) (lib_model 256 False) cq_model ?w = Some w'"
      "reg_abs (w_reg w') = reg_abs (w_reg ?w) |` (- cqe_idx ` set (r_cq (w_ring ?w)))"
      "\<forall>c \<in> set (r_cq (w_ring ?w)). \<forall>s f. reg_abs (w_reg ?w) (cqe_idx c) = Some s \<longrightarrow> sl_future s = Some f \<longrightarrow>
         w_fut w' f \<noteq> Pending"
    using on_uring_ready_drains [OF cq_model_ok lib_model_quiet inv oom, of 256 False] del by blast
  have "on_uring_ready 2 (lib_model 256 False) cq_model ?w = Some w'" using w'(1) by (simp only: numeral_2_eq_2) simp
  moreover have "reg_abs (w_reg w') 2 = None" "w_fut w' 7 \<noteq> Pending" using w'(2,3) s idx by simp_all
  ultimately show ?thesis by blast
qed

text \<open>
  C38. A completion whose index is not in use is dropped without any other effect. The completion of the read on the
  wake-up descriptor is one of them: its tag decodes to the index \<open>- 1\<close>, so the code that arms the read again is
  never reached, and nothing is queued.
\<close>

theorem wakeup_never_rearmed:
  assumes "reg_inv (w_reg w)" and "cqe_user_data c = WAKEUP_FD_TAG"
  shows "handle_cqe L K c w = w\<lparr>w_ring := io_uring_cqe_seen K c (w_ring w)\<rparr>"
proof -
  have "reg_abs (w_reg w) (data_to_idx (cqe_user_data c)) = None"
    by (simp add: assms(2) wakeup_index reg_abs_def)
  from handle_cqe_unknown [OF assms(1) this] show ?thesis by (simp add: cqe_seen_def)
qed

theorem wakeup_never_rearmed_witness:
  "r_pending (w_ring (handle_cqe (lib_model 256 False) cq_model
     \<lparr>cqe_user_data = WAKEUP_FD_TAG, cqe_res = 8, cqe_flags = 0\<rparr> init_world)) = []"
  using wakeup_never_rearmed [of init_world "\<lparr>cqe_user_data = WAKEUP_FD_TAG, cqe_res = 8, cqe_flags = 0\<rparr>"
      "lib_model 256 False" cq_model]
  by (simp add: init_world_def cq_model_def empty_ring_def)

text \<open>
  C39. The first completion of a request frees its slot whatever its flags say, so of the completions of a multishot
  request only the first is delivered: a second one with the same user data is dropped.
\<close>

theorem multishot_second_completion_dropped:
  assumes "completions_ok K" and "quiet L" and "reg_inv (w_reg w)" and "no_oom w"
    and "cqe_user_data c2 = cqe_user_data c1"
  shows "handle_cqe L K c2 (handle_cqe L K c1 w) = cqe_seen K c2 (handle_cqe L K c1 w)"
  using handle_cqe_step(1,4) [OF assms(1-4), of c1] assms(5) by (intro handle_cqe_unknown) simp_all

theorem multishot_second_completion_dropped_witness:
  "let w1 = handle_cqe (lib_model 256 False) cq_model (cqe_of 2 3\<lparr>cqe_flags := IORING_CQE_F_MORE\<rparr>) read_flight
   in handle_cqe (lib_model 256 False) cq_model (cqe_of 2 1) w1 = cqe_seen cq_model (cqe_of 2 1) w1"
  using multishot_second_completion_dropped [OF cq_model_ok lib_model_quiet read_flight_simps(1,2),
      of "cqe_of 2 1" "cqe_of 2 3\<lparr>cqe_flags := IORING_CQE_F_MORE\<rparr>" 256 False]
  by (simp add: Let_def cqe_of_def)

text \<open>
  An error completion of a request on registered buffers does not give the index of its buffer back: every pool
  of indices is as it was, and the slot that named the payload is gone.
\<close>

lemma error_leaks_fixed_index:
  assumes "reg_inv (w_reg w)" and "reg_abs (w_reg w) i = Some s" and "sl_future s = Some fu"
    and "i = data_to_idx (cqe_user_data c)" and "cqe_res c < 0" and "sl_opcode s = IORING_OP_READ"
  shows "w_pool (handle_cqe L K c w) = w_pool w \<and> reg_abs (w_reg (handle_cqe L K c w)) i = None"
proof -
  have e: "\<not> (sl_opcode s = IORING_OP_TIMEOUT \<and> cqe_res c = - ETIME)" using assms(6) by (simp add: opcode_defs)
  have "handle_cqe L K c w = cqe_seen K c (remove_request i (fail_future fu (OSError (- cqe_res c)) w))"
    using handle_cqe_held [OF assms(1-4)] assms(5) e by simp
  moreover have "w_pool (cqe_seen K c (remove_request i (fail_future fu x w))) = w_pool w" for x
    by (simp add: cqe_seen_def remove_request_def fail_future_def settle_def py_value_def py_new_def PyErr_Print_def Let_def
        split: option.split prod.split)
  ultimately show ?thesis
    using handle_cqe_failed(1) [OF assms(1-5) e, of L K] by (simp add: completes_def)
qed

end
