(* ===== verification/Heapq.thy ===== *)
theory Heapq
  imports Complex_Main "HOL-Library.Multiset"
begin

text \<open>
  \<^verbatim>\<open>heapq.heappop\<close> of the Python library, which the event loop calls on the list of scheduled handles: the smallest element
  is at the front, the last element takes its place, moves down to a leaf along the smaller children and up again to where
  it belongs. The contract of a priority queue is a locale, and the algorithm is an instance of it.
\<close>

section \<open>The contract\<close>

locale priority_queue =
  fixes key :: "'a \<Rightarrow> 'k :: linorder" and inv :: "'q \<Rightarrow> bool" and elems :: "'q \<Rightarrow> 'a multiset"
    and first :: "'q \<Rightarrow> 'a" and pop :: "'q \<Rightarrow> 'a \<times> 'q"
  assumes first_min: "inv q \<Longrightarrow> x \<in># elems q \<Longrightarrow> key (first q) \<le> key x"
    and pop_first: "inv q \<Longrightarrow> elems q \<noteq> {#} \<Longrightarrow> fst (pop q) = first q"
    and pop_elems: "inv q \<Longrightarrow> elems q \<noteq> {#} \<Longrightarrow> add_mset (first q) (elems (snd (pop q))) = elems q"
    and pop_inv: "inv q \<Longrightarrow> elems q \<noteq> {#} \<Longrightarrow> inv (snd (pop q))"
begin

lemma pop_key_le:
  assumes "inv q" and "elems q \<noteq> {#}" and "x \<in># elems (snd (pop q))"
  shows "key (fst (pop q)) \<le> key x"
proof -
  have "x \<in># elems q" using assms(3) pop_elems [OF assms(1,2)] by (metis union_iff add_mset_add_single)
  then show ?thesis using first_min [OF assms(1)] pop_first [OF assms(1,2)] by simp
qed

end

section \<open>The algorithm\<close>

fun siftdown :: "('a \<Rightarrow> 'k :: linorder) \<Rightarrow> 'a \<Rightarrow> 'a list \<Rightarrow> nat \<Rightarrow> 'a list" where
  "siftdown key x xs pos =
     (if 0 < pos
      then let parentpos = (pos - 1) div 2
           in if key x < key (xs ! parentpos) then siftdown key x (xs[pos := xs ! parentpos]) parentpos else xs[pos := x]
      else xs[pos := x])"

declare siftdown.simps [simp del]

definition smaller_child :: "('a \<Rightarrow> 'k :: linorder) \<Rightarrow> 'a list \<Rightarrow> nat \<Rightarrow> nat" where
  "smaller_child key xs pos =
     (let c = 2 * pos + 1 in if c + 1 < length xs \<and> \<not> key (xs ! c) < key (xs ! (c + 1)) then c + 1 else c)"

lemma smaller_child_gt: "pos < smaller_child key xs pos"
  by (simp add: smaller_child_def Let_def)

function siftup :: "('a \<Rightarrow> 'k :: linorder) \<Rightarrow> 'a \<Rightarrow> 'a list \<Rightarrow> nat \<Rightarrow> 'a list" where
  "siftup key x xs pos =
     (if 2 * pos + 1 < length xs
      then siftup key x (xs[pos := xs ! smaller_child key xs pos]) (smaller_child key xs pos)
      else siftdown key x (xs[pos := x]) pos)"
  by pat_completeness auto
termination by (relation "measure (\<lambda>(key, x, xs, pos). length xs - pos)") (auto simp: smaller_child_def Let_def)

declare siftup.simps [simp del]

definition heappop :: "('a \<Rightarrow> 'k :: linorder) \<Rightarrow> 'a list \<Rightarrow> 'a \<times> 'a list" where
  "heappop key xs =
     (let lastelt = last xs; ys = butlast xs
      in if ys = [] then (lastelt, []) else (ys ! 0, siftup key lastelt ys 0))"

definition heap_inv :: "('a \<Rightarrow> 'k :: linorder) \<Rightarrow> 'a list \<Rightarrow> bool" where
  "heap_inv key xs \<longleftrightarrow> (\<forall>i. 0 < i \<longrightarrow> i < length xs \<longrightarrow> key (xs ! ((i - 1) div 2)) \<le> key (xs ! i))"

section \<open>Elements\<close>

lemma mset_hole_move:
  "i < length xs \<Longrightarrow> j < length xs \<Longrightarrow> i \<noteq> j \<Longrightarrow> mset (xs[i := xs ! j, j := x]) = mset (xs[i := x])"
proof -
  assume "i < length xs" "j < length xs" "i \<noteq> j"
  moreover have "xs[i := x, j := x, i := xs ! j] = xs[i := xs ! j, j := x]"
    using \<open>i \<noteq> j\<close> by (metis list_update_overwrite list_update_swap)
  ultimately show ?thesis using mset_swap [of j "xs[i := x]" i] by simp
qed

lemma siftdown_mset: "pos < length xs \<Longrightarrow> mset (siftdown key x xs pos) = mset (xs[pos := x])"
proof (induction key x xs pos rule: siftdown.induct)
  case (1 key x xs pos)
  define p where "p = (pos - 1) div 2"
  show ?case
  proof (cases "0 < pos \<and> key x < key (xs ! p)")
    case True
    then have p: "p < pos" by (auto simp: p_def)
    then have "mset (siftdown key x (xs[pos := xs ! p]) p) = mset (xs[pos := xs ! p, p := x])"
      using 1 True by (simp add: p_def)
    then show ?thesis using True p "1.prems" mset_hole_move [of pos xs p x] by (simp add: siftdown.simps [of key x xs pos] p_def Let_def)
  next
    case False
    then show ?thesis by (auto simp: siftdown.simps [of key x xs pos] p_def Let_def)
  qed
qed

lemma smaller_child_less: "2 * pos + 1 < length xs \<Longrightarrow> smaller_child key xs pos < length xs"
  by (simp add: smaller_child_def Let_def)

lemma siftup_mset: "pos < length xs \<Longrightarrow> mset (siftup key x xs pos) = mset (xs[pos := x])"
proof (induction key x xs pos rule: siftup.induct)
  case (1 key x xs pos)
  define c where "c = smaller_child key xs pos"
  show ?case
  proof (cases "2 * pos + 1 < length xs")
    case True
    have c: "c < length xs" "pos < c" using True smaller_child_less [of pos xs key] smaller_child_gt [of pos key xs] by (simp_all add: c_def)
    then have "mset (siftup key x (xs[pos := xs ! c]) c) = mset (xs[pos := xs ! c, c := x])"
      using 1 True by (simp add: c_def)
    then show ?thesis using True c "1.prems" mset_hole_move [of pos xs c x] by (simp add: siftup.simps [of key x xs pos] c_def)
  next
    case False
    then show ?thesis using "1.prems" by (simp add: siftup.simps [of key x xs pos] siftdown_mset)
  qed
qed

section \<open>Order\<close>

abbreviation parent :: "nat \<Rightarrow> nat" where
  "parent i \<equiv> (i - 1) div 2"

text \<open>The order with a hole at \<open>pos\<close>: edges away from the hole, and from its parent to its children.\<close>

definition hole_inv :: "('a \<Rightarrow> 'k :: linorder) \<Rightarrow> 'a list \<Rightarrow> nat \<Rightarrow> bool" where
  "hole_inv key xs pos \<longleftrightarrow>
     (\<forall>i. 0 < i \<longrightarrow> i < length xs \<longrightarrow> i \<noteq> pos \<longrightarrow> parent i \<noteq> pos \<longrightarrow> key (xs ! parent i) \<le> key (xs ! i)) \<and>
     (\<forall>i. 0 < i \<longrightarrow> i < length xs \<longrightarrow> parent i = pos \<longrightarrow> 0 < pos \<longrightarrow> key (xs ! parent pos) \<le> key (xs ! i))"

lemma hole_edge:
  "hole_inv key xs pos \<Longrightarrow> 0 < i \<Longrightarrow> i < length xs \<Longrightarrow> i \<noteq> pos \<Longrightarrow> parent i \<noteq> pos \<Longrightarrow> key (xs ! parent i) \<le> key (xs ! i)"
  by (simp add: hole_inv_def)

lemma hole_bridge:
  "hole_inv key xs pos \<Longrightarrow> 0 < i \<Longrightarrow> i < length xs \<Longrightarrow> parent i = pos \<Longrightarrow> 0 < pos \<Longrightarrow> key (xs ! parent pos) \<le> key (xs ! i)"
  by (simp add: hole_inv_def)

lemma parent_less: "0 < i \<Longrightarrow> parent i < i"
  by auto

lemma hole_up:
  assumes h: "hole_inv key xs pos" and pos: "0 < pos" "pos < length xs"
  shows "hole_inv key (xs[pos := xs ! parent pos]) (parent pos)"
proof -
  define p where "p = parent pos"
  have p: "p < pos" "p < length xs" using pos by (auto simp: p_def)
  have edge: "key (xs[pos := xs ! p] ! parent i) \<le> key (xs[pos := xs ! p] ! i)"
    if i: "0 < i" "i < length xs" "i \<noteq> p" "parent i \<noteq> p" for i
  proof -
    have "i \<noteq> pos" using i p_def by blast
    moreover have "key (xs ! p) \<le> key (xs ! i)" if "parent i = pos"
      using hole_bridge [OF h i(1,2) that pos(1)] by (simp add: p_def)
    ultimately show ?thesis using hole_edge [OF h i(1,2)] pos by (cases "parent i = pos") auto
  qed
  have bridge: "key (xs[pos := xs ! p] ! parent p) \<le> key (xs[pos := xs ! p] ! i)"
    if i: "0 < i" "i < length xs" "parent i = p" and "0 < p" for i
  proof -
    have pp: "parent p < p" using \<open>0 < p\<close> by (rule parent_less)
    have up: "key (xs ! parent p) \<le> key (xs ! p)" using hole_edge [OF h \<open>0 < p\<close> p(2)] p pp by simp
    have "key (xs ! p) \<le> key (xs ! i)" if "i \<noteq> pos" using hole_edge [OF h i(1,2) that] i(3) p by simp
    then show ?thesis using up pp p pos by (cases "i = pos") auto
  qed
  show ?thesis unfolding hole_inv_def p_def [symmetric] using edge bridge by simp
qed

lemma siftdown_heap:
  assumes "pos < length xs" and "hole_inv key xs pos"
    and "\<And>i. 0 < i \<Longrightarrow> i < length xs \<Longrightarrow> parent i = pos \<Longrightarrow> key x \<le> key (xs ! i)"
  shows "heap_inv key (siftdown key x xs pos)"
  using assms
proof (induction key x xs pos rule: siftdown.induct)
  case (1 key x xs pos)
  define p where "p = parent pos"
  show ?case
  proof (cases "0 < pos \<and> key x < key (xs ! p)")
    case True
    then have p: "p < pos" by (auto simp: p_def)
    have below: "key x \<le> key (xs[pos := xs ! p] ! i)" if "0 < i" "i < length xs" "parent i = p" for i
    proof (cases "i = pos")
      case True
      then show ?thesis using \<open>0 < pos \<and> key x < key (xs ! p)\<close> "1.prems"(1) by (simp add: less_imp_le)
    next
      case False
      have "key (xs ! p) \<le> key (xs ! i)" using hole_edge [OF "1.prems"(2) that(1,2) False] that(3) p by simp
      then have "key x \<le> key (xs ! i)" using True by (meson order_trans less_imp_le)
      then show ?thesis using False by simp
    qed
    have hole: "hole_inv key (xs[pos := xs ! p]) p" using hole_up [OF "1.prems"(2)] True "1.prems"(1) by (simp add: p_def)
    have "heap_inv key (siftdown key x (xs[pos := xs ! p]) p)"
      unfolding p_def
      by (rule "1.IH" [OF _ refl]) (use True p "1.prems"(1) hole below in \<open>simp_all add: p_def\<close>)
    then show ?thesis using True by (simp add: siftdown.simps [of key x xs pos] p_def Let_def)
  next
    case False
    have "heap_inv key (xs[pos := x])"
      unfolding heap_inv_def
    proof (intro allI impI)
      fix i assume i: "0 < i" "i < length (xs[pos := x])"
      then have "parent i < i" by (intro parent_less)
      consider "i = pos" | "parent i = pos" | "i \<noteq> pos" "parent i \<noteq> pos" by blast
      then show "key (xs[pos := x] ! parent i) \<le> key (xs[pos := x] ! i)"
      proof cases
        case 1
        then show ?thesis using False i \<open>parent i < i\<close> by (auto simp: p_def not_less)
      next
        case 2
        then have "i \<noteq> pos" using \<open>parent i < i\<close> by linarith
        then show ?thesis using 2 "1.prems"(1,3) i by simp
      next
        case 3
        then show ?thesis using hole_edge [OF "1.prems"(2)] i by simp
      qed
    qed
    then show ?thesis using False by (auto simp: siftdown.simps [of key x xs pos] p_def Let_def)
  qed
qed

lemma smaller_child_le:
  assumes "i < length xs" and "0 < i" and "parent i = pos"
  shows "key (xs ! smaller_child key xs pos) \<le> key (xs ! i)"
proof -
  have "i = 2 * pos + 1 \<or> i = 2 * pos + 2" using assms(2,3) by auto
  then show ?thesis using assms(1) by (auto simp: smaller_child_def Let_def)
qed

lemma parent_smaller_child: "parent (smaller_child key xs pos) = pos"
  by (simp add: smaller_child_def Let_def)

lemma hole_down:
  assumes h: "hole_inv key xs pos" and pos: "2 * pos + 1 < length xs" and c: "c = smaller_child key xs pos"
  shows "hole_inv key (xs[pos := xs ! c]) c"
proof -
  have cl: "c < length xs" "pos < c" "0 < c" "parent c = pos"
    using smaller_child_less [OF pos, of key] smaller_child_gt [of pos key xs] parent_smaller_child [of key xs pos] by (simp_all add: c)
  have edge: "key (xs[pos := xs ! c] ! parent i) \<le> key (xs[pos := xs ! c] ! i)"
    if i: "0 < i" "i < length xs" "i \<noteq> c" "parent i \<noteq> c" for i
  proof -
    have "parent i < i" using i(1) by (rule parent_less)
    consider "i = pos" | "parent i = pos" | "i \<noteq> pos" "parent i \<noteq> pos" by blast
    then show ?thesis
    proof cases
      case 1
      then show ?thesis using hole_bridge [OF h cl(3,1,4)] i \<open>parent i < i\<close> by simp
    next
      case 2
      then have "i \<noteq> pos" using \<open>parent i < i\<close> by linarith
      then show ?thesis using smaller_child_le [OF i(2,1) 2, of key] 2 cl by (simp add: c)
    next
      case 3
      then show ?thesis using hole_edge [OF h i(1,2)] by simp
    qed
  qed
  have bridge: "key (xs[pos := xs ! c] ! parent c) \<le> key (xs[pos := xs ! c] ! i)"
    if i: "0 < i" "i < length xs" "parent i = c" for i
  proof -
    have "c < i" using parent_less [OF i(1)] i(3) by simp
    then have "key (xs ! c) \<le> key (xs ! i)" using hole_edge [OF h i(1,2)] i(3) cl by simp
    then show ?thesis using cl \<open>c < i\<close> by simp
  qed
  show ?thesis unfolding hole_inv_def using edge bridge by simp
qed

lemma siftup_heap:
  assumes "pos < length xs" and "hole_inv key xs pos"
  shows "heap_inv key (siftup key x xs pos)"
  using assms
proof (induction key x xs pos rule: siftup.induct)
  case (1 key x xs pos)
  show ?case
  proof (cases "2 * pos + 1 < length xs")
    case True
    then show ?thesis
      using "1.IH" [OF True] hole_down [OF "1.prems"(2) True refl] smaller_child_less [OF True, of key]
      by (simp add: siftup.simps [of key x xs pos])
  next
    case False
    have "hole_inv key (xs[pos := x]) pos"
      using "1.prems"(2) unfolding hole_inv_def by (metis length_list_update nth_list_update_neq parent_less less_irrefl)
    then have "heap_inv key (siftdown key x (xs[pos := x]) pos)"
      using False "1.prems"(1) by (intro siftdown_heap) auto
    then show ?thesis using False by (simp add: siftup.simps [of key x xs pos])
  qed
qed

lemma heap_first_min: "heap_inv key xs \<Longrightarrow> i < length xs \<Longrightarrow> key (xs ! 0) \<le> key (xs ! i)"
proof (induction i rule: less_induct)
  case (less i)
  show ?case
  proof (cases "i = 0")
    case False
    then have "key (xs ! 0) \<le> key (xs ! parent i)" "key (xs ! parent i) \<le> key (xs ! i)"
      using less parent_less [of i] by (auto simp: heap_inv_def)
    then show ?thesis by (rule order_trans)
  qed simp
qed

lemma heappop_heap:
  assumes "heap_inv key xs" and "xs \<noteq> []"
  shows "heap_inv key (snd (heappop key xs))"
proof (cases "butlast xs = []")
  case False
  have "hole_inv key (butlast xs) 0"
    using assms(1) by (auto simp: hole_inv_def heap_inv_def nth_butlast)
  moreover have "0 < length (butlast xs)" using False by (simp del: length_butlast)
  ultimately show ?thesis using False siftup_heap [of 0 "butlast xs" key "last xs"] by (simp add: heappop_def Let_def del: length_butlast)
qed (simp add: heappop_def heap_inv_def Let_def)

lemma heappop_first: "xs \<noteq> [] \<Longrightarrow> fst (heappop key xs) = xs ! 0"
  by (cases xs rule: rev_cases) (auto simp: heappop_def Let_def nth_append)

lemma heappop_mset:
  assumes "xs \<noteq> []"
  shows "add_mset (xs ! 0) (mset (snd (heappop key xs))) = mset xs"
proof (cases xs rule: rev_cases)
  case (snoc ys z)
  show ?thesis
  proof (cases ys)
    case (Cons y ys')
    then show ?thesis using snoc siftup_mset [of 0 ys key z] by (simp add: heappop_def Let_def)
  qed (simp add: snoc heappop_def Let_def)
qed (use assms in simp)

lemma heappop_length: "xs \<noteq> [] \<Longrightarrow> length (snd (heappop key xs)) < length xs"
  using arg_cong [OF heappop_mset [of xs key], of size] by simp

interpretation hq: priority_queue key "heap_inv key" mset "\<lambda>xs. xs ! 0" "heappop key"
  for key :: "'a \<Rightarrow> 'k :: linorder"
proof unfold_locales
  fix q :: "'a list" and x
  show "heap_inv key q \<Longrightarrow> x \<in># mset q \<Longrightarrow> key (q ! 0) \<le> key x"
    using heap_first_min [of key q] by (auto simp: in_set_conv_nth)
qed (simp_all add: heappop_first heappop_mset heappop_heap)

end
