(* ===== verification/Event_Loop.thy ===== *)
theory Event_Loop
  imports Context_Scopes Completion Heapq
begin

text \<open>
  \<^verbatim>\<open>src/python_api/loop\<close> and \<^verbatim>\<open>src/python_api/signals\<close>: one iteration of the event loop, its parts (the time to sleep, the
  timers that are due, the callbacks that are ready), and the start and the end of a loop.

  The attributes \<^verbatim>\<open>_ready\<close>, \<^verbatim>\<open>_scheduled\<close>, \<^verbatim>\<open>_stopping\<close>, \<^verbatim>\<open>_clock_resolution\<close>, \<^verbatim>\<open>_thread_id\<close> are those of asyncio's base class; \<open>None\<close> is an
  attribute that is missing. A handle is named by a number. Times are rational, \<open>rnd\<close> is the rounding of
  an operation on doubles. What a callback does is a parameter, and so are the results of the system calls.
\<close>

record loop_state =
  lp_c :: cstate
  lp_ready :: "nat list option"
  lp_scheduled :: "nat list option"
  lp_stopping :: "bool option"
  lp_clock_resolution :: "rat option"
  lp_time :: "rat option"
  lp_thread_id :: "int option"
  lp_ident :: int
  lp_when :: "nat \<Rightarrow> rat"
  lp_cancelled :: "nat \<Rightarrow> bool"
  lp_handle_scheduled :: "nat \<Rightarrow> bool"
  lp_ready_ob :: nat
  lp_scheduled_ob :: nat
  lp_clock_ob :: nat
  lp_heapq :: "nat option"
  lp_readers :: "nat option"
  lp_writers :: "nat option"
  lp_context_var :: "nat option"
  lp_ring_null :: bool
  lp_initialized :: bool

record loop_api =
  io_uring_submit_and_wait_timeout :: "u32 \<Rightarrow> kernel_timespec \<Rightarrow> io_uring \<Rightarrow> io_uring"
  io_uring_wait_cqe_timeout :: "kernel_timespec \<Rightarrow> io_uring \<Rightarrow> cqe option \<times> io_uring"

definition on_c :: "(cstate \<Rightarrow> cstate) \<Rightarrow> loop_state \<Rightarrow> loop_state" where
  "on_c f l = l\<lparr>lp_c := f (lp_c l)\<rparr>"

abbreviation lp_w :: "loop_state \<Rightarrow> world" where
  "lp_w l \<equiv> cs_w (lp_c l)"

definition lp_raise :: "pyexc \<Rightarrow> loop_state \<Rightarrow> loop_state" where
  "lp_raise e = on_c (cs_raise e)"

definition lp_ref :: "nat \<Rightarrow> loop_state \<Rightarrow> loop_state" where
  "lp_ref ob = on_c (on_h (py_incref ob))"

definition lp_unref :: "nat \<Rightarrow> loop_state \<Rightarrow> loop_state" where
  "lp_unref ob = on_c (on_h (py_decref ob))"

text \<open>\<^verbatim>\<open>PyObject_GetAttrString\<close> of an attribute held by the object \<open>ob\<close>, and \<^verbatim>\<open>Py_XDECREF\<close> of the result.\<close>

definition get_attr :: "nat \<Rightarrow> 'a option \<Rightarrow> loop_state \<Rightarrow> loop_state" where
  "get_attr ob v l = (case v of None \<Rightarrow> lp_raise CalleeError l | Some _ \<Rightarrow> lp_ref ob l)"

definition drop_attr :: "nat \<Rightarrow> 'a option \<Rightarrow> loop_state \<Rightarrow> loop_state" where
  "drop_attr ob v l = (case v of None \<Rightarrow> l | Some _ \<Rightarrow> lp_unref ob l)"

text \<open>\<^verbatim>\<open>self.time()\<close>: a new float.\<close>

definition call_time :: "loop_state \<Rightarrow> (nat \<times> rat) option \<times> loop_state" where
  "call_time l =
     (case lp_time l of
        None \<Rightarrow> (None, lp_raise CalleeError l)
      | Some t \<Rightarrow>
          (case cs_new CalleeError (lp_c l) of
             (None, s) \<Rightarrow> (None, l\<lparr>lp_c := s\<rparr>) | (Some ob, s) \<Rightarrow> (Some (ob, t), l\<lparr>lp_c := s\<rparr>)))"

section \<open>The time to sleep\<close>

definition c_trunc :: "rat \<Rightarrow> int" where
  "c_trunc x = (if x < 0 then \<lceil>x\<rceil> else \<lfloor>x\<rfloor>)"

definition zero_time :: kernel_timespec where
  "zero_time = \<lparr>tv_sec = 0, tv_nsec = 0\<rparr>"

text \<open>The branch for a handle that is scheduled: \<^verbatim>\<open>delay\<close> is clamped, and converted to a \<^verbatim>\<open>long\<close>.\<close>

definition delay_of :: "(rat \<Rightarrow> rat) \<Rightarrow> rat \<Rightarrow> rat \<Rightarrow> rat" where
  "delay_of rnd wh now = (let d = rnd (wh - now); d1 = (if d < 0 then 0 else d) in if d1 > 86400 then 86400 else d1)"

definition first_timeout :: "(rat \<Rightarrow> rat) \<Rightarrow> nat \<Rightarrow> loop_state \<Rightarrow> kernel_timespec \<times> loop_state" where
  "first_timeout rnd h l =
     (case call_time (lp_ref h l) of
        (None, l1) \<Rightarrow> (zero_time, lp_unref h l1)
      | (Some (ob, now), l1) \<Rightarrow>
          (let delay = delay_of rnd (lp_when l h) now
           in (\<lparr>tv_sec = c_trunc delay, tv_nsec = c_trunc (rnd (rnd (delay - delay) * 10 ^ 9))\<rparr>,
               lp_unref h (lp_unref ob l1))))"

definition compute_timeout :: "(rat \<Rightarrow> rat) \<Rightarrow> loop_state \<Rightarrow> kernel_timespec \<times> loop_state" where
  "compute_timeout rnd l =
     (let l1 = get_attr (lp_ready_ob l) (lp_ready l) l;
          l2 = get_attr (lp_scheduled_ob l) (lp_scheduled l) l1;
          l3 = (if lp_stopping l = None then lp_raise CalleeError l2 else l2);
          done_all = (\<lambda>l4. drop_attr (lp_scheduled_ob l) (lp_scheduled l) (drop_attr (lp_ready_ob l) (lp_ready l) l4))
      in case (lp_ready l, lp_scheduled l, lp_stopping l) of
           (Some rs, Some ss, Some stopping) \<Rightarrow>
             (let (ts, l4) =
                (if rs \<noteq> [] \<or> stopping then (zero_time, l3)
                 else if ss \<noteq> [] then first_timeout rnd (ss ! 0) l3
                 else (\<lparr>tv_sec = 86400, tv_nsec = 0\<rparr>, l3))
              in (ts, done_all l4))
         | _ \<Rightarrow> (zero_time, done_all l3))"

section \<open>The timers that are due\<close>

text \<open>
  The loop moves handles from the heap to the deque; the references of a handle that is moved go with it, those of the
  local variables are taken and dropped in the same iteration.
\<close>

function promote_loop ::
  "(nat \<Rightarrow> rat) \<Rightarrow> rat \<Rightarrow> nat list \<Rightarrow> nat list \<Rightarrow> (nat \<Rightarrow> bool) \<Rightarrow> nat list \<times> nat list \<times> (nat \<Rightarrow> bool)" where
  "promote_loop wh end_time ss rs flag =
     (if ss = [] \<or> end_time \<le> wh (ss ! 0) then (ss, rs, flag)
      else promote_loop wh end_time (snd (heappop wh ss)) (rs @ [fst (heappop wh ss)])
             (flag(fst (heappop wh ss) := False)))"
  by pat_completeness auto
termination
  by (relation "measure (\<lambda>(wh, end_time, ss, rs, flag). length ss)") (auto simp: heappop_length)

declare promote_loop.simps [simp del]

text \<open>The references to the module, the two containers, the time and the clock resolution are dropped only on failure.\<close>

definition promote_scheduled :: "(rat \<Rightarrow> rat) \<Rightarrow> loop_state \<Rightarrow> loop_state" where
  "promote_scheduled rnd l =
     (case lp_heapq l of
        None \<Rightarrow> lp_raise CalleeError l
      | Some heapq \<Rightarrow>
          (let l1 = get_attr (lp_ready_ob l) (lp_ready l) (get_attr (lp_scheduled_ob l) (lp_scheduled l) (lp_ref heapq l));
               (loop_time, l2) = call_time l1;
               l3 = get_attr (lp_clock_ob l) (lp_clock_resolution l) l2
           in case (lp_scheduled l, lp_ready l, loop_time, lp_clock_resolution l) of
                (Some ss, Some rs, Some (_, now), Some clock_res) \<Rightarrow>
                  (let (ss', rs', flag) =
                     promote_loop (lp_when l) (rnd (now + clock_res)) ss rs (lp_handle_scheduled l)
                   in l3\<lparr>lp_scheduled := Some ss', lp_ready := Some rs', lp_handle_scheduled := flag\<rparr>)
              | _ \<Rightarrow>
                  lp_unref heapq (drop_attr (lp_clock_ob l) (lp_clock_resolution l)
                    ((case loop_time of None \<Rightarrow> (\<lambda>x. x) | Some (ob, _) \<Rightarrow> lp_unref ob)
                      (drop_attr (lp_ready_ob l) (lp_ready l) (drop_attr (lp_scheduled_ob l) (lp_scheduled l) l3))))))"

section \<open>The callbacks that are ready\<close>

text \<open>\<open>run h\<close> is the call of \<^verbatim>\<open>_run\<close>; an exception of it is left to the handle.\<close>

fun drain_loop :: "(nat \<Rightarrow> loop_state \<Rightarrow> loop_state) \<Rightarrow> nat \<Rightarrow> loop_state \<Rightarrow> loop_state" where
  "drain_loop run 0 l = l"
| "drain_loop run (Suc n) l =
     (case lp_ready l of
        Some (h # rest) \<Rightarrow>
          (let l1 = l\<lparr>lp_ready := Some rest\<rparr> in drain_loop run n (if lp_cancelled l1 h then l1 else run h l1))
      | _ \<Rightarrow> lp_raise CalleeError l)"

definition drain_ready :: "(nat \<Rightarrow> loop_state \<Rightarrow> loop_state) \<Rightarrow> loop_state \<Rightarrow> loop_state" where
  "drain_ready run l =
     (case lp_ready l of
        None \<Rightarrow> lp_raise CalleeError l
      | Some rs \<Rightarrow> lp_unref (lp_ready_ob l) (drain_loop run (length rs) (lp_ref (lp_ready_ob l) l)))"

section \<open>One iteration\<close>

definition ASSERT_PYTHON_THREAD :: "loop_state \<Rightarrow> pyexc option" where
  "ASSERT_PYTHON_THREAD l =
     (case lp_thread_id l of
        None \<Rightarrow> Some CalleeError
      | Some t \<Rightarrow> if t = lp_ident l then None else Some (RuntimeError ''Event loop called from wrong thread''))"

text \<open>\<open>None\<close>: the loop over the completions is still running when its fuel is used up. \<open>False\<close>: an exception was raised.\<close>

definition UringioLoop_run_once ::
  "nat \<Rightarrow> (rat \<Rightarrow> rat) \<Rightarrow> (nat \<Rightarrow> loop_state \<Rightarrow> loop_state) \<Rightarrow> loop_api \<Rightarrow> liburing \<Rightarrow> completions \<Rightarrow> loop_state
     \<Rightarrow> (bool \<times> loop_state) option" where
  "UringioLoop_run_once fuel rnd run A L K l =
     (case ASSERT_PYTHON_THREAD l of
        Some e \<Rightarrow> Some (False, lp_raise e l)
      | None \<Rightarrow>
          (let (ts, l1) = compute_timeout rnd l;
               w1 = (lp_w l1)\<lparr>w_ring := io_uring_submit_and_wait_timeout A 1 ts (w_ring (lp_w l1))\<rparr>
           in case on_uring_ready fuel L K w1 of
                None \<Rightarrow> None
              | Some w2 \<Rightarrow>
                  Some (True, drain_ready run (promote_scheduled rnd (l1\<lparr>lp_c := (lp_c l1)\<lparr>cs_w := w2\<rparr>\<rparr>)))))"

definition EAGAIN :: int where "EAGAIN = 11"

text \<open>\<open>write\<close>: the result of the system call and the value of \<^verbatim>\<open>errno\<close>.\<close>

definition UringioLoop_write_to_self :: "(int \<Rightarrow> u64 \<Rightarrow> int \<times> int) \<Rightarrow> loop_state \<Rightarrow> bool \<times> loop_state" where
  "UringioLoop_write_to_self c_write l =
     (if w_wakeup_fd (lp_w l) < 0 then (False, lp_raise (RuntimeError ''wakeup_fd is not initialized'') l)
      else
        let (ret, errno) = c_write (w_wakeup_fd (lp_w l)) 1
        in if ret < 0 \<and> errno \<noteq> EAGAIN then (False, lp_raise (OSError errno) l) else (True, l))"

section \<open>How long the loop sleeps\<close>

lemma delay_of_range: "0 \<le> delay_of rnd t now \<and> delay_of rnd t now \<le> 86400"
  by (simp add: delay_of_def Let_def)

lemma c_trunc_range: "0 \<le> x \<Longrightarrow> x \<le> 86400 \<Longrightarrow> 0 \<le> c_trunc x \<and> c_trunc x \<le> 86400 \<and> of_int (c_trunc x) \<le> x"
  by (auto simp: c_trunc_def floor_le_iff)

lemma compute_timeout_cases:
  assumes rs: "lp_ready l = Some rs" and ss: "lp_scheduled l = Some ss" and st: "lp_stopping l = Some stopping"
  shows "fst (compute_timeout rnd l) =
    (if rs \<noteq> [] \<or> stopping then zero_time
     else if ss = [] then \<lparr>tv_sec = 86400, tv_nsec = 0\<rparr>
     else fst (first_timeout rnd (ss ! 0) (get_attr (lp_scheduled_ob l) (Some ss) (get_attr (lp_ready_ob l) (Some rs) l))))"
  by (simp add: compute_timeout_def rs ss st Let_def case_prod_beta)

lemma same_time [simp]:
  "lp_time (get_attr ob v l) = lp_time l" "lp_when (get_attr ob v l) = lp_when l"
  "lp_time (lp_ref ob l) = lp_time l" "lp_when (lp_ref ob l) = lp_when l"
  "lp_time (lp_unref ob l) = lp_time l" "lp_when (lp_unref ob l) = lp_when l"
  by (simp_all add: get_attr_def lp_raise_def lp_ref_def lp_unref_def on_c_def split: option.splits)

lemma call_time_SomeD:
  "call_time l = (Some (ob, t), l') \<Longrightarrow> lp_time l = Some t \<and> lp_when l' = lp_when l"
  by (auto simp: call_time_def split: option.splits prod.splits)

lemma first_timeout_value:
  assumes "rnd 0 = 0"
  shows "tv_nsec (fst (first_timeout rnd h l)) = 0 \<and>
    (\<forall>now. lp_time l = Some now \<longrightarrow> of_int (tv_sec (fst (first_timeout rnd h l))) \<le> delay_of rnd (lp_when l h) now) \<and>
    0 \<le> tv_sec (fst (first_timeout rnd h l)) \<and> tv_sec (fst (first_timeout rnd h l)) \<le> 86400"
proof (cases "call_time (lp_ref h l)")
  case (Pair q l1)
  show ?thesis
  proof (cases q)
    case None
    then show ?thesis using Pair delay_of_range by (simp add: first_timeout_def zero_time_def)
  next
    case (Some p)
    obtain ob now where p: "p = (ob, now)" by (cases p)
    have t: "lp_time l = Some now" "lp_when l1 = lp_when l" using call_time_SomeD [of "lp_ref h l" ob now l1] Pair Some p by simp_all
    have "fst (first_timeout rnd h l) = \<lparr>tv_sec = c_trunc (delay_of rnd (lp_when l h) now), tv_nsec = 0\<rparr>"
      using Pair Some p assms by (simp add: first_timeout_def Let_def c_trunc_def)
    then show ?thesis using t c_trunc_range [of "delay_of rnd (lp_when l h) now"] delay_of_range [of rnd "lp_when l h" now] by simp
  qed
qed

text \<open>
  C25. The time the loop sleeps: between zero and a day, zero when callbacks are ready or the loop is stopping, and never
  past the first timer. The nanoseconds are always zero: the fraction of the delay is computed as the difference of
  the delay and itself, so a timer less than a second away makes the loop spin instead of sleep.
\<close>

theorem compute_timeout_bounds:
  assumes "rnd 0 = 0" and rs: "lp_ready l = Some rs" and ss: "lp_scheduled l = Some ss" and st: "lp_stopping l = Some stopping"
  shows "0 \<le> tv_sec (fst (compute_timeout rnd l)) \<and> tv_sec (fst (compute_timeout rnd l)) \<le> 86400 \<and>
    tv_nsec (fst (compute_timeout rnd l)) = 0 \<and>
    (rs \<noteq> [] \<or> stopping \<longrightarrow> tv_sec (fst (compute_timeout rnd l)) = 0) \<and>
    (ss \<noteq> [] \<longrightarrow> (\<forall>now. lp_time l = Some now \<longrightarrow>
       of_int (tv_sec (fst (compute_timeout rnd l))) \<le> delay_of rnd (lp_when l (ss ! 0)) now))"
  using first_timeout_value [of rnd "ss ! 0" "get_attr (lp_scheduled_ob l) (Some ss) (get_attr (lp_ready_ob l) (Some rs) l)"]
    delay_of_range [of rnd "lp_when l (ss ! 0)"] assms(1)
  unfolding compute_timeout_cases [OF rs ss st] by (auto simp: zero_time_def)

section \<open>Which timers are promoted\<close>

lemma promote_loop_spec:
  assumes "heap_inv wh ss"
  shows "\<exists>moved ss'. promote_loop wh e ss rs flag = (ss', rs @ moved, \<lambda>h. flag h \<and> h \<notin> set moved) \<and>
    sorted (map wh moved) \<and> (\<forall>h \<in> set moved. wh h < e) \<and> (\<forall>h \<in> set ss'. e \<le> wh h) \<and>
    mset moved + mset ss' = mset ss \<and> heap_inv wh ss'"
  using assms
proof (induction wh e ss rs flag rule: promote_loop.induct)
  case (1 wh e ss rs flag)
  show ?case
  proof (cases "ss = [] \<or> e \<le> wh (ss ! 0)")
    case True
    have "\<forall>h \<in> set ss. e \<le> wh h"
    proof
      fix h assume "h \<in> set ss"
      then show "e \<le> wh h" using True hq.first_min [OF "1.prems", of h] by (cases "ss = []") auto
    qed
    then show ?thesis using True "1.prems" by (intro exI [of _ "[]"] exI [of _ ss]) (simp add: promote_loop.simps [of wh e ss])
  next
    case False
    then have ne: "mset ss \<noteq> {#}" by simp
    define x where "x = fst (heappop wh ss)"
    define ys where "ys = snd (heappop wh ss)"
    have x: "x = ss ! 0" "wh x < e" using hq.pop_first [OF "1.prems" ne] False by (auto simp: x_def not_le)
    have ys: "heap_inv wh ys" "add_mset x (mset ys) = mset ss"
      using hq.pop_inv [OF "1.prems" ne] hq.pop_elems [OF "1.prems" ne] x by (simp_all add: ys_def)
    obtain moved ss' where m: "promote_loop wh e ys (rs @ [x]) (flag(x := False)) =
        (ss', (rs @ [x]) @ moved, \<lambda>h. (flag(x := False)) h \<and> h \<notin> set moved)"
      "sorted (map wh moved)" "\<forall>h \<in> set moved. wh h < e" "\<forall>h \<in> set ss'. e \<le> wh h" "mset moved + mset ss' = mset ys" "heap_inv wh ss'"
      using "1.IH" [OF False ys(1) [unfolded ys_def], folded x_def ys_def] by blast
    have "wh x \<le> wh h" if "h \<in> set moved" for h
    proof -
      have "h \<in># mset ys" using that m(5) by (metis in_multiset_in_set union_iff)
      then show ?thesis using hq.pop_key_le [OF "1.prems" ne, of h] by (simp add: x_def ys_def)
    qed
    then have "sorted (map wh (x # moved))" using m(2) by simp
    moreover have "mset (x # moved) + mset ss' = mset ss" using m(5) ys(2) by simp
    moreover have "(\<lambda>h. (flag(x := False)) h \<and> h \<notin> set moved) = (\<lambda>h. flag h \<and> h \<notin> set (x # moved))" by (auto simp: fun_eq_iff)
    ultimately show ?thesis
      using False m x by (intro exI [of _ "x # moved"] exI [of _ ss']) (simp add: promote_loop.simps [of wh e ss] x_def ys_def)
  qed
qed

definition loop_oom :: "loop_state \<Rightarrow> bool" where
  "loop_oom l \<longleftrightarrow> (\<exists>k. h_oom (w_heap (lp_w l)) k)"

lemma promote_scheduled_eq:
  assumes "lp_heapq l = Some q" and "lp_scheduled l = Some ss" and "lp_ready l = Some rs" and "lp_time l = Some now"
    and "lp_clock_resolution l = Some res" and "\<not> loop_oom l"
    and "promote_loop (lp_when l) (rnd (now + res)) ss rs (lp_handle_scheduled l) = (ss', rs', flag)"
  defines "l' \<equiv> promote_scheduled rnd l"
  shows "lp_scheduled l' = Some ss' \<and> lp_ready l' = Some rs' \<and> lp_handle_scheduled l' = flag \<and>
    w_reg (lp_w l') = w_reg (lp_w l) \<and> w_fut (lp_w l') = w_fut (lp_w l) \<and> w_ring (lp_w l') = w_ring (lp_w l) \<and>
    w_aborted (lp_w l') = w_aborted (lp_w l)"
  using assms
  by (simp add: promote_scheduled_def Let_def call_time_def get_attr_def lp_ref_def on_c_def on_h_def on_w_def cs_new_def
      py_new_def loop_oom_def l'_def)

lemma promoted:
  assumes "lp_heapq l = Some q" and "lp_scheduled l = Some ss" and "lp_ready l = Some rs" and "lp_time l = Some now"
    and "lp_clock_resolution l = Some res" and "\<not> loop_oom l" and "heap_inv (lp_when l) ss"
  shows "\<exists>moved ss'. lp_ready (promote_scheduled rnd l) = Some (rs @ moved) \<and> lp_scheduled (promote_scheduled rnd l) = Some ss' \<and>
    sorted (map (lp_when l) moved) \<and> mset moved = filter_mset (\<lambda>h. lp_when l h < rnd (now + res)) (mset ss) \<and>
    mset ss' = filter_mset (\<lambda>h. \<not> lp_when l h < rnd (now + res)) (mset ss) \<and> heap_inv (lp_when l) ss' \<and>
    (\<forall>h. lp_handle_scheduled (promote_scheduled rnd l) h \<longleftrightarrow> lp_handle_scheduled l h \<and> h \<notin> set moved) \<and>
    w_reg (lp_w (promote_scheduled rnd l)) = w_reg (lp_w l) \<and> w_fut (lp_w (promote_scheduled rnd l)) = w_fut (lp_w l)"
proof -
  obtain moved ss' where m: "promote_loop (lp_when l) (rnd (now + res)) ss rs (lp_handle_scheduled l) =
      (ss', rs @ moved, \<lambda>h. lp_handle_scheduled l h \<and> h \<notin> set moved)"
    "sorted (map (lp_when l) moved)" "\<forall>h \<in> set moved. lp_when l h < rnd (now + res)" "\<forall>h \<in> set ss'. rnd (now + res) \<le> lp_when l h"
    "mset moved + mset ss' = mset ss" "heap_inv (lp_when l) ss'"
    using promote_loop_spec [OF assms(7)] by blast
  note eq = promote_scheduled_eq [where rnd = rnd, OF assms(1-6) m(1)]
  have "filter_mset (\<lambda>h. lp_when l h < rnd (now + res)) (mset moved) = mset moved"
    "filter_mset (\<lambda>h. lp_when l h < rnd (now + res)) (mset ss') = {#}"
    "filter_mset (\<lambda>h. \<not> lp_when l h < rnd (now + res)) (mset moved) = {#}"
    "filter_mset (\<lambda>h. \<not> lp_when l h < rnd (now + res)) (mset ss') = mset ss'"
    using m(3,4) by (auto simp: filter_mset_eq_conv)
  then show ?thesis using m(2,6) eq by (intro exI [of _ moved] exI [of _ ss']) (simp flip: m(5))
qed

text \<open>
  C24. \<^verbatim>\<open>promote_scheduled\<close> moves to the end of the deque exactly the timers that are due before the end of the clock's current
  tick, in the order of their times; the heap keeps the others, is a heap again, and the flag of a handle is cleared
  exactly when it was moved. The registry, the futures and the ring are not touched.
\<close>

theorem promote_scheduled_correct:
  assumes "lp_heapq l = Some q" and "lp_scheduled l = Some ss" and "lp_ready l = Some rs" and "lp_time l = Some now"
    and "lp_clock_resolution l = Some res" and "\<not> loop_oom l" and "heap_inv (lp_when l) ss"
  shows "\<exists>moved ss'. lp_ready (promote_scheduled rnd l) = Some (rs @ moved) \<and> lp_scheduled (promote_scheduled rnd l) = Some ss' \<and>
    sorted (map (lp_when l) moved) \<and> mset moved = filter_mset (\<lambda>h. lp_when l h < rnd (now + res)) (mset ss) \<and>
    mset ss' = filter_mset (\<lambda>h. \<not> lp_when l h < rnd (now + res)) (mset ss) \<and> heap_inv (lp_when l) ss' \<and>
    (\<forall>h. lp_handle_scheduled (promote_scheduled rnd l) h \<longleftrightarrow> lp_handle_scheduled l h \<and> h \<notin> set moved) \<and>
    w_reg (lp_w (promote_scheduled rnd l)) = w_reg (lp_w l) \<and> w_fut (lp_w (promote_scheduled rnd l)) = w_fut (lp_w l)"
  by (rule promoted [OF assms])

section \<open>Which callbacks run\<close>

text \<open>The reference: the handles of the batch one after the other, each popped and run unless it was cancelled by then.\<close>

definition run_handle :: "(nat \<Rightarrow> loop_state \<Rightarrow> loop_state) \<Rightarrow> nat \<Rightarrow> loop_state \<Rightarrow> loop_state" where
  "run_handle run h l =
     (let l1 = l\<lparr>lp_ready := map_option tl (lp_ready l)\<rparr> in if lp_cancelled l1 h then l1 else run h l1)"

text \<open>Callbacks add to the deque, at its end.\<close>

definition appends_only :: "(nat \<Rightarrow> loop_state \<Rightarrow> loop_state) \<Rightarrow> bool" where
  "appends_only run \<longleftrightarrow> (\<forall>h l rs. lp_ready l = Some rs \<longrightarrow> (\<exists>new. lp_ready (run h l) = Some (rs @ new)))"

lemma run_handle_ready:
  "appends_only run \<Longrightarrow> lp_ready l = Some (x # rs) \<Longrightarrow> \<exists>new. lp_ready (run_handle run h l) = Some (rs @ new)"
  by (auto simp: run_handle_def appends_only_def Let_def)

lemma drain_loop_fold:
  "appends_only run \<Longrightarrow> lp_ready l = Some (rs @ new) \<Longrightarrow>
     drain_loop run (length rs) l = fold (run_handle run) rs l \<and> (\<exists>new'. lp_ready (fold (run_handle run) rs l) = Some (new @ new'))"
proof (induction rs arbitrary: l new)
  case (Cons h rs)
  obtain new' where n: "lp_ready (run_handle run h l) = Some (rs @ new @ new')"
    using run_handle_ready [OF Cons.prems(1), of l h "rs @ new" h] Cons.prems(2) by auto
  show ?case
    using Cons.IH [OF Cons.prems(1) n] Cons.prems(2) by (auto simp: run_handle_def Let_def)
qed simp

lemma drained:
  assumes "appends_only run" and "lp_ready l = Some rs"
  shows "drain_ready run l = lp_unref (lp_ready_ob l) (fold (run_handle run) rs (lp_ref (lp_ready_ob l) l)) \<and>
    (\<exists>new. lp_ready (fold (run_handle run) rs (lp_ref (lp_ready_ob l) l)) = Some new)"
proof -
  have "lp_ready (lp_ref (lp_ready_ob l) l) = Some (rs @ [])" using assms(2) by (simp add: lp_ref_def on_c_def)
  from drain_loop_fold [OF assms(1) this] show ?thesis using assms(2) by (auto simp: drain_ready_def)
qed

text \<open>
  \<^verbatim>\<open>drain_ready\<close> runs exactly the handles that were in the deque when it started, once each and in their order, except those
  cancelled by the time they are reached; what the callbacks add stays in the deque for the next iteration.
\<close>

lemma drain_ready_runs_batch:
  assumes "appends_only run" and "lp_ready l = Some rs"
  shows "drain_ready run l = lp_unref (lp_ready_ob l) (fold (run_handle run) rs (lp_ref (lp_ready_ob l) l)) \<and>
    (\<exists>new. lp_ready (fold (run_handle run) rs (lp_ref (lp_ready_ob l) l)) = Some new)"
  by (rule drained [OF assms])

section \<open>What an iteration does\<close>

text \<open>The time to sleep is computed without touching anything the rest of the iteration uses.\<close>

definition same_loop :: "loop_state \<Rightarrow> loop_state \<Rightarrow> bool" where
  "same_loop l l' \<longleftrightarrow>
     lp_ready l' = lp_ready l \<and> lp_scheduled l' = lp_scheduled l \<and> lp_when l' = lp_when l \<and> lp_time l' = lp_time l \<and>
     lp_clock_resolution l' = lp_clock_resolution l \<and> lp_heapq l' = lp_heapq l \<and> lp_cancelled l' = lp_cancelled l \<and>
     lp_handle_scheduled l' = lp_handle_scheduled l \<and> lp_ready_ob l' = lp_ready_ob l \<and>
     w_reg (lp_w l') = w_reg (lp_w l) \<and> w_fut (lp_w l') = w_fut (lp_w l) \<and> w_ring (lp_w l') = w_ring (lp_w l) \<and>
     w_pay (lp_w l') = w_pay (lp_w l) \<and> w_mem (lp_w l') = w_mem (lp_w l) \<and> w_aborted (lp_w l') = w_aborted (lp_w l) \<and>
     h_oom (w_heap (lp_w l')) = h_oom (w_heap (lp_w l))"

lemma same_loop_trans: "same_loop l l1 \<Longrightarrow> same_loop l1 l2 \<Longrightarrow> same_loop l l2"
  by (simp add: same_loop_def)

lemma same_loop_steps:
  "same_loop l l" "same_loop l (lp_ref ob l)" "same_loop l (lp_unref ob l)" "same_loop l (lp_raise e l)"
  "same_loop l (get_attr ob v l)" "same_loop l (drop_attr ob v l)"
  by (auto simp: same_loop_def lp_ref_def lp_unref_def lp_raise_def on_c_def on_h_def on_w_def cs_raise_def get_attr_def
      drop_attr_def py_incref_def py_decref_def split: option.split)

lemma same_loop_call_time: "same_loop l (snd (call_time l))"
  by (auto simp: same_loop_def call_time_def lp_raise_def on_c_def on_w_def cs_raise_def cs_new_def py_new_def Let_def split: option.split)

lemma same_loop_first_timeout: "same_loop l (snd (first_timeout rnd h l))"
proof (cases "call_time (lp_ref h l)")
  case (Pair q l1)
  have "same_loop l l1" using same_loop_trans [OF same_loop_steps(2) same_loop_call_time [of "lp_ref h l"]] Pair by simp
  then show ?thesis
    using Pair same_loop_trans [OF same_loop_trans [OF _ same_loop_steps(3)] same_loop_steps(3), of l l1]
      same_loop_trans [OF _ same_loop_steps(3), of l l1]
    by (cases q) (auto simp: first_timeout_def Let_def)
qed

lemma same_loop_compute: "same_loop l (snd (compute_timeout rnd l))"
proof -
  define l2 where "l2 = get_attr (lp_scheduled_ob l) (lp_scheduled l) (get_attr (lp_ready_ob l) (lp_ready l) l)"
  define l3 where "l3 = (if lp_stopping l = None then lp_raise CalleeError l2 else l2)"
  have l2: "same_loop l l2" unfolding l2_def by (rule same_loop_trans [OF same_loop_steps(5) same_loop_steps(5)])
  have l3: "same_loop l l3"
    using l2 same_loop_trans [OF l2 same_loop_steps(4)] unfolding l3_def by simp
  have drops: "same_loop l (drop_attr a v (drop_attr b u l4))" if "same_loop l l4" for a b l4
    and v :: "nat list option" and u :: "nat list option"
    using same_loop_trans [OF same_loop_trans [OF that same_loop_steps(6)] same_loop_steps(6)] .
  have first: "same_loop l (snd (first_timeout rnd h l3))" for h by (rule same_loop_trans [OF l3 same_loop_first_timeout])
  show ?thesis
    unfolding compute_timeout_def l2_def [symmetric] Let_def l3_def [symmetric]
    using drops [OF l3] drops [OF first] by (auto simp: case_prod_beta split: option.split)
qed

lemma on_uring_ready_oom:
  "completions_ok K \<Longrightarrow> quiet L \<Longrightarrow> reg_inv (w_reg w) \<Longrightarrow> no_oom w \<Longrightarrow> on_uring_ready n L K w = Some w' \<Longrightarrow> no_oom w'"
proof (induction n arbitrary: w)
  case (Suc n)
  then show ?case using handle_cqe_step(1,2) [OF Suc.prems(1-4)] by (auto split: option.splits)
qed simp


section \<open>A loop to evaluate\<close>

text \<open>A loop with one callback ready and three timers, at half past one second; a callback does nothing.\<close>

definition demo_loop :: loop_state where
  "demo_loop =
     \<lparr>lp_c = cs_demo, lp_ready = Some [30], lp_scheduled = Some [31, 33, 32], lp_stopping = Some False,
      lp_clock_resolution = Some 0, lp_time = Some (3 / 2), lp_thread_id = Some 1, lp_ident = 1,
      lp_when = (\<lambda>h. if h = 31 then 1 else if h = 32 then 5 / 4 else 9), lp_cancelled = (\<lambda>_. False),
      lp_handle_scheduled = (\<lambda>_. True), lp_ready_ob = 41, lp_scheduled_ob = 42, lp_clock_ob = 43, lp_heapq = Some 44,
      lp_readers = None, lp_writers = None, lp_context_var = None, lp_ring_null = False, lp_initialized = True\<rparr>"

definition idle :: "nat \<Rightarrow> loop_state \<Rightarrow> loop_state" where
  "idle h l = l"

lemma idle_appends [simp]: "appends_only idle"
  by (simp add: appends_only_def idle_def)

lemma demo_loop_simps [simp]:
  "lp_ready demo_loop = Some [30]" "lp_scheduled demo_loop = Some [31, 33, 32]" "lp_stopping demo_loop = Some False"
  "lp_time demo_loop = Some (3 / 2)" "lp_clock_resolution demo_loop = Some 0" "lp_heapq demo_loop = Some 44"
  "lp_thread_id demo_loop = Some (lp_ident demo_loop)" "lp_ready_ob demo_loop = 41"
  "lp_when demo_loop = (\<lambda>h. if h = 31 then 1 else if h = 32 then 5 / 4 else 9)"
  "\<not> loop_oom demo_loop" "reg_inv (w_reg (lp_w demo_loop))" "w_ring (lp_w demo_loop) = empty_ring"
  by (simp_all add: demo_loop_def loop_oom_def cs_demo_eq init_heap_def init_world_def)

lemma demo_heap: "heap_inv (\<lambda>h::nat. if h = 31 then 1 else if h = 32 then 5 / 4 else 9 :: rat) [31, 33, 32]"
proof -
  have "i = 1 \<or> i = 2" if "0 < i" "i < (3::nat)" for i using that by auto
  then show ?thesis unfolding heap_inv_def by fastforce
qed

theorem compute_timeout_bounds_witness:
  "tv_nsec (fst (compute_timeout (\<lambda>x. x) (demo_loop\<lparr>lp_ready := Some [], lp_time := Some (1 / 2)\<rparr>))) = 0 \<and>
   tv_sec (fst (compute_timeout (\<lambda>x. x) (demo_loop\<lparr>lp_ready := Some [], lp_time := Some (1 / 2)\<rparr>))) \<le> 0"
proof -
  let ?l = "demo_loop\<lparr>lp_ready := Some [], lp_time := Some (1 / 2)\<rparr>"
  let ?t = "fst (compute_timeout (\<lambda>x. x) ?l)"
  have "tv_nsec ?t = 0" "of_int (tv_sec ?t) \<le> delay_of (\<lambda>x. x) 1 (1 / 2)"
    using compute_timeout_bounds [of "\<lambda>x. x" ?l "[]" "[31, 33, 32]" False] by simp_all
  moreover have "delay_of (\<lambda>x. x) 1 (1 / 2) < 1" by (simp add: delay_of_def Let_def)
  ultimately have "(of_int (tv_sec ?t) :: rat) < of_int 1" by (metis of_int_1 order_le_less_trans)
  then have "tv_sec ?t < 1" by (simp only: of_int_less_iff)
  then show ?thesis using \<open>tv_nsec ?t = 0\<close> by simp
qed

theorem promote_scheduled_correct_witness:
  "\<exists>moved. lp_ready (promote_scheduled (\<lambda>x. x) demo_loop) = Some (30 # moved) \<and> mset moved = {#31, 32#}"
proof -
  obtain moved where "lp_ready (promote_scheduled (\<lambda>x. x) demo_loop) = Some ([30] @ moved)"
    "mset moved = filter_mset (\<lambda>h. lp_when demo_loop h < 3 / 2 + 0) (mset [31, 33, 32])"
    using promote_scheduled_correct [of demo_loop 44 "[31, 33, 32]" "[30]" "3 / 2" 0 "\<lambda>x. x"] demo_heap by auto
  then show ?thesis by (intro exI [of _ moved]) (simp add: add_mset_commute)
qed

definition wait_model :: loop_api where
  "wait_model =
     \<lparr>io_uring_submit_and_wait_timeout = (\<lambda>_ _ r. r\<lparr>r_submitted := r_submitted r @ r_pending r, r_pending := []\<rparr>),
      io_uring_wait_cqe_timeout = (\<lambda>_ r. case r_cq r of [] \<Rightarrow> (None, r) | c # _ \<Rightarrow> (Some c, r))\<rparr>"


end
