(* ===== verification/Socket_Api.thy ===== *)
theory Socket_Api
  imports File_Api
begin

text \<open>
  \<^verbatim>\<open>src/python_api/ops/sockets\<close>: the dispatchers, the address conversion and the methods of a socket object,
  in the style of the file methods. \<open>pton\<close> is \<^verbatim>\<open>inet_pton\<close> of the C library: the bytes of the address, \<open>None\<close> when
  the text is no address of the family. Arguments a method leaves uninitialised when the caller does not pass them
  come with a flag that says whether they were passed; their use without it is recorded as a fault.
\<close>

section \<open>Addresses\<close>

text \<open>\<^verbatim>\<open>struct sockaddr_storage\<close>: the family, the port in network order, the address.\<close>

record sockaddr_storage =
  ss_family :: int
  ss_port :: "u8 list"
  ss_addr :: "u8 list"

definition htons :: "u16 \<Rightarrow> u8 list" where
  "htons p = [ucast (drop_bit 8 p), ucast p]"

definition serialize_address ::
  "(int \<Rightarrow> string \<Rightarrow> u8 list option) \<Rightarrow> string option \<Rightarrow> int \<Rightarrow> int \<Rightarrow> world
     \<Rightarrow> (nat \<times> sockaddr_storage) option \<times> world" where
  "serialize_address pton host port domain w =
     (case c_malloc 128 (w_heap w) of
        (None, h) \<Rightarrow> (None, set_err MemoryError (w\<lparr>w_heap := h\<rparr>))
      | (Some a, h) \<Rightarrow>
          (let w1 = w\<lparr>w_heap := h\<rparr>; sport = htons (word_of_int port)
           in if domain = AF_INET
              then case host of
                     None \<Rightarrow> (Some (a, \<lparr>ss_family = AF_INET, ss_port = sport, ss_addr = replicate 4 0\<rparr>), w1)
                   | Some s \<Rightarrow>
                       (case pton AF_INET s of
                          None \<Rightarrow> (None, set_err (ConnectionRefusedError ''Invalid IPv4 address'') (on_heap (c_free (Some a)) w1))
                        | Some bs \<Rightarrow> (Some (a, \<lparr>ss_family = AF_INET, ss_port = sport, ss_addr = bs\<rparr>), w1))
              else if domain = AF_INET6
              then case host of
                     None \<Rightarrow> (Some (a, \<lparr>ss_family = AF_INET6, ss_port = sport, ss_addr = replicate 16 0\<rparr>), w1)
                   | Some s \<Rightarrow>
                       (case pton AF_INET6 s of
                          None \<Rightarrow> (None, set_err (ConnectionRefusedError ''Invalid IPv6 address'') (on_heap (c_free (Some a)) w1))
                        | Some bs \<Rightarrow> (Some (a, \<lparr>ss_family = AF_INET6, ss_port = sport, ss_addr = bs\<rparr>), w1))
              else (None, on_heap (c_free (Some a)) w1)))"

lemma htons_value: "256 * uint (htons p ! 0) + uint (htons p ! Suc 0) = uint p"
proof -
  have "uint p < 65536" using uint_bounded [of p] by simp
  then have "uint p div 256 mod 256 = uint p div 256" by (intro mod_pos_pos_trivial) (simp_all add: div_less_iff_less_mult pos_imp_zdiv_nonneg_iff)
  then have "uint (ucast (drop_bit 8 p) :: u8) = uint p div 256" "uint (ucast p :: u8) = uint p mod 256"
    by (simp_all add: unsigned_ucast_eq unsigned_drop_bit_eq take_bit_eq_mod drop_bit_eq_div uint_div)
  then show ?thesis by (simp add: htons_def)
qed

definition get_socket_size :: "int \<Rightarrow> u32" where
  "get_socket_size domain = (if domain = AF_INET6 then 28 else 16)"

section \<open>Dispatchers\<close>

definition accept_dispatcher ::
  "liburing \<Rightarrow> nat \<Rightarrow> StreamStrategy \<Rightarrow> int \<Rightarrow> data_ptr \<Rightarrow> data_ptr \<Rightarrow> TimeoutParams \<Rightarrow> world \<Rightarrow> int \<times> world" where
  "accept_dispatcher L self stream request_idx addr len tp w =
     (let fd = us_sock_fd (w_socks w self)
      in if stream = MULTISHOT
         then ring_op (\<lambda>r. uringio_accept_multishot L r request_idx fd addr len 0 tp) w
         else ring_op (\<lambda>r. uringio_accept L r request_idx fd addr len 0 tp) w)"

definition recv_dispatcher ::
  "liburing \<Rightarrow> nat \<Rightarrow> nat \<Rightarrow> StreamStrategy \<Rightarrow> int \<Rightarrow> int \<Rightarrow> TimeoutParams \<Rightarrow> world \<Rightarrow> int \<times> world" where
  "recv_dispatcher L self a stream request_idx is_poll_first tp w =
     (let p = w_pay w a; fd = us_sock_fd (w_socks w self); len = word_of_int (linear_len p)
      in if bp_mode p = PROVIDED \<or> bp_mode p = BUF_RING
         then if stream = MULTISHOT
              then ring_op (\<lambda>r. uringio_recv_multishot L r request_idx fd len (bp_bgid p) is_poll_first tp)
                     (check_linear p w)
              else ring_op (\<lambda>r. uringio_recv_buffer_select L r request_idx fd len (bp_bgid p) is_poll_first tp)
                     (check_linear p w)
         else ring_op (\<lambda>r. uringio_recv L r request_idx fd (linear_buffer p) len is_poll_first tp) (check_linear p w))"

text \<open>The call of \<^verbatim>\<open>uringio_recvmsg_buffer_select\<close> passes the group where the callee takes the poll flag, and conversely.\<close>

definition recvmsg_dispatcher ::
  "liburing \<Rightarrow> nat \<Rightarrow> nat \<Rightarrow> StreamStrategy \<Rightarrow> int \<Rightarrow> int \<Rightarrow> msg_ptr \<Rightarrow> TimeoutParams \<Rightarrow> world \<Rightarrow> int \<times> world" where
  "recvmsg_dispatcher L self a stream request_idx is_poll_first msghdr tp w =
     (let p = w_pay w a; fd = us_sock_fd (w_socks w self)
      in if bp_mode p = PROVIDED \<or> bp_mode p = BUF_RING
         then if stream = MULTISHOT
              then ring_op (\<lambda>r. uringio_recvmsg_multishot L r request_idx fd (bp_bgid p) is_poll_first msghdr tp) w
              else ring_op (\<lambda>r. uringio_recvmsg_buffer_select L r request_idx fd (bp_bgid p) is_poll_first tp) w
         else ring_op (\<lambda>r. uringio_recvmsg L r request_idx fd (vector_iovecs p) (vector_nr p) is_poll_first tp)
                (check_vector p w))"

definition send_dispatcher ::
  "liburing \<Rightarrow> nat \<Rightarrow> nat \<Rightarrow> TransferMode \<Rightarrow> int \<Rightarrow> int \<Rightarrow> TimeoutParams \<Rightarrow> world \<Rightarrow> int \<times> world" where
  "send_dispatcher L self a transfer request_idx is_poll_first tp w =
     (let p = w_pay w a; fd = us_sock_fd (w_socks w self); len = word_of_int (linear_len p)
      in if transfer = ZERO_COPY
         then if bp_mode p = FIXED
              then
                (let (buf_idx, w1) = take_buffer_idx a w
                 in ring_op (\<lambda>r. uringio_send_zc_fixed L r request_idx fd (linear_buffer p) len is_poll_first
                                   buf_idx tp) (check_linear p w1))
              else ring_op (\<lambda>r. uringio_send_zc L r request_idx fd (linear_buffer p) len is_poll_first tp)
                     (check_linear p w)
         else ring_op (\<lambda>r. uringio_send L r request_idx fd (linear_buffer p)
                             (ucast (word_of_int (linear_len p) :: u32)) is_poll_first tp) (check_linear p w))"

definition sendmsg_dispatcher ::
  "liburing \<Rightarrow> nat \<Rightarrow> nat \<Rightarrow> TransferMode \<Rightarrow> int \<Rightarrow> data_ptr \<Rightarrow> u64 \<Rightarrow> int \<Rightarrow> TimeoutParams \<Rightarrow> world \<Rightarrow> int \<times> world" where
  "sendmsg_dispatcher L self a transfer request_idx addr addrlen is_poll_first tp w =
     (let p = w_pay w a; fd = us_sock_fd (w_socks w self)
      in if transfer = ZERO_COPY
         then
           (let (buf_idx, w1) = take_buffer_idx a w
            in ring_op (\<lambda>r. uringio_sendmsg_zc L r request_idx fd (vector_iovecs p) (vector_nr p) addr addrlen
                              is_poll_first buf_idx tp) (check_vector p w1))
         else ring_op (\<lambda>r. uringio_sendmsg L r request_idx fd (vector_iovecs p) (vector_nr p) addr addrlen
                             is_poll_first tp) (check_vector p w))"

section \<open>Steps the methods share\<close>

definition socket_guard :: "nat \<Rightarrow> world \<Rightarrow> pyexc option" where
  "socket_guard self w =
     (case loop_guard w of
        Some e \<Rightarrow> Some e
      | None \<Rightarrow> if us_closed (w_socks w self) then Some (BrokenPipeError ''Socket is closed'') else None)"

definition wrong_socket_status :: pyexc where
  "wrong_socket_status = RuntimeError ''Wrong socket status.''"

text \<open>Registration, submission and \<^verbatim>\<open>_check_sockets_result\<close>.\<close>

definition socket_request ::
  "nat \<Rightarrow> (world \<Rightarrow> world) \<Rightarrow> nat \<Rightarrow> nat option \<Rightarrow> StreamStrategy \<Rightarrow> int \<Rightarrow> nat option \<Rightarrow> nat option
     \<Rightarrow> (int \<Rightarrow> world \<Rightarrow> int \<times> world) \<Rightarrow> world \<Rightarrow> nat option \<times> world" where
  "socket_request self cleanup fu bp st oc ad ms op w =
     submit_request (Some wrong_socket_status) (\<lambda>w. w) cleanup fu bp st oc None (Some self) ad ms op w"

definition with_address ::
  "(int \<Rightarrow> string \<Rightarrow> u8 list option) \<Rightarrow> string option \<Rightarrow> int \<Rightarrow> int
     \<Rightarrow> (nat \<Rightarrow> world \<Rightarrow> nat option \<times> world) \<Rightarrow> world \<Rightarrow> nat option \<times> world" where
  "with_address pton host port domain k w =
     (case serialize_address pton host port domain w of
        (None, w1) \<Rightarrow> (None, w1) | (Some (a, _), w1) \<Rightarrow> k a w1)"

definition with_malloc ::
  "int \<Rightarrow> (world \<Rightarrow> world) \<Rightarrow> (nat \<Rightarrow> world \<Rightarrow> nat option \<times> world) \<Rightarrow> world \<Rightarrow> nat option \<times> world" where
  "with_malloc sz on_error k w =
     (case c_malloc sz (w_heap w) of
        (None, h) \<Rightarrow> (None, set_err MemoryError (on_error (w\<lparr>w_heap := h\<rparr>)))
      | (Some a, h) \<Rightarrow> k a (w\<lparr>w_heap := h\<rparr>))"

text \<open>An allocation whose result is not tested.\<close>

definition with_block ::
  "int \<Rightarrow> (nat option \<Rightarrow> world \<Rightarrow> nat option \<times> world) \<Rightarrow> world \<Rightarrow> nat option \<times> world" where
  "with_block sz k w = (let (a, h) = c_malloc sz (w_heap w) in k a (w\<lparr>w_heap := h\<rparr>))"

text \<open>An operation after which the handler releases something before it looks at the result.\<close>

definition then_free :: "nat option \<Rightarrow> (int \<Rightarrow> world \<Rightarrow> int \<times> world) \<Rightarrow> int \<Rightarrow> world \<Rightarrow> int \<times> world" where
  "then_free p op i w = (let (t, w1) = op i w in (t, on_heap (c_free p) w1))"

definition passed :: "bool \<Rightarrow> world \<Rightarrow> world" where
  "passed given w = (if given then w else fault_at Indeterminate w)"

section \<open>Methods\<close>

definition Uringio_prep_socket ::
  "liburing \<Rightarrow> bool \<Rightarrow> (int \<times> int \<times> pyobj option) option \<Rightarrow> world \<Rightarrow> nat option \<times> world" where
  "Uringio_prep_socket L running args w =
     (if \<not> running then (None, set_err (RuntimeError ''Uring-based methods requires uring-based loop'') w)
      else
        case loop_guard w of
          Some e \<Rightarrow> (None, set_err e w)
        | None \<Rightarrow>
            (case py_new MemoryError w of
               (None, w1) \<Rightarrow> (None, w1)
             | (Some sock, w1) \<Rightarrow>
                 (let w2 = w1\<lparr>w_socks := (w_socks w1)(sock := (w_socks w1 sock)\<lparr>us_closed := False, us_addr := None\<rparr>)\<rparr>;
                      drop = on_heap (py_decref sock)
                  in case args of
                       None \<Rightarrow> (None, drop (set_err CalleeError w2))
                     | Some (domain, socktype, to_obj) \<Rightarrow>
                         with_timeout to_obj drop (\<lambda>tp.
                           with_future drop (\<lambda>fu w3.
                             let w4 = w3\<lparr>w_socks := (w_socks w3)(sock := (w_socks w3 sock)\<lparr>us_domain := domain\<rparr>)\<rparr>
                             in submit_request
                                  (Some (RuntimeError ''Passed socket domain values are not awailable'')) drop (\<lambda>w. w)
                                  fu None ONESHOT IORING_OP_SOCKET None (Some sock) None None
                                  (\<lambda>i. ring_op (\<lambda>r. prep_socket L r i domain socktype tp)) w4)) w2)))"

definition UringioSocket_aenter :: "nat \<Rightarrow> world \<Rightarrow> nat option \<times> world" where
  "UringioSocket_aenter self w =
     (case create_future w of
        (None, w1) \<Rightarrow> (None, w1)
      | (Some fu, w1) \<Rightarrow>
          (Some fu, w1\<lparr>w_fut := (w_fut w1)(fu := Result (PyObj self)), w_heap := py_incref self (w_heap w1)\<rparr>))"

definition set_sock_closed :: "bool \<Rightarrow> nat \<Rightarrow> world \<Rightarrow> world" where
  "set_sock_closed b self w =
     w\<lparr>w_socks := (w_socks w)(self := (w_socks w self)\<lparr>us_closed := b\<rparr>)\<rparr>"

text \<open>
  The tail of \<^verbatim>\<open>close\<close> and \<^verbatim>\<open>__aexit__\<close>: the socket is marked closed, the close is submitted, and the mark is
  taken back when that failed.
\<close>

definition submit_close :: "liburing \<Rightarrow> nat \<Rightarrow> TimeoutParams \<Rightarrow> nat \<Rightarrow> int \<Rightarrow> world \<Rightarrow> nat option \<times> world" where
  "submit_close L self tp fu request_idx w =
     (let w1 = set_sock_closed True self w;
          (result, w2) = ring_op (\<lambda>r. uringio_close_socket L r request_idx (us_sock_fd (w_socks w1 self)) tp) w1
      in if result < 1
         then (None, set_sock_closed False self
                       (snd (submission_failed result (Some wrong_socket_status) (\<lambda>w. w) fu request_idx w2)))
         else (Some fu, w2))"

text \<open>
  The steps of both methods after the future is made; they differ in what they raise when the registry is full and
  in what they do after a failed submission.
\<close>

definition close_tail ::
  "liburing \<Rightarrow> nat \<Rightarrow> TimeoutParams \<Rightarrow> (world \<Rightarrow> world) \<Rightarrow> (world \<Rightarrow> world) \<Rightarrow> nat \<Rightarrow> world \<Rightarrow> nat option \<times> world" where
  "close_tail L self tp on_full on_failed fu w1 =
     (let (request_idx, w2) = register_request fu None ONESHOT IORING_OP_CLOSE None (Some self) None None w1
      in if request_idx < 0 then (None, on_full (on_heap (py_decref fu) w2))
         else case submit_close L self tp fu request_idx w2 of
                (None, w3) \<Rightarrow> (None, on_failed w3) | (Some f, w3) \<Rightarrow> (Some f, w3))"

text \<open>\<^verbatim>\<open>_raise_socket_exception_group\<close>, the copy of the function of the files.\<close>

definition raise_socket_exception_group :: "pyexc \<Rightarrow> world \<Rightarrow> world" where
  "raise_socket_exception_group body w =
     (case w_err w of None \<Rightarrow> set_err body w | Some c \<Rightarrow> set_err (ExceptionGroup body c) w)"

definition UringioSocket_aexit :: "liburing \<Rightarrow> nat \<Rightarrow> pyexc option option \<Rightarrow> world \<Rightarrow> nat option \<times> world" where
  "UringioSocket_aexit L self args w =
     (case args of
        None \<Rightarrow> (None, set_err CalleeError w)
      | Some exc \<Rightarrow>
          (let group = (\<lambda>w. case exc of None \<Rightarrow> w | Some e \<Rightarrow> raise_socket_exception_group e w);
               full = (\<lambda>w. case exc of None \<Rightarrow> set_err (RuntimeError ''Registry is full'') w
                                       | Some e \<Rightarrow> raise_socket_exception_group e w)
           in with_future group (close_tail L self zero_timeout full group) w))"

definition UringioSocket_bind ::
  "(int \<Rightarrow> string \<Rightarrow> u8 list option) \<Rightarrow> liburing \<Rightarrow> nat \<Rightarrow> (string \<times> int \<times> pyobj option) option \<Rightarrow> world
     \<Rightarrow> nat option \<times> world" where
  "UringioSocket_bind pton L self args w =
     guarded (socket_guard self w) args (\<lambda>(host, port, to_obj).
       with_timeout to_obj (\<lambda>w. w) (\<lambda>tp.
         let domain = us_domain (w_socks w self)
         in with_address pton (Some host) port domain (\<lambda>addr.
              with_future (on_heap (c_free (Some addr))) (\<lambda>fu.
                socket_request self (on_heap (c_free (Some addr))) fu None ONESHOT IORING_OP_BIND None None
                  (then_free (Some addr)
                    (\<lambda>i. ring_op (\<lambda>r. uringio_bind L r i (us_sock_fd (w_socks w self)) (Addr addr)
                                       (get_socket_size domain) tp))))))) w"

definition UringioSocket_connect ::
  "(int \<Rightarrow> string \<Rightarrow> u8 list option) \<Rightarrow> liburing \<Rightarrow> nat \<Rightarrow> (string \<times> int \<times> pyobj option) option \<Rightarrow> world
     \<Rightarrow> nat option \<times> world" where
  "UringioSocket_connect pton L self args w =
     guarded (socket_guard self w) args (\<lambda>(host, port, to_obj).
       with_timeout to_obj (\<lambda>w. w) (\<lambda>tp.
         let domain = us_domain (w_socks w self)
         in with_address pton (Some host) port domain (\<lambda>addr.
              with_future (on_heap (c_free (Some addr))) (\<lambda>fu.
                socket_request self (on_heap (c_free (Some addr))) fu None ONESHOT IORING_OP_CONNECT None None
                  (then_free (Some addr)
                    (\<lambda>i. ring_op (\<lambda>r. uringio_connect L r i (us_sock_fd (w_socks w self)) (Addr addr)
                                       (get_socket_size domain) tp))))))) w"

definition UringioSocket_listen ::
  "liburing \<Rightarrow> nat \<Rightarrow> (int \<times> pyobj option) option \<Rightarrow> world \<Rightarrow> nat option \<times> world" where
  "UringioSocket_listen L self args w =
     guarded (socket_guard self w) args (\<lambda>(backlog, to_obj).
       with_timeout to_obj (\<lambda>w. w) (\<lambda>tp.
         with_future (\<lambda>w. w) (\<lambda>fu.
           socket_request self (\<lambda>w. w) fu None ONESHOT IORING_OP_LISTEN None None
             (\<lambda>i. ring_op (\<lambda>r. uringio_listen L r i (us_sock_fd (w_socks w self)) backlog tp))))) w"

definition UringioSocket_accept ::
  "liburing \<Rightarrow> nat \<Rightarrow> pyobj option option \<Rightarrow> world \<Rightarrow> nat option \<times> world" where
  "UringioSocket_accept L self args w =
     guarded (socket_guard self w) args (\<lambda>to_obj.
       with_timeout to_obj (\<lambda>w. w) (\<lambda>tp.
         with_future (\<lambda>w. w) (\<lambda>fu.
           with_malloc 4 (\<lambda>w. w) (\<lambda>addrlen.
             with_block 128 (\<lambda>peer_addr w1.
               let (stream_strategy, w2) = get_stream_strategy w1
               in socket_request self (on_heap (c_free (Some addrlen))) fu None stream_strategy IORING_OP_ACCEPT
                    peer_addr None
                    (\<lambda>i. accept_dispatcher L self stream_strategy i (to_ptr peer_addr) (Addr addrlen) tp) w2))))) w"

definition UringioSocket_close :: "liburing \<Rightarrow> nat \<Rightarrow> pyobj option option \<Rightarrow> world \<Rightarrow> nat option \<times> world" where
  "UringioSocket_close L self args w =
     guarded (socket_guard self w) args (\<lambda>to_obj.
       with_timeout to_obj (\<lambda>w. w) (\<lambda>tp.
         with_future (\<lambda>w. w)
           (close_tail L self tp (set_err (RuntimeError ''Registry is full'')) (\<lambda>w. w)))) w"

definition UringioSocket_send ::
  "liburing \<Rightarrow> nat \<Rightarrow> (pyitem \<times> int \<times> pyobj option) option \<Rightarrow> world \<Rightarrow> nat option \<times> world" where
  "UringioSocket_send L self args w =
     guarded (socket_guard self w) args (\<lambda>(data, is_poll_first, to_obj).
       with_timeout to_obj (\<lambda>w. w) (\<lambda>tp.
         with_payload (payload_from_data data) (\<lambda>w. w) (\<lambda>a w1.
           let (transfer_mode, w2) = get_transfer_mode w1
           in with_future (free_payload_at (Some a) False) (\<lambda>fu.
                socket_request self (free_payload_at (Some a) False) fu (Some a) ONESHOT IORING_OP_SEND None None
                  (\<lambda>i. send_dispatcher L self a transfer_mode i is_poll_first tp)) w2))) w"

definition UringioSocket_recv ::
  "liburing \<Rightarrow> nat \<Rightarrow> (int \<times> pyseq option \<times> int \<times> pyobj option) option \<Rightarrow> world \<Rightarrow> nat option \<times> world" where
  "UringioSocket_recv L self args w =
     guarded (socket_guard self w) args (\<lambda>(bufsize, buffer_obj, is_poll_first, to_obj).
       with_timeout to_obj (\<lambda>w. w) (\<lambda>tp.
         with_payload (linear_payload buffer_obj bufsize) (\<lambda>w. w) (\<lambda>a w1.
           let (stream_strategy, w2) = get_stream_strategy w1
           in with_future (free_payload_at (Some a) False) (\<lambda>fu.
                socket_request self (free_payload_at (Some a) False) fu (Some a) stream_strategy IORING_OP_RECV None None
                  (\<lambda>i. recv_dispatcher L self a stream_strategy i is_poll_first tp)) w2))) w"

text \<open>The payload of \<^verbatim>\<open>sendto\<close> is not registered with the request.\<close>

definition UringioSocket_sendto ::
  "(int \<Rightarrow> string \<Rightarrow> u8 list option) \<Rightarrow> liburing \<Rightarrow> nat
     \<Rightarrow> (pyitem \<times> string \<times> int \<times> int \<times> int \<times> pyobj option) option \<Rightarrow> world \<Rightarrow> nat option \<times> world" where
  "UringioSocket_sendto pton L self args w =
     guarded (socket_guard self w) args (\<lambda>(data, host, port, domain, is_poll_first, to_obj).
       with_timeout to_obj (\<lambda>w. w) (\<lambda>tp.
         with_address pton (Some host) port domain (\<lambda>addr.
           with_payload (payload_from_data data) (on_heap (c_free (Some addr))) (\<lambda>a.
             with_future (\<lambda>w. free_payload_at (Some a) False (on_heap (c_free (Some addr)) w)) (\<lambda>fu w1.
               let p = w_pay w1 a
               in socket_request self (\<lambda>w. free_payload_at (Some a) False (on_heap (c_free (Some addr)) w)) fu None
                    ONESHOT IORING_OP_SENDMSG None None
                    (then_free (Some addr)
                      (\<lambda>i w. ring_op (\<lambda>r. uringio_sendto L r i (us_sock_fd (w_socks w self)) (linear_buffer p)
                                 (ucast (word_of_int (linear_len p) :: u32)) (Addr addr)
                                 (ucast (get_socket_size domain)) is_poll_first tp) (check_linear p w))) w1))))) w"

definition UringioSocket_recvfrom ::
  "(int \<Rightarrow> string \<Rightarrow> u8 list option) \<Rightarrow> liburing \<Rightarrow> nat
     \<Rightarrow> (int \<times> pyseq option \<times> bool \<times> (string option \<times> int \<times> int) \<times> int \<times> pyobj option) option \<Rightarrow> world
     \<Rightarrow> nat option \<times> world" where
  "UringioSocket_recvfrom pton L self args w =
     guarded (socket_guard self w) args (\<lambda>(bufsize, buffer_obj, given, (host, port, domain), is_poll_first, to_obj).
       with_timeout to_obj (\<lambda>w. w) (\<lambda>tp w0.
         with_address pton host port domain (\<lambda>addr.
           with_payload (linear_payload buffer_obj (c_int bufsize)) (on_heap (c_free (Some addr))) (\<lambda>a.
             with_malloc 72 (\<lambda>w. on_heap (c_free (Some addr)) (free_payload_at (Some a) False w)) (\<lambda>msg.
               with_future (\<lambda>w. on_heap (c_free (Some msg)) (on_heap (c_free (Some addr)) (free_payload_at (Some a) False w)))
                 (\<lambda>fu w1.
                   let p = w_pay w1 a
                   in socket_request self
                        (\<lambda>w. on_heap (c_free (Some msg)) (on_heap (c_free (Some addr)) (free_payload_at (Some a) False w)))
                        fu (Some a) ONESHOT IORING_OP_RECVMSG (Some addr) (Some msg)
                        (\<lambda>i w. ring_op (\<lambda>r. uringio_recvfrom L r i (us_sock_fd (w_socks w self)) (linear_buffer p)
                                  (word_of_int (linear_len p)) (Addr addr) (get_socket_size domain) is_poll_first msg tp)
                                (check_linear p w)) w1)))) (passed given w0))) w"

definition UringioSocket_sendmsg ::
  "(int \<Rightarrow> string \<Rightarrow> u8 list option) \<Rightarrow> liburing \<Rightarrow> nat
     \<Rightarrow> (pyseq option \<times> string option \<times> int \<times> int \<times> int \<times> pyobj option) option \<Rightarrow> world \<Rightarrow> nat option \<times> world" where
  "UringioSocket_sendmsg pton L self args w =
     guarded (socket_guard self w) args (\<lambda>(buffers_obj, host, port, domain, is_poll_first, to_obj).
       with_timeout to_obj (\<lambda>w. w) (\<lambda>tp.
         let body = (\<lambda>addr.
               with_payload (vectored_payload buffers_obj) (\<lambda>w. w) (\<lambda>a w1.
                 let (transfer_mode, w2) = get_transfer_mode w1
                 in with_future (\<lambda>w. on_heap (c_free addr) (free_payload_at (Some a) False w)) (\<lambda>fu.
                      socket_request self (\<lambda>w. on_heap (c_free addr) (free_payload_at (Some a) False w)) fu (Some a)
                        ONESHOT IORING_OP_SENDMSG None None
                        (then_free addr
                          (\<lambda>i. sendmsg_dispatcher L self a transfer_mode i (to_ptr addr)
                                 (case addr of None \<Rightarrow> 0 | Some _ \<Rightarrow> ucast (get_socket_size domain)) is_poll_first tp))) w2))
         in case host of
              None \<Rightarrow> body None
            | Some _ \<Rightarrow> with_address pton host port domain (\<lambda>addr. body (Some addr)))) w"

definition UringioSocket_recvmsg ::
  "liburing \<Rightarrow> nat \<Rightarrow> (bool \<times> pyseq option \<times> int \<times> pyobj option) option \<Rightarrow> world \<Rightarrow> nat option \<times> world" where
  "UringioSocket_recvmsg L self args w =
     guarded (socket_guard self w) args (\<lambda>(given, buffers_obj, is_poll_first, to_obj).
       with_timeout to_obj (\<lambda>w. w) (\<lambda>tp w0.
         with_payload (vectored_payload buffers_obj) (\<lambda>w. w) (\<lambda>a w1.
           let (stream_strategy, w2) = get_stream_strategy w1
           in with_future (free_payload_at (Some a) False) (\<lambda>fu.
                with_block 56 (\<lambda>msghdr.
                  socket_request self (free_payload_at (Some a) False) fu (Some a) stream_strategy IORING_OP_RECVMSG
                    None msghdr
                    (\<lambda>i. recvmsg_dispatcher L self a stream_strategy i is_poll_first (to_ptr msghdr) tp))) w2)
           (passed given w0))) w"

section \<open>Dispatchers are operations\<close>

lemma accept_dispatcher_op: "world_op L (\<lambda>i. accept_dispatcher L self st i addr len tp)"
proof (rule world_op_choice [where tp = tp and f = "\<lambda>i w. w"])
  fix i and w :: world
  show "\<exists>c. accept_dispatcher L self st i addr len tp w = ring_op (\<lambda>r. run_op c L r i tp) w"
    by (intro exI [of _ "if st = MULTISHOT then Op_accept_multishot (us_sock_fd (w_socks w self)) addr len 0
        else Op_accept (us_sock_fd (w_socks w self)) addr len 0"]) (simp add: accept_dispatcher_def)
qed simp_all

lemma recv_dispatcher_op: "world_op L (\<lambda>i. recv_dispatcher L self a st i pf tp)"
proof (rule world_op_choice [where tp = tp and f = "\<lambda>i w. check_linear (w_pay w a) w"])
  fix i and w :: world
  let ?p = "w_pay w a" and ?fd = "us_sock_fd (w_socks w self)"
  show "\<exists>c. recv_dispatcher L self a st i pf tp w = ring_op (\<lambda>r. run_op c L r i tp) (check_linear ?p w)"
    by (intro exI [of _ "if bp_mode ?p = PROVIDED \<or> bp_mode ?p = BUF_RING
        then if st = MULTISHOT then Op_recv_multishot ?fd (word_of_int (linear_len ?p)) (bp_bgid ?p) pf
             else Op_recv_buffer_select ?fd (word_of_int (linear_len ?p)) (bp_bgid ?p) pf
        else Op_recv ?fd (linear_buffer ?p) (word_of_int (linear_len ?p)) pf"])
      (auto simp: recv_dispatcher_def Let_def)
qed simp_all

lemma recvmsg_dispatcher_op: "world_op L (\<lambda>i. recvmsg_dispatcher L self a st i pf m tp)"
proof (rule world_op_choice [where tp = tp and f = "\<lambda>i w.
      if bp_mode (w_pay w a) = PROVIDED \<or> bp_mode (w_pay w a) = BUF_RING then w else check_vector (w_pay w a) w"])
  fix i and w :: world
  let ?p = "w_pay w a" and ?fd = "us_sock_fd (w_socks w self)"
  show "\<exists>c. recvmsg_dispatcher L self a st i pf m tp w = ring_op (\<lambda>r. run_op c L r i tp)
      (if bp_mode ?p = PROVIDED \<or> bp_mode ?p = BUF_RING then w else check_vector ?p w)"
    by (intro exI [of _ "if bp_mode ?p = PROVIDED \<or> bp_mode ?p = BUF_RING
        then if st = MULTISHOT then Op_recvmsg_multishot ?fd (bp_bgid ?p) pf m
             else Op_recvmsg_buffer_select ?fd (bp_bgid ?p) pf
        else Op_recvmsg ?fd (vector_iovecs ?p) (vector_nr ?p) pf"])
      (auto simp: recvmsg_dispatcher_def Let_def)
qed simp_all

lemma send_dispatcher_op: "world_op L (\<lambda>i. send_dispatcher L self a tm i pf tp)"
proof (rule world_op_choice [where tp = tp and f = "\<lambda>i w.
      check_linear (w_pay w a) (if tm = ZERO_COPY \<and> bp_mode (w_pay w a) = FIXED then snd (take_buffer_idx a w) else w)"])
  fix i and w :: world
  let ?p = "w_pay w a" and ?fd = "us_sock_fd (w_socks w self)" and ?len = "word_of_int (linear_len (w_pay w a))"
  show "\<exists>c. send_dispatcher L self a tm i pf tp w = ring_op (\<lambda>r. run_op c L r i tp)
      (check_linear ?p (if tm = ZERO_COPY \<and> bp_mode ?p = FIXED then snd (take_buffer_idx a w) else w))"
    by (intro exI [of _ "if tm = ZERO_COPY
        then if bp_mode ?p = FIXED then Op_send_zc_fixed ?fd (linear_buffer ?p) ?len pf (fst (take_buffer_idx a w))
             else Op_send_zc ?fd (linear_buffer ?p) ?len pf
        else Op_send ?fd (linear_buffer ?p) (ucast (?len :: u32)) pf"])
      (auto simp: send_dispatcher_def case_prod_beta Let_def)
qed simp_all

lemma sendmsg_dispatcher_op: "world_op L (\<lambda>i. sendmsg_dispatcher L self a tm i addr len pf tp)"
proof (rule world_op_choice [where tp = tp and f = "\<lambda>i w.
      check_vector (w_pay w a) (if tm = ZERO_COPY then snd (take_buffer_idx a w) else w)"])
  fix i and w :: world
  let ?p = "w_pay w a" and ?fd = "us_sock_fd (w_socks w self)"
  show "\<exists>c. sendmsg_dispatcher L self a tm i addr len pf tp w = ring_op (\<lambda>r. run_op c L r i tp)
      (check_vector ?p (if tm = ZERO_COPY then snd (take_buffer_idx a w) else w))"
    by (intro exI [of _ "if tm = ZERO_COPY
        then Op_sendmsg_zc ?fd (vector_iovecs ?p) (vector_nr ?p) addr len pf (fst (take_buffer_idx a w))
        else Op_sendmsg ?fd (vector_iovecs ?p) (vector_nr ?p) addr len pf"])
      (auto simp: sendmsg_dispatcher_def case_prod_beta Let_def)
qed simp_all

interpretation accept_disp: world_op L "\<lambda>i. accept_dispatcher L self st i addr len tp" for L self st addr len tp
  by (rule accept_dispatcher_op)

interpretation recv_disp: world_op L "\<lambda>i. recv_dispatcher L self a st i pf tp" for L self a st pf tp
  by (rule recv_dispatcher_op)

interpretation recvmsg_disp: world_op L "\<lambda>i. recvmsg_dispatcher L self a st i pf m tp" for L self a st pf m tp
  by (rule recvmsg_dispatcher_op)

interpretation send_disp: world_op L "\<lambda>i. send_dispatcher L self a tm i pf tp" for L self a tm pf tp
  by (rule send_dispatcher_op)

interpretation sendmsg_disp: world_op L "\<lambda>i. sendmsg_dispatcher L self a tm i addr len pf tp"
  for L self a tm addr len pf tp
  by (rule sendmsg_dispatcher_op)

lemma then_free_op: "world_op L op \<Longrightarrow> world_op L (then_free p op)"
  unfolding world_op_def by (simp add: then_free_def case_prod_beta)

lemma sendto_op:
  "world_op L (\<lambda>i w. ring_op (\<lambda>r. uringio_sendto L r i (us_sock_fd (w_socks w self)) b n ad al pf tp) (check_linear p w))"
proof (rule world_op_choice [where tp = tp and f = "\<lambda>i w. check_linear p w"])
  fix i and w :: world
  show "\<exists>c. ring_op (\<lambda>r. uringio_sendto L r i (us_sock_fd (w_socks w self)) b n ad al pf tp) (check_linear p w) =
      ring_op (\<lambda>r. run_op c L r i tp) (check_linear p w)"
    by (intro exI [of _ "Op_sendto (us_sock_fd (w_socks w self)) b n ad al pf"]) simp
qed simp_all

lemma recvfrom_op:
  "world_op L (\<lambda>i w. ring_op (\<lambda>r. uringio_recvfrom L r i (us_sock_fd (w_socks w self)) b n ad al pf m tp) (check_linear p w))"
proof (rule world_op_choice [where tp = tp and f = "\<lambda>i w. check_linear p w"])
  fix i and w :: world
  show "\<exists>c. ring_op (\<lambda>r. uringio_recvfrom L r i (us_sock_fd (w_socks w self)) b n ad al pf m tp) (check_linear p w) =
      ring_op (\<lambda>r. run_op c L r i tp) (check_linear p w)"
    by (intro exI [of _ "Op_recvfrom (us_sock_fd (w_socks w self)) b n ad al pf m"]) simp
qed simp_all

lemma socket_wrapper_ops:
  "world_op L (\<lambda>i. ring_op (\<lambda>r. uringio_bind L r i fd addr n tp))"
  "world_op L (\<lambda>i. ring_op (\<lambda>r. uringio_connect L r i fd addr n tp))"
  "world_op L (\<lambda>i. ring_op (\<lambda>r. uringio_listen L r i fd bl tp))"
  "world_op L (\<lambda>i. ring_op (\<lambda>r. uringio_close_socket L r i fd tp))"
  "world_op L (\<lambda>i. ring_op (\<lambda>r. prep_socket L r i domain ty tp))"
  using world_op_wrapper [of L "Op_bind fd addr n" tp] world_op_wrapper [of L "Op_connect fd addr n" tp]
    world_op_wrapper [of L "Op_listen fd bl" tp] world_op_wrapper [of L "Op_close_socket fd" tp]
    world_op_wrapper [of L "Op_prep_socket domain ty" tp] by simp_all

section \<open>Methods start requests\<close>

lemma same_core_heap: "same_core w (w\<lparr>w_heap := h\<rparr>)"
  by (simp add: same_core_def)

lemma same_core_serialize: "serialize_address pton host port d w = (q, w') \<Longrightarrow> same_core w w'"
  by (auto simp: serialize_address_def same_core_def Let_def split: prod.splits option.splits if_splits)

lemma method_ok_address:
  assumes "\<And>a. method_ok oc (k a)"
  shows "method_ok oc (with_address pton host port d k)"
  unfolding method_ok_def
proof (intro allI impI)
  fix w :: world assume inv: "reg_inv (w_reg w)"
  obtain q w1 where c: "serialize_address pton host port d w = (q, w1)" by force
  note sc = same_core_serialize [OF c]
  show "starts_request w oc (fst (with_address pton host port d k w)) (snd (with_address pton host port d k w))"
    using c starts_request_none [OF inv sc] method_ok_prefix [OF assms sc inv]
    by (cases q) (auto simp: with_address_def)
qed

lemma method_ok_malloc:
  assumes "\<And>w. same_core w (on_error w)" and "\<And>a. method_ok oc (k a)"
  shows "method_ok oc (with_malloc n on_error k)"
  unfolding method_ok_def
proof (intro allI impI)
  fix w :: world assume inv: "reg_inv (w_reg w)"
  obtain q h where c: "c_malloc n (w_heap w) = (q, h)" by force
  note sc = same_core_heap [of w h]
  show "starts_request w oc (fst (with_malloc n on_error k w)) (snd (with_malloc n on_error k w))"
    using c starts_request_none [OF inv same_core_trans [OF sc same_core_trans [OF assms(1) same_core_steps(1)]]]
      method_ok_prefix [OF assms(2) sc inv]
    by (cases q) (auto simp: with_malloc_def)
qed

lemma method_ok_block:
  assumes "\<And>a. method_ok oc (k a)"
  shows "method_ok oc (with_block n k)"
  unfolding method_ok_def with_block_def Let_def case_prod_beta
  using method_ok_prefix [OF assms same_core_heap] by blast

lemma method_ok_transfer:
  assumes "\<And>tm. method_ok oc (k tm)"
  shows "method_ok oc (\<lambda>w. let (tm, w1) = get_transfer_mode w in k tm w1)"
  unfolding method_ok_def Let_def case_prod_beta
  using method_ok_prefix [OF assms same_core_transfer [OF prod.collapse [symmetric]]] by blast

lemma method_ok_passed:
  assumes "method_ok oc m"
  shows "method_ok oc (\<lambda>w. m (passed g w))"
proof -
  have "same_core w (passed g w)" for w by (simp add: passed_def)
  then show ?thesis unfolding method_ok_def using method_ok_prefix [OF assms] by blast
qed

lemma method_ok_socket_request:
  assumes "liburing_ok L" and "\<And>w. world_op L (op w)" and "\<And>w. same_core w (cleanup w)"
  shows "method_ok oc (\<lambda>w. socket_request self cleanup fu bp st oc ad ms (op w) w)"
  unfolding socket_request_def by (rule method_ok_submit [OF assms]) simp

lemma method_ok_socket_request_const:
  assumes "liburing_ok L" and "world_op L op" and "\<And>w. same_core w (cleanup w)"
  shows "method_ok oc (socket_request self cleanup fu bp st oc ad ms op)"
  using method_ok_socket_request [OF assms(1), of "\<lambda>_. op"] assms(2,3) by simp

lemma method_ok_host:
  "method_ok oc m \<Longrightarrow> (\<And>x. method_ok oc (k x)) \<Longrightarrow> method_ok oc (case host of None \<Rightarrow> m | Some x \<Rightarrow> k x)"
  by (cases host) simp_all

lemma same_core_cleanups:
  "same_core w (on_heap f (on_heap g (free_payload_at pa b w)))" "same_core w (on_heap f (free_payload_at pa b w))"
  "same_core w (free_payload_at pa b (on_heap f w))"
  by (simp_all add: same_core_def)

lemma method_ok_case_prod_fun:
  "(\<And>a b. method_ok oc (f a b y)) \<Longrightarrow> method_ok oc ((case x of (a, b) \<Rightarrow> f a b) y)"
  by (cases x) simp

lemmas socket_rules = method_ok_case_prod method_ok_timeout method_ok_address method_ok_malloc method_ok_block
  method_ok_transfer method_ok_stream method_ok_future method_ok_payload method_ok_host
  same_core_cleanups core_rules

text \<open>The methods of a socket, with their arguments.\<close>

datatype socket_call =
    Sock_bind "(string \<times> int \<times> pyobj option) option"
  | Sock_connect "(string \<times> int \<times> pyobj option) option"
  | Sock_listen "(int \<times> pyobj option) option"
  | Sock_accept "pyobj option option"
  | Sock_close "pyobj option option"
  | Sock_send "(pyitem \<times> int \<times> pyobj option) option"
  | Sock_recv "(int \<times> pyseq option \<times> int \<times> pyobj option) option"
  | Sock_sendto "(pyitem \<times> string \<times> int \<times> int \<times> int \<times> pyobj option) option"
  | Sock_recvfrom "(int \<times> pyseq option \<times> bool \<times> (string option \<times> int \<times> int) \<times> int \<times> pyobj option) option"
  | Sock_sendmsg "(pyseq option \<times> string option \<times> int \<times> int \<times> int \<times> pyobj option) option"
  | Sock_recvmsg "(bool \<times> pyseq option \<times> int \<times> pyobj option) option"

fun socket_method ::
  "socket_call \<Rightarrow> (int \<Rightarrow> string \<Rightarrow> u8 list option) \<Rightarrow> liburing \<Rightarrow> nat \<Rightarrow> world \<Rightarrow> nat option \<times> world" where
  "socket_method (Sock_bind a) pton L self w = UringioSocket_bind pton L self a w"
| "socket_method (Sock_connect a) pton L self w = UringioSocket_connect pton L self a w"
| "socket_method (Sock_listen a) pton L self w = UringioSocket_listen L self a w"
| "socket_method (Sock_accept a) pton L self w = UringioSocket_accept L self a w"
| "socket_method (Sock_close a) pton L self w = UringioSocket_close L self a w"
| "socket_method (Sock_send a) pton L self w = UringioSocket_send L self a w"
| "socket_method (Sock_recv a) pton L self w = UringioSocket_recv L self a w"
| "socket_method (Sock_sendto a) pton L self w = UringioSocket_sendto pton L self a w"
| "socket_method (Sock_recvfrom a) pton L self w = UringioSocket_recvfrom pton L self a w"
| "socket_method (Sock_sendmsg a) pton L self w = UringioSocket_sendmsg pton L self a w"
| "socket_method (Sock_recvmsg a) pton L self w = UringioSocket_recvmsg L self a w"

fun socket_opcode :: "socket_call \<Rightarrow> int" where
  "socket_opcode (Sock_bind _) = IORING_OP_BIND"
| "socket_opcode (Sock_connect _) = IORING_OP_CONNECT"
| "socket_opcode (Sock_listen _) = IORING_OP_LISTEN"
| "socket_opcode (Sock_accept _) = IORING_OP_ACCEPT"
| "socket_opcode (Sock_close _) = IORING_OP_CLOSE"
| "socket_opcode (Sock_send _) = IORING_OP_SEND"
| "socket_opcode (Sock_recv _) = IORING_OP_RECV"
| "socket_opcode (Sock_sendto _) = IORING_OP_SENDMSG"
| "socket_opcode (Sock_recvfrom _) = IORING_OP_RECVMSG"
| "socket_opcode (Sock_sendmsg _) = IORING_OP_SENDMSG"
| "socket_opcode (Sock_recvmsg _) = IORING_OP_RECVMSG"

subsection \<open>Closing\<close>

lemma register_full:
  assumes inv: "reg_inv (w_reg w)" and reg: "register_request fu bp st oc fi so ad ms w = (i, w2)" and i: "i < 0"
  shows "w2 = w"
proof (cases "reg_free (w_reg w) = []")
  case True
  with registry_add_full [OF inv True] reg show ?thesis by (simp add: register_request_def)
next
  case False
  obtain j reg' h' where a: "registry_add (w_reg w) fu bp st oc fi so ad ms (w_heap w) = (j, reg', h')"
    using prod_cases3 by blast
  have "0 \<le> j" using registry_add_abs(1) [OF inv False a] registry_add_shape(2,3) [OF inv False] by simp
  with a reg i show ?thesis by (simp add: register_request_def)
qed

lemma set_sock_closed_simps [simp]:
  "same_core w (set_sock_closed b self w)" "w_err (set_sock_closed b self w) = w_err w"
  "us_closed (w_socks (set_sock_closed b self w) self) = b"
  "us_sock_fd (w_socks (set_sock_closed b self w) x) = us_sock_fd (w_socks w x)"
  "w_ring (set_sock_closed b self w) = w_ring w"
  by (simp_all add: set_sock_closed_def same_core_def)

lemma set_sock_closed_ring_op:
  "ring_op f (set_sock_closed b self w) = (fst (ring_op f w), set_sock_closed b self (snd (ring_op f w)))"
  by (simp add: ring_op_def set_sock_closed_def case_prod_beta)

lemma set_sock_closed_commute:
  "set_err e (set_sock_closed b self w) = set_sock_closed b self (set_err e w)"
  "raise_opt eo (set_sock_closed b self w) = set_sock_closed b self (raise_opt eo w)"
  "on_heap f (set_sock_closed b self w) = set_sock_closed b self (on_heap f w)"
  "remove_request i (set_sock_closed b self w) = set_sock_closed b self (remove_request i w)"
proof -
  show "set_err e (set_sock_closed b self w) = set_sock_closed b self (set_err e w)" for e
    by (simp add: set_sock_closed_def set_err_def)
  then show "raise_opt eo (set_sock_closed b self w) = set_sock_closed b self (raise_opt eo w)"
    by (cases eo) (simp_all add: raise_opt_def)
  show "on_heap f (set_sock_closed b self w) = set_sock_closed b self (on_heap f w)"
    by (simp add: set_sock_closed_def on_heap_def)
  show "remove_request i (set_sock_closed b self w) = set_sock_closed b self (remove_request i w)"
    by (cases "registry_remove (w_pay w) (w_reg w) i (w_heap w)")
      (auto simp: set_sock_closed_def remove_request_def)
qed

lemma set_sock_closed_failed:
  "snd (submission_failed t e2 (\<lambda>w. w) fu i (set_sock_closed b self w)) =
     set_sock_closed b self (snd (submission_failed t e2 (\<lambda>w. w) fu i w))"
  by (simp add: submission_failed_def Let_def set_sock_closed_commute)

text \<open>Registering and closing, seen as the steps of a request followed by the change of the mark.\<close>

lemma submit_close_eq:
  fixes w2 :: world and L :: liburing and self :: nat and tp :: TimeoutParams
  defines "op \<equiv> \<lambda>i. ring_op (\<lambda>r. uringio_close_socket L r i (us_sock_fd (w_socks w2 self)) tp)"
  assumes reg: "register_request fu None ONESHOT IORING_OP_CLOSE None (Some self) None None w1 = (i, w2)" and i: "0 \<le> i"
  shows "\<exists>b. fst (submit_close L self tp fu i w2) =
      fst (socket_request self (\<lambda>w. w) fu None ONESHOT IORING_OP_CLOSE None None op w1) \<and>
    snd (submit_close L self tp fu i w2) = set_sock_closed (fst (submit_close L self tp fu i w2) \<noteq> None) self
      (set_sock_closed b self (snd (socket_request self (\<lambda>w. w) fu None ONESHOT IORING_OP_CLOSE None None op w1)))"
proof -
  define res where "res = op i w2"
  let ?failed = "submission_failed (fst res) (Some wrong_socket_status) (\<lambda>w. w) fu i (snd res)"
  have sub: "socket_request self (\<lambda>w. w) fu None ONESHOT IORING_OP_CLOSE None None op w1 =
      (if fst res < 1 then ?failed else (Some fu, snd res))"
    using reg i by (simp add: socket_request_def submit_request_def res_def case_prod_beta)
  have close: "submit_close L self tp fu i w2 =
      (if fst res < 1 then (None, set_sock_closed False self (set_sock_closed True self (snd ?failed)))
       else (Some fu, set_sock_closed True self (snd res)))"
    by (simp add: submit_close_def Let_def case_prod_beta set_sock_closed_ring_op set_sock_closed_failed res_def op_def)
  have twice: "set_sock_closed True self (set_sock_closed True self w) = set_sock_closed True self w" for w
    by (simp add: set_sock_closed_def)
  have "fst ?failed = None" by (simp add: submission_failed_def Let_def)
  then show ?thesis by (intro exI [of _ True]) (simp add: sub close twice)
qed

lemma submit_close_starts:
  assumes ok: "liburing_ok L" and inv: "reg_inv (w_reg w1)"
    and reg: "register_request fu None ONESHOT IORING_OP_CLOSE None (Some self) None None w1 = (i, w2)" and i: "0 \<le> i"
  shows "starts_request w1 IORING_OP_CLOSE (fst (submit_close L self tp fu i w2)) (snd (submit_close L self tp fu i w2))"
    and "us_closed (w_socks (snd (submit_close L self tp fu i w2)) self) \<longleftrightarrow> fst (submit_close L self tp fu i w2) \<noteq> None"
proof -
  let ?op = "\<lambda>i. ring_op (\<lambda>r. uringio_close_socket L r i (us_sock_fd (w_socks w2 self)) tp)"
  let ?sub = "socket_request self (\<lambda>w. w) fu None ONESHOT IORING_OP_CLOSE None None ?op w1"
  obtain b where e: "fst (submit_close L self tp fu i w2) = fst ?sub"
      "snd (submit_close L self tp fu i w2) = set_sock_closed (fst (submit_close L self tp fu i w2) \<noteq> None) self
         (set_sock_closed b self (snd ?sub))"
    using submit_close_eq [OF reg i] by blast
  have "method_ok IORING_OP_CLOSE (socket_request self (\<lambda>w. w) fu None ONESHOT IORING_OP_CLOSE None None ?op)"
    by (intro method_ok_socket_request_const [OF ok] socket_wrapper_ops same_core_refl)
  from method_okD [OF this inv] have st: "starts_request w1 IORING_OP_CLOSE (fst ?sub) (snd ?sub)" .
  show "starts_request w1 IORING_OP_CLOSE (fst (submit_close L self tp fu i w2)) (snd (submit_close L self tp fu i w2))"
    unfolding e(2) unfolding e(1)
    by (rule starts_request_post [OF st same_core_trans [OF set_sock_closed_simps(1) set_sock_closed_simps(1)]])
  show "us_closed (w_socks (snd (submit_close L self tp fu i w2)) self) \<longleftrightarrow> fst (submit_close L self tp fu i w2) \<noteq> None"
    by (subst e(2)) simp
qed

lemma close_tail_effect:
  assumes ok: "liburing_ok L" and inv: "reg_inv (w_reg w)"
    and core: "\<And>x. same_core x (on_full x)" "\<And>x. same_core x (on_failed x)"
  shows "starts_request w IORING_OP_CLOSE (fst (close_tail L self tp on_full on_failed fu w))
      (snd (close_tail L self tp on_full on_failed fu w))"
    and "\<not> us_closed (w_socks w self) \<Longrightarrow> (\<And>x. w_socks (on_full x) = w_socks x) \<Longrightarrow> (\<And>x. w_socks (on_failed x) = w_socks x) \<Longrightarrow>
      us_closed (w_socks (snd (close_tail L self tp on_full on_failed fu w)) self) \<longleftrightarrow>
        fst (close_tail L self tp on_full on_failed fu w) \<noteq> None"
proof -
  obtain i w2 where reg: "register_request fu None ONESHOT IORING_OP_CLOSE None (Some self) None None w = (i, w2)" by force
  note full = register_full [OF inv reg]
  note sub = submit_close_starts [OF ok inv reg, of tp]
  obtain q w3 where s: "submit_close L self tp fu i w2 = (q, w3)" by force
  have t: "close_tail L self tp on_full on_failed fu w =
      (if i < 0 then (None, on_full (on_heap (py_decref fu) w2)) else if q = None then (None, on_failed w3) else (q, w3))"
    by (auto simp: close_tail_def reg s split: option.split)
  have none: "starts_request w IORING_OP_CLOSE None (on_full (on_heap (py_decref fu) w2))" if "i < 0"
    using starts_request_none [OF inv same_core_trans [OF same_core_steps(3) core(1)]] full that by simp
  have fail: "starts_request w IORING_OP_CLOSE None (on_failed w3)" if "0 \<le> i" "q = None"
    using starts_request_post [OF _ core(2)] sub(1) [OF that(1)] s that(2) by simp
  show "starts_request w IORING_OP_CLOSE (fst (close_tail L self tp on_full on_failed fu w))
      (snd (close_tail L self tp on_full on_failed fu w))"
    using none fail sub(1) s by (simp add: t)
  show "us_closed (w_socks (snd (close_tail L self tp on_full on_failed fu w)) self) \<longleftrightarrow>
        fst (close_tail L self tp on_full on_failed fu w) \<noteq> None"
    if "\<not> us_closed (w_socks w self)" "\<And>x. w_socks (on_full x) = w_socks x" "\<And>x. w_socks (on_failed x) = w_socks x"
    using sub(2) s full that by (simp add: t)
qed

lemma method_ok_close_tail:
  assumes "liburing_ok L" and "\<And>x. same_core x (on_full x)" and "\<And>x. same_core x (on_failed x)"
  shows "method_ok IORING_OP_CLOSE (close_tail L self tp on_full on_failed fu)"
  unfolding method_ok_def using close_tail_effect(1) [OF assms(1) _ assms(2,3)] by blast

lemma sendmsg_ok:
  assumes ok: "liburing_ok L" and inv: "reg_inv (w_reg w)"
  shows "starts_request w IORING_OP_SENDMSG (fst (UringioSocket_sendmsg pton L self a w)) (snd (UringioSocket_sendmsg pton L self a w))"
proof -
  note requests = method_ok_socket_request_const [OF ok]
  have body: "method_ok IORING_OP_SENDMSG (with_payload (vectored_payload b) (\<lambda>w. w) (\<lambda>a w1.
      let (tm, w2) = get_transfer_mode w1
      in with_future (\<lambda>w. on_heap (c_free addr) (free_payload_at (Some a) False w)) (\<lambda>fu.
           socket_request self (\<lambda>w. on_heap (c_free addr) (free_payload_at (Some a) False w)) fu (Some a)
             ONESHOT IORING_OP_SENDMSG None None
             (then_free addr (\<lambda>i. sendmsg_dispatcher L self a tm i (to_ptr addr) n pf tp))) w2))" for b addr n pf tp
    by (intro method_ok_payload same_core_payloads same_core_refl method_ok_transfer method_ok_future
        same_core_cleanups requests then_free_op sendmsg_dispatcher_op)
  show ?thesis unfolding UringioSocket_sendmsg_def
    by (rule guarded_starts [OF _ inv])
      (intro method_ok_case_prod method_ok_timeout same_core_refl, unfold Let_def,
       intro method_ok_host method_ok_address body [unfolded Let_def])
qed

lemma socket_methods_ok:
  assumes ok: "liburing_ok L" and inv: "reg_inv (w_reg w)"
  shows "starts_request w (socket_opcode c) (fst (socket_method c pton L self w)) (snd (socket_method c pton L self w))"
proof -
  note requests = method_ok_socket_request_const [OF ok] method_ok_socket_request [OF ok]
  note rules = socket_rules requests
  show ?thesis
  proof (cases c)
    case (Sock_bind a)
    show ?thesis unfolding Sock_bind socket_method.simps socket_opcode.simps UringioSocket_bind_def Let_def
      by (rule guarded_starts [OF _ inv]) (intro rules then_free_op socket_wrapper_ops)
  next
    case (Sock_connect a)
    show ?thesis unfolding Sock_connect socket_method.simps socket_opcode.simps UringioSocket_connect_def Let_def
      by (rule guarded_starts [OF _ inv]) (intro rules then_free_op socket_wrapper_ops)
  next
    case (Sock_listen a)
    show ?thesis unfolding Sock_listen socket_method.simps socket_opcode.simps UringioSocket_listen_def
      by (rule guarded_starts [OF _ inv]) (intro rules socket_wrapper_ops)
  next
    case (Sock_accept a)
    show ?thesis unfolding Sock_accept socket_method.simps socket_opcode.simps UringioSocket_accept_def
      by (rule guarded_starts [OF _ inv]) (intro rules accept_dispatcher_op)
  next
    case (Sock_close a)
    show ?thesis unfolding Sock_close socket_method.simps socket_opcode.simps UringioSocket_close_def
      by (rule guarded_starts [OF _ inv]) (intro method_ok_timeout method_ok_future method_ok_close_tail ok same_core_refl same_core_steps(1))
  next
    case (Sock_send a)
    show ?thesis unfolding Sock_send socket_method.simps socket_opcode.simps UringioSocket_send_def
      by (rule guarded_starts [OF _ inv]) (intro rules send_dispatcher_op)
  next
    case (Sock_recv a)
    show ?thesis unfolding Sock_recv socket_method.simps socket_opcode.simps UringioSocket_recv_def
      by (rule guarded_starts [OF _ inv]) (intro rules recv_dispatcher_op)
  next
    case (Sock_sendto a)
    show ?thesis unfolding Sock_sendto socket_method.simps socket_opcode.simps UringioSocket_sendto_def Let_def
      by (rule guarded_starts [OF _ inv]) (intro rules then_free_op sendto_op)
  next
    case (Sock_recvfrom a)
    show ?thesis unfolding Sock_recvfrom socket_method.simps socket_opcode.simps UringioSocket_recvfrom_def Let_def
      by (rule guarded_starts [OF _ inv]) (intro rules method_ok_case_prod_fun method_ok_passed recvfrom_op)
  next
    case (Sock_sendmsg a)
    show ?thesis unfolding Sock_sendmsg socket_method.simps socket_opcode.simps by (rule sendmsg_ok [OF ok inv])
  next
    case (Sock_recvmsg a)
    show ?thesis unfolding Sock_recvmsg socket_method.simps socket_opcode.simps UringioSocket_recvmsg_def
      by (rule guarded_starts [OF _ inv]) (intro rules method_ok_passed recvmsg_dispatcher_op)
  qed
qed

lemma prep_socket_ok:
  assumes ok: "liburing_ok L" and inv: "reg_inv (w_reg w)"
  shows "starts_request w IORING_OP_SOCKET (fst (Uringio_prep_socket L running args w)) (snd (Uringio_prep_socket L running args w))"
proof -
  let ?body = "\<lambda>so domain socktype to_obj. with_timeout to_obj (on_heap (py_decref so)) (\<lambda>tp.
     with_future (on_heap (py_decref so)) (\<lambda>fu w3.
       let w4 = w3\<lparr>w_socks := (w_socks w3)(so := (w_socks w3 so)\<lparr>us_domain := domain\<rparr>)\<rparr>
       in submit_request (Some (RuntimeError ''Passed socket domain values are not awailable'')) (on_heap (py_decref so))
            (\<lambda>w. w) fu None ONESHOT IORING_OP_SOCKET None (Some so) None None
            (\<lambda>i. ring_op (\<lambda>r. prep_socket L r i domain socktype tp)) w4))"
  have tail: "method_ok IORING_OP_SOCKET (\<lambda>w3. let w4 = f w3 in submit_request e (on_heap (py_decref so))
            (\<lambda>w. w) fu None ONESHOT IORING_OP_SOCKET None (Some so) None None
            (\<lambda>i. ring_op (\<lambda>r. prep_socket L r i domain socktype tp)) w4)"
    if f: "\<And>w. same_core w (f w)" for f e so fu domain socktype tp
  proof -
    have "method_ok IORING_OP_SOCKET (submit_request e (on_heap (py_decref so))
            (\<lambda>w. w) fu None ONESHOT IORING_OP_SOCKET None (Some so) None None
            (\<lambda>i. ring_op (\<lambda>r. prep_socket L r i domain socktype tp)))"
      by (rule method_ok_submit [OF ok, where op = "\<lambda>_. op" for op]) (intro socket_wrapper_ops core_rules)+
    from method_ok_prefix [OF this f] show ?thesis unfolding method_ok_def Let_def by blast
  qed
  have body: "method_ok IORING_OP_SOCKET (?body so domain socktype to_obj)" for so domain socktype to_obj
    by (intro method_ok_timeout method_ok_future same_core_steps(3) tail) (simp add: same_core_def)
  obtain q w1 where n: "py_new MemoryError w = (q, w1)" by force
  have c1: "same_core w w1" using n by (auto simp: py_new_def same_core_def Let_def split: if_splits)
  show ?thesis
  proof (cases q)
    case None
    with n starts_request_none [OF inv c1] starts_request_none [OF inv same_core_steps(1)] show ?thesis
      by (auto simp: Uringio_prep_socket_def split: option.splits)
  next
    case (Some so)
    let ?w2 = "w1\<lparr>w_socks := (w_socks w1)(so := (w_socks w1 so)\<lparr>us_closed := False, us_addr := None\<rparr>)\<rparr>"
    have c2: "same_core w ?w2" using c1 by (simp add: same_core_def)
    have c3: "same_core w (on_heap f (set_err e ?w2))" for f e using c2 by (simp add: same_core_def)
    show ?thesis
    proof (cases args)
      case None
      then show ?thesis using n Some starts_request_none [OF inv c3] starts_request_none [OF inv same_core_steps(1)]
        by (auto simp: Uringio_prep_socket_def Let_def split: option.splits)
    next
      case (Some x)
      obtain d st to where x: "x = (d, st, to)" using prod_cases3 by blast
      have "starts_request w IORING_OP_SOCKET (fst (?body so d st to ?w2)) (snd (?body so d st to ?w2))"
        by (rule method_ok_prefix [OF body c2 inv])
      then show ?thesis using n \<open>q = Some so\<close> Some x starts_request_none [OF inv same_core_steps(1)]
        by (simp add: Uringio_prep_socket_def Let_def split: option.split)
    qed
  qed
qed

section \<open>Properties\<close>



lemma socket_aexit_starts:
  assumes "liburing_ok L" and inv: "reg_inv (w_reg w)"
  shows "starts_request w IORING_OP_CLOSE (fst (UringioSocket_aexit L self args w)) (snd (UringioSocket_aexit L self args w))"
proof (cases args)
  case None
  then show ?thesis using starts_request_none [OF inv same_core_steps(1)] by (simp add: UringioSocket_aexit_def)
next
  case (Some exc)
  have group: "same_core y (raise_socket_exception_group e y)" for e y by (simp add: raise_socket_exception_group_def split: option.split)
  obtain q w1 where c: "create_future w = (q, w1)" by force
  note c1 = same_core_create_future [OF c]
  have "starts_request w1 IORING_OP_CLOSE (fst (close_tail L self tp f g fu w1)) (snd (close_tail L self tp f g fu w1))"
    if "\<And>x. same_core x (f x)" "\<And>x. same_core x (g x)" for tp f g fu
    using close_tail_effect(1) [OF assms(1) reg_inv_core [OF c1 inv] that] .
  then show ?thesis
    using starts_request_prefix [OF c1] starts_request_none [OF inv] same_core_trans [OF c1] group c
    by (cases q) (simp_all add: Some UringioSocket_aexit_def with_future_def split: option.split)
qed

text \<open>
  C32. Closing a socket marks it closed exactly when the close was submitted: a method called later sees the mark at
  once, and after a failure the socket is usable again. The same holds when the block of \<^verbatim>\<open>async with\<close> is left.
\<close>

theorem socket_close_marks:
  assumes ok: "liburing_ok L" and inv: "reg_inv (w_reg w)" and op: "\<not> us_closed (w_socks w self)"
  shows "(us_closed (w_socks (snd (UringioSocket_close L self args w)) self) \<longleftrightarrow> fst (UringioSocket_close L self args w) \<noteq> None) \<and>
    (us_closed (w_socks (snd (UringioSocket_aexit L self exc w)) self) \<longleftrightarrow> fst (UringioSocket_aexit L self exc w) \<noteq> None)"
proof (rule conjI)
  have fut: "us_closed (w_socks (snd (with_future on_error (close_tail L self tp on_full on_failed) w1)) self) \<longleftrightarrow>
      fst (with_future on_error (close_tail L self tp on_full on_failed) w1) \<noteq> None"
    if "same_core w w1" "w_socks w1 = w_socks w" "\<And>x. w_socks (on_error x) = w_socks x"
      "\<And>x. same_core x (on_full x)" "\<And>x. same_core x (on_failed x)"
      "\<And>x. w_socks (on_full x) = w_socks x" "\<And>x. w_socks (on_failed x) = w_socks x"
    for on_error tp on_full on_failed w1
  proof -
    obtain q w2 where c: "create_future w1 = (q, w2)" by force
    have "reg_inv (w_reg w2)" "w_socks w2 = w_socks w"
      using reg_inv_core [OF same_core_trans [OF that(1) same_core_create_future [OF c]] inv] create_future_simps(6) [OF c] that(2)
      by simp_all
    then show ?thesis
      using close_tail_effect(2) [OF ok _ that(4,5) _ that(6,7)] op that(3) c by (cases q) (simp_all add: with_future_def)
  qed
  show "us_closed (w_socks (snd (UringioSocket_close L self args w)) self) \<longleftrightarrow> fst (UringioSocket_close L self args w) \<noteq> None"
  proof (cases "socket_guard self w \<noteq> None \<or> args = None")
    case True
    then show ?thesis using op by (auto simp: UringioSocket_close_def guarded_def split: option.splits)
  next
    case False
    then obtain to_obj where a: "socket_guard self w = None" "args = Some to_obj" by blast
    obtain ret tp e where p: "parse_timeout_params to_obj zero_timeout = (ret, tp, e)" using prod_cases3 by blast
    have r: "w_socks (raise_opt e w) = w_socks w" "same_core w (raise_opt e w)"
      by (simp_all add: raise_opt_def split: option.split)
    show ?thesis using a p r op fut [OF r(2,1)] by (simp add: UringioSocket_close_def guarded_def with_timeout_def Let_def)
  qed
  show "us_closed (w_socks (snd (UringioSocket_aexit L self exc w)) self) \<longleftrightarrow> fst (UringioSocket_aexit L self exc w) \<noteq> None"
  proof (cases exc)
    case None
    then show ?thesis using op by (simp add: UringioSocket_aexit_def)
  next
    case (Some x)
    have group: "same_core y (raise_socket_exception_group e y)" "w_socks (raise_socket_exception_group e y) = w_socks y" for e y
      by (auto simp: raise_socket_exception_group_def split: option.split)
    show ?thesis unfolding Some UringioSocket_aexit_def option.case Let_def
      by (rule fut) (auto simp: group split: option.split)
  qed
qed

theorem socket_close_marks_witness:
  "us_closed (w_socks (snd (UringioSocket_close (lib_model 256 True) 9 (Some None) init_world)) 9) \<longleftrightarrow>
     fst (UringioSocket_close (lib_model 256 True) 9 (Some None) init_world) \<noteq> None"
  using socket_close_marks [OF lib_model_ok, of init_world 9 256 True "Some None" None] by (simp add: init_world_def)

text \<open>
  C34. The address of a socket operation: for the two families the code supports the port is stored in network order,
  most significant byte first, reduced to 16 bits without a check, so the number read back is the port exactly when it
  lies between 0 and 65535; an address text the C library rejects raises and frees the block, and any other family fails
  with the block freed and no exception set.
\<close>

theorem serialize_address_spec:
  assumes "\<not> h_oom (w_heap w) (h_next (w_heap w))" and "w_err w = None"
    and r: "serialize_address pton (Some host) port domain w = (q, w')"
  shows "(case q of
      Some (a, ad) \<Rightarrow> domain \<in> {AF_INET, AF_INET6} \<and> ss_family ad = domain \<and> pton domain host = Some (ss_addr ad) \<and>
        h_live (w_heap w') = insert a (h_live (w_heap w)) \<and> w_err w' = None \<and>
        256 * uint (ss_port ad ! 0) + uint (ss_port ad ! 1) = port mod 2 ^ 16
    | None \<Rightarrow> h_live (w_heap w') = h_live (w_heap w) - {h_next (w_heap w)} \<and>
        (if domain \<in> {AF_INET, AF_INET6}
         then pton domain host = None \<and> (\<exists>m. w_err w' = Some (ConnectionRefusedError m)) else w_err w' = None))"
proof -
  let ?a = "h_next (w_heap w)"
  have m: "c_malloc 128 (w_heap w) = (Some ?a, (w_heap w)\<lparr>h_next := Suc ?a, h_live := insert ?a (h_live (w_heap w))\<rparr>)"
    using assms(1) by (simp add: c_malloc_def alloc_max_def)
  show ?thesis
  proof (cases "domain \<in> {AF_INET, AF_INET6}")
    case True
    with r assms(2) show ?thesis
      by (auto simp: serialize_address_def m Let_def htons_value uint_word_of_int AF_INET_def AF_INET6_def
          split: option.splits if_splits)
  next
    case False
    with r assms(2) show ?thesis by (auto simp: serialize_address_def m Let_def)
  qed
qed

theorem serialize_address_spec_witness:
  "case fst (serialize_address (\<lambda>_ _. Some [127, 0, 0, 1]) (Some ''127.0.0.1'') 65616 AF_INET init_world) of
     Some (a, ad) \<Rightarrow> 256 * uint (ss_port ad ! 0) + uint (ss_port ad ! 1) = 80 | None \<Rightarrow> True"
proof -
  obtain q w' where r: "serialize_address (\<lambda>_ _. Some [127, 0, 0, 1]) (Some ''127.0.0.1'') 65616 AF_INET init_world = (q, w')"
    by force
  have init: "\<not> h_oom (w_heap init_world) (h_next (w_heap init_world))" "w_err init_world = None"
    by (simp_all add: init_world_def init_heap_def)
  show ?thesis using serialize_address_spec [OF init r] by (auto simp: r split: option.splits)
qed

end
