(* ===== verification/Loop_Lifecycle.thy ===== *)
theory Loop_Lifecycle
  imports Event_Loop Socket_Api
begin

text \<open>
  The start and the end of a loop: \<^verbatim>\<open>UringioLoop_new\<close> and \<^verbatim>\<open>UringioLoop_init\<close>, the handler of signals, and the two ways to shut
  down. The results of the system calls and of the calls into the base class are the fields of \<open>sys_results\<close>.
\<close>

record sys_results =
  sy_base_init :: bool
  sy_base_close :: bool
  sy_pipe :: "int \<times> int"
  sy_signal_module :: bool
  sy_set_wakeup_fd :: bool
  sy_eventfd :: int
  sy_errno :: int
  sy_gettid :: int
  sy_addr :: "nat \<Rightarrow> u64"

section \<open>Signals\<close>

definition POLLIN :: u32 where "POLLIN = 1"

text \<open>
  The result of \<^verbatim>\<open>create_sqe\<close> is not tested; the SQE is filled in and not submitted. Its user data is the address of the
  block that holds the descriptor.
\<close>

definition set_signals_handler :: "liburing \<Rightarrow> sys_results \<Rightarrow> world \<Rightarrow> int \<times> world" where
  "set_signals_handler L Y w =
     (if \<not> sy_signal_module Y \<or> \<not> sy_set_wakeup_fd Y then (0, set_err CalleeError w)
      else
        case create_sqe L (w_ring w) of (q, r1) \<Rightarrow>
        (let w1 = (case q of
                     None \<Rightarrow> fault_at NullDeref (w\<lparr>w_ring := r1\<rparr>)
                   | Some sqe \<Rightarrow> w\<lparr>w_ring := with_sqe sqe (io_uring_prep L (Prep_poll_add (fst (sy_pipe Y)) POLLIN)) r1\<rparr>)
         in case c_malloc 4 (w_heap w1) of
              (None, h) \<Rightarrow> (0, set_err MemoryError (w1\<lparr>w_heap := h\<rparr>))
            | (Some b, h) \<Rightarrow>
                (1, w1\<lparr>w_heap := h, w_ring := (case q of None \<Rightarrow> w_ring w1
                      | Some sqe \<Rightarrow> with_sqe sqe (io_uring_sqe_set_data64 L (sy_addr Y b)) (w_ring w1))\<rparr>)))"

section \<open>Start\<close>

text \<open>\<open>size\<close> is the value of \<^verbatim>\<open>registry_size\<close>, passed on as an \<^verbatim>\<open>unsigned int\<close>. The object takes over the registry and an empty ring.\<close>

definition UringioLoop_new :: "int option \<Rightarrow> loop_state \<Rightarrow> nat option \<times> loop_state" where
  "UringioLoop_new args l =
     (case args of
        None \<Rightarrow> (None, lp_raise CalleeError l)
      | Some sz \<Rightarrow>
          (case registry_new (sz mod 2 ^ 32) (w_heap (lp_w l)) of
             (None, h) \<Rightarrow> (None, lp_raise MemoryError (on_c (on_h (\<lambda>_. h)) l))
           | (Some reg, h) \<Rightarrow>
               (case cs_new MemoryError (lp_c (on_c (on_h (\<lambda>_. h)) l)) of
                  (None, s) \<Rightarrow> (None, l\<lparr>lp_c := on_h (registry_destroy (w_pay (cs_w s)) (Some reg)) s\<rparr>)
                | (Some self, s) \<Rightarrow>
                    (case cs_malloc 216 s of
                       (None, s1) \<Rightarrow>
                         (None, l\<lparr>lp_c := on_h (py_decref self) (on_h (registry_destroy (w_pay (cs_w s1)) (Some reg)) s1)\<rparr>)
                     | (Some _, s1) \<Rightarrow>
                         (Some self, l\<lparr>lp_c := on_w (\<lambda>w. w\<lparr>w_reg := reg, w_ring := empty_ring\<rparr>) s1,
                                       lp_ring_null := False, lp_initialized := False\<rparr>)))))"

definition lp_on_w :: "(world \<Rightarrow> world) \<Rightarrow> loop_state \<Rightarrow> loop_state" where
  "lp_on_w f = on_c (on_w f)"

text \<open>The dictionaries of readers and writers are not tested.\<close>

definition new_dicts :: "loop_state \<Rightarrow> loop_state" where
  "new_dicts l =
     (let (a, s) = cs_new MemoryError (lp_c l); (b, s1) = cs_new MemoryError s
      in l\<lparr>lp_c := s1, lp_readers := a, lp_writers := b\<rparr>)"

definition UringioLoop_init :: "liburing \<Rightarrow> sys_results \<Rightarrow> loop_state \<Rightarrow> int \<times> loop_state" where
  "UringioLoop_init L Y l =
     (if \<not> sy_base_init Y then (- 1, lp_raise CalleeError l)
      else
        let (ret, r) = ring_init L (w_ring (lp_w l)); l1 = lp_on_w (\<lambda>w. w\<lparr>w_ring := r\<rparr>) l
        in if ret < 0 then (- 1, lp_raise (OSError (sy_errno Y)) l1)
           else
             let l2 = new_dicts (lp_on_w (\<lambda>w. snd (set_signals_handler L Y w)) l1);
                 l3 = lp_on_w (\<lambda>w. w\<lparr>w_wakeup_fd := sy_eventfd Y\<rparr>) l2
             in if sy_eventfd Y < 0 then (- 1, lp_raise (OSError (sy_errno Y)) l3)
                else
                  let (res, r) = ring_prep_wakeup_read L (w_ring (lp_w l3)) (sy_eventfd Y) (w_wakeup_buf (lp_w l3));
                      l4 = lp_on_w (\<lambda>w. w\<lparr>w_ring := r\<rparr>) l3
                  in if res < 0 then (- 1, lp_raise (RuntimeError ''Failed to register wakeup fd'') l4)
                     else
                       let (ok, s) = ContextVar_init (cs_w_update (\<lambda>w. w\<lparr>w_loop_tid := sy_gettid Y\<rparr>) (lp_c l4))
                       in if \<not> ok
                          then (- 1, lp_raise (RuntimeError ''Failed to register required contextvar'') (l4\<lparr>lp_c := s\<rparr>))
                          else (0, l4\<lparr>lp_c := s, lp_context_var := cs_var s, lp_initialized := True\<rparr>))"

section \<open>End\<close>

text \<open>
  \<^verbatim>\<open>graceful_shutdown\<close>: completions that arrive within 100 ms of the one before are taken; the future of each gets an
  exception and the request is removed, whether the slot has a future or not. \<open>None\<close>: still waiting when the fuel is used up.
\<close>

definition shutdown_cqe :: "completions \<Rightarrow> cqe \<Rightarrow> world \<Rightarrow> world" where
  "shutdown_cqe K c w =
     (if cqe_user_data c = WAKEUP_FD_TAG then cqe_seen K c w
      else
        let index = data_to_idx (cqe_user_data c)
        in case registry_get (w_reg w) index of
             None \<Rightarrow> cqe_seen K c w
           | Some slot \<Rightarrow>
               cqe_seen K c (remove_request index
                 (case sl_future slot of
                    None \<Rightarrow> w
                  | Some fu \<Rightarrow>
                      (case py_value PyNone w of
                         (None, w1) \<Rightarrow> w1
                       | (Some (ob, _), w1) \<Rightarrow>
                           on_heap (py_xdecref ob)
                             (let w2 = settle fu (Exception (RuntimeError ''Event loop is closed'')) w1
                              in if w_fut w1 fu = Pending then on_heap (py_xincref ob) w2 else w2)))))"

fun shutdown_loop :: "nat \<Rightarrow> loop_api \<Rightarrow> completions \<Rightarrow> world \<Rightarrow> world option" where
  "shutdown_loop 0 A K w = None"
| "shutdown_loop (Suc n) A K w =
     (case io_uring_wait_cqe_timeout A \<lparr>tv_sec = 0, tv_nsec = 100 * 1000 * 1000\<rparr> (w_ring w) of
        (None, r) \<Rightarrow> Some (w\<lparr>w_ring := r\<rparr>)
      | (Some c, r) \<Rightarrow> shutdown_loop n A K (shutdown_cqe K c (w\<lparr>w_ring := r\<rparr>)))"

definition destroy_registry :: "world \<Rightarrow> world" where
  "destroy_registry w = on_heap (registry_destroy (w_pay w) (Some (w_reg w))) w"

definition destroy_ring :: "liburing \<Rightarrow> world \<Rightarrow> world" where
  "destroy_ring L w = w\<lparr>w_ring := the (ring_destroy L (Some (w_ring w)))\<rparr>"

definition fast_shutdown :: "liburing \<Rightarrow> cstate \<Rightarrow> cstate" where
  "fast_shutdown L s = on_w destroy_registry (on_w (destroy_ring L) s)"

definition graceful_shutdown :: "nat \<Rightarrow> loop_api \<Rightarrow> liburing \<Rightarrow> completions \<Rightarrow> cstate \<Rightarrow> cstate option" where
  "graceful_shutdown fuel A L K s =
     (case shutdown_loop fuel A K (cs_w s) of
        None \<Rightarrow> None
      | Some w \<Rightarrow>
          (let s1 = on_w destroy_registry (s\<lparr>cs_w := w\<rparr>);
               (token, s2) = ContextVar_set Py_None s1;
               s3 = (case token of Some t \<Rightarrow> tok_decref t s2 | None \<Rightarrow> on_w (\<lambda>w. w\<lparr>w_err := None\<rparr>) s2)
           in Some (on_w (destroy_ring L) s3)))"

text \<open>\<^verbatim>\<open>Py_CLEAR\<close> of the fields of the loop, in the order of \<^verbatim>\<open>close\<close> and in that of \<^verbatim>\<open>tp_clear\<close>.\<close>

definition clear_fields :: "loop_state \<Rightarrow> loop_state" where
  "clear_fields l =
     on_c (on_h (py_xdecref (lp_writers l))) (on_c (on_h (py_xdecref (lp_readers l)))
       (on_c (on_h (py_xdecref (lp_context_var l))) (l\<lparr>lp_readers := None, lp_writers := None, lp_context_var := None\<rparr>)))"

definition UringioLoop_clear :: "loop_state \<Rightarrow> loop_state" where
  "UringioLoop_clear l =
     on_c (on_h (py_xdecref (lp_context_var l))) (on_c (on_h (py_xdecref (lp_writers l)))
       (on_c (on_h (py_xdecref (lp_readers l))) (l\<lparr>lp_readers := None, lp_writers := None, lp_context_var := None\<rparr>)))"

definition close_wakeup :: "loop_state \<Rightarrow> loop_state" where
  "close_wakeup l = (if 0 \<le> w_wakeup_fd (lp_w l) then lp_on_w (\<lambda>w. w\<lparr>w_wakeup_fd := - 1\<rparr>) l else l)"

definition UringioLoop_dealloc :: "nat \<Rightarrow> loop_api \<Rightarrow> liburing \<Rightarrow> completions \<Rightarrow> loop_state \<Rightarrow> loop_state option" where
  "UringioLoop_dealloc fuel A L K l =
     (let l1 = close_wakeup (UringioLoop_clear l)
      in if lp_ring_null l1 then Some l1
         else map_option (\<lambda>s. l1\<lparr>lp_c := s, lp_ring_null := True\<rparr>) (graceful_shutdown fuel A L K (lp_c l1)))"

definition UringioLoop_close ::
  "nat \<Rightarrow> loop_api \<Rightarrow> liburing \<Rightarrow> completions \<Rightarrow> sys_results \<Rightarrow> loop_state \<Rightarrow> (bool \<times> loop_state) option" where
  "UringioLoop_close fuel A L K Y l =
     (case ASSERT_LOOP_THREAD (lp_w l) of
        Some e \<Rightarrow> Some (False, lp_raise e l)
      | None \<Rightarrow>
          if lp_ring_null l then Some (True, l)
          else if \<not> sy_base_close Y then Some (False, lp_raise CalleeError l)
          else
            let l1 = lp_on_w (\<lambda>w. w\<lparr>w_closed := True\<rparr>) l
            in map_option (\<lambda>s. (True, clear_fields (close_wakeup (l1\<lparr>lp_c := s, lp_ring_null := True\<rparr>))))
                 (graceful_shutdown fuel A L K (lp_c l1)))"

section \<open>A loop that has been started\<close>

lemma ContextVar_init_ready:
  assumes "cs_var s = None" and "cs_value s = Unset" and "\<And>k. \<not> h_oom (cs_heap s) k" and "heap_wf (cs_heap s)"
  shows "fst (ContextVar_init s)" and "ready (snd (ContextVar_init s))"
    and "w_context (cs_w (snd (ContextVar_init s))) = Some default_context"
    and "w_reg (cs_w (snd (ContextVar_init s))) = w_reg (cs_w s)" and "w_ring (cs_w (snd (ContextVar_init s))) = w_ring (cs_w s)"
    and "w_aborted (cs_w (snd (ContextVar_init s))) = w_aborted (cs_w s)"
    and "h_faults (cs_heap (snd (ContextVar_init s))) = h_faults (cs_heap s)"
    and "cs_var (snd (ContextVar_init s)) \<noteq> None" and "w_loop_tid (cs_w (snd (ContextVar_init s))) = w_loop_tid (cs_w s)"
proof -
  define n where "n = h_next (cs_heap s)"
  have num: "k + 3 = Suc (Suc (Suc k))" "k + 4 = Suc (Suc (Suc (Suc k)))" "k + 5 = Suc (Suc (Suc (Suc (Suc k))))"
    "k + 6 = Suc (Suc (Suc (Suc (Suc (Suc k)))))" for k :: nat by simp_all
  have e: "ContextVar_init s = (True, s
     \<lparr>cs_w := (cs_w s)\<lparr>w_heap := (cs_heap s)\<lparr>h_next := n + 6, h_live := insert (n + 3) (h_live (cs_heap s)),
                         h_ref := h_ref (cs_heap (snd (ContextVar_init s)))\<rparr>,
                         w_context := Some default_context\<rparr>,
      cs_var := Some (n + 2), cs_value := Capsule (n + 4), cs_block := (cs_block s)(n + 4 := n + 3),
      cs_ctx := (cs_ctx s)(n + 3 := default_context),
      cs_tok := (cs_tok s)(n + 5 := \<lparr>tk_old = Unset, tk_used = False\<rparr>)\<rparr>)"
    and r: "h_ref (cs_heap (snd (ContextVar_init s))) (n + 4) = 1"
    using assms by (simp_all add: ctx_eval ctx_defs n_def num)
  show "fst (ContextVar_init s)" by (subst e) simp
  show "w_context (cs_w (snd (ContextVar_init s))) = Some default_context" by (subst e) simp
  show "w_reg (cs_w (snd (ContextVar_init s))) = w_reg (cs_w s)" by (subst e) simp
  show "w_ring (cs_w (snd (ContextVar_init s))) = w_ring (cs_w s)" by (subst e) simp
  show "w_aborted (cs_w (snd (ContextVar_init s))) = w_aborted (cs_w s)" by (subst e) simp
  show "h_faults (cs_heap (snd (ContextVar_init s))) = h_faults (cs_heap s)" by (subst e) simp
  show "cs_var (snd (ContextVar_init s)) \<noteq> None" by (subst e) simp
  show "w_loop_tid (cs_w (snd (ContextVar_init s))) = w_loop_tid (cs_w s)" by (subst e) simp
  have wf: "heap_wf ((cs_heap s)\<lparr>h_next := n + 6, h_live := insert (n + 3) (h_live (cs_heap s)), h_ref := f\<rparr>)" for f
    using assms(4) by (auto simp: heap_wf_def n_def trans_less_add1)
  show "ready (snd (ContextVar_init s))"
    using assms(3) wf r by (subst e) (simp add: ready_def current_context_def)
qed

end
