(* ===== verification/System_Run.thy ===== *)
theory System_Run
  imports Loop_Lifecycle
begin

text \<open>
  The composition: a running loop is a sequence of calls of the methods of the extension, of completions that the reader
  handles, and of steps of everything else, which may change what it likes but the registry and the memory discipline
  (the kernel fills buffers and queues completions, Python code cancels futures). The properties are about every such
  sequence.
\<close>

datatype call =
    Call_file nat file_call
  | Call_open bool "(string option option \<times> int \<times> int \<times> int \<times> int \<times> pyobj option) option"
  | Call_sock nat socket_call
  | Call_socket bool "(int \<times> int \<times> pyobj option) option"
  | Call_timer "pyobj option option"
  | Call_file_exit nat "pyexc option option"
  | Call_sock_exit nat "pyexc option option"

fun perform ::
  "(int \<Rightarrow> string \<Rightarrow> u8 list option) \<Rightarrow> liburing \<Rightarrow> call \<Rightarrow> world \<Rightarrow> nat option \<times> world" where
  "perform pton L (Call_file self c) w = file_method c L self w"
| "perform pton L (Call_open running a) w = Uringio_open L running a w"
| "perform pton L (Call_sock self c) w = socket_method c pton L self w"
| "perform pton L (Call_socket running a) w = Uringio_prep_socket L running a w"
| "perform pton L (Call_timer a) w = UringioLoop_timer L a w"
| "perform pton L (Call_file_exit self a) w = UringioFile_aexit L self a w"
| "perform pton L (Call_sock_exit self a) w = UringioSocket_aexit L self a w"

fun call_opcode :: "call \<Rightarrow> int" where
  "call_opcode (Call_file _ c) = file_opcode c"
| "call_opcode (Call_open _ _) = IORING_OP_OPENAT2"
| "call_opcode (Call_sock _ c) = socket_opcode c"
| "call_opcode (Call_socket _ _) = IORING_OP_SOCKET"
| "call_opcode (Call_timer _) = IORING_OP_TIMEOUT"
| "call_opcode (Call_file_exit _ _) = IORING_OP_CLOSE"
| "call_opcode (Call_sock_exit _ _) = IORING_OP_CLOSE"

lemma perform_starts:
  "liburing_ok L \<Longrightarrow> reg_inv (w_reg w) \<Longrightarrow> starts_request w (call_opcode c) (fst (perform pton L c w)) (snd (perform pton L c w))"
  by (cases c) (simp_all add: file_methods_ok open_ok socket_methods_ok prep_socket_ok timer_ok file_aexit_starts socket_aexit_starts)

section \<open>Runs\<close>

datatype event = Called call "nat option" | Completed cqe | Other

inductive run_step :: "(int \<Rightarrow> string \<Rightarrow> u8 list option) \<Rightarrow> liburing \<Rightarrow> completions \<Rightarrow> world \<Rightarrow> event \<Rightarrow> world \<Rightarrow> bool"
  for pton L K where
  call: "perform pton L c w = (q, w') \<Longrightarrow> run_step pton L K w (Called c q) w'"
| complete: "no_oom w \<Longrightarrow> run_step pton L K w (Completed c) (handle_cqe L K c w)"
| other: "w_reg w' = w_reg w \<Longrightarrow> w_aborted w' = w_aborted w \<Longrightarrow> run_step pton L K w Other w'"

inductive run :: "(int \<Rightarrow> string \<Rightarrow> u8 list option) \<Rightarrow> liburing \<Rightarrow> completions \<Rightarrow> world \<Rightarrow> event list \<Rightarrow> world \<Rightarrow> bool"
  for pton L K w where
  start: "run pton L K w [] w"
| step: "run pton L K w es w1 \<Longrightarrow> run_step pton L K w1 e w2 \<Longrightarrow> run pton L K w (es @ [e]) w2"

text \<open>The requests in flight after an event, as the registry should have them.\<close>

definition event_ok :: "world \<Rightarrow> event \<Rightarrow> world \<Rightarrow> bool" where
  "event_ok w e w' \<longleftrightarrow>
     (case e of
        Called c None \<Rightarrow> reg_abs (w_reg w') = reg_abs (w_reg w)
      | Called c (Some fu) \<Rightarrow>
          (\<exists>i s. reg_abs (w_reg w) i = None \<and> reg_abs (w_reg w') = (reg_abs (w_reg w))(i \<mapsto> s) \<and>
             sl_future s = Some fu \<and> sl_opcode s = call_opcode c)
      | Completed c \<Rightarrow> reg_abs (w_reg w') = (reg_abs (w_reg w))(cqe_idx c := None)
      | Other \<Rightarrow> reg_abs (w_reg w') = reg_abs (w_reg w))"

lemma run_step_ok:
  assumes L: "liburing_ok L" "quiet L" and K: "completions_ok K" and inv: "reg_inv (w_reg w)" and st: "run_step pton L K w e w'"
  shows "reg_inv (w_reg w') \<and> w_aborted w' = w_aborted w \<and> event_ok w e w'"
  using st
proof (cases rule: run_step.cases)
  case (call c q)
  have "starts_request w (call_opcode c) q w'" using perform_starts [OF L(1) inv, of c pton] call(2) by simp
  then show ?thesis unfolding starts_request_def event_ok_def call(1) by (cases q) auto
next
  case (complete c)
  then show ?thesis using handle_cqe_step(1,4,5) [OF K L(2) inv complete(3), of c] by (simp add: event_ok_def cqe_idx_def)
next
  case other
  then show ?thesis using inv by (simp add: event_ok_def)
qed

text \<open>Two facts of one event: what it keeps, and where what is new comes from.\<close>

lemma event_keeps:
  "event_ok w e w' \<Longrightarrow> reg_abs (w_reg w) i = Some s \<Longrightarrow> (\<And>c. e = Completed c \<Longrightarrow> cqe_idx c \<noteq> i) \<Longrightarrow> reg_abs (w_reg w') i = Some s"
  by (auto simp: event_ok_def split: event.splits option.splits)

lemma event_origin:
  assumes "event_ok w e w'" and "reg_abs (w_reg w') i = Some s"
  shows "reg_abs (w_reg w) i = Some s \<or> (\<exists>c fu. e = Called c (Some fu) \<and> sl_future s = Some fu \<and> sl_opcode s = call_opcode c)"
  using assms by (auto simp: event_ok_def split: event.splits option.splits if_splits)

lemma run_ok:
  assumes L: "liburing_ok L" "quiet L" and K: "completions_ok K" and inv: "reg_inv (w_reg w)" and r: "run pton L K w es w'"
  shows "reg_inv (w_reg w') \<and> w_aborted w' = w_aborted w \<and>
    (\<forall>i s. reg_abs (w_reg w) i = Some s \<longrightarrow> (\<forall>c. Completed c \<in> set es \<longrightarrow> cqe_idx c \<noteq> i) \<longrightarrow> reg_abs (w_reg w') i = Some s) \<and>
    (\<forall>i s. reg_abs (w_reg w') i = Some s \<longrightarrow> reg_abs (w_reg w) i = Some s \<or>
       (\<exists>c fu. Called c (Some fu) \<in> set es \<and> sl_future s = Some fu \<and> sl_opcode s = call_opcode c))"
  using r
proof (induction rule: run.induct)
  case start
  then show ?case using inv by simp
next
  case (step es w1 e w2)
  have st: "reg_inv (w_reg w2)" "w_aborted w2 = w_aborted w1" "event_ok w1 e w2"
    using run_step_ok [OF L K _ step.hyps(2)] step.IH by auto
  have "reg_abs (w_reg w2) i = Some s" if "reg_abs (w_reg w) i = Some s" "\<forall>c. Completed c \<in> set (es @ [e]) \<longrightarrow> cqe_idx c \<noteq> i" for i s
    using event_keeps [OF st(3), of i s] step.IH that by auto
  moreover have "reg_abs (w_reg w) i = Some s \<or>
      (\<exists>c fu. Called c (Some fu) \<in> set (es @ [e]) \<and> sl_future s = Some fu \<and> sl_opcode s = call_opcode c)"
    if "reg_abs (w_reg w2) i = Some s" for i s
    using event_origin [OF st(3) that] step.IH by (metis in_set_conv_decomp Un_iff set_append list.set_intros(1))
  ultimately show ?case using st(1,2) step.IH by simp
qed

section \<open>A run to evaluate\<close>

text \<open>A loop that was just started creates a timer.\<close>

definition timer_world :: world where
  "timer_world = snd (perform (\<lambda>_ _. None) (lib_model 256 False) (Call_timer (Some None)) init_world)"

lemma timer_world_call:
  "perform (\<lambda>_ _. None) (lib_model 256 False) (Call_timer (Some None)) init_world = (Some 0, timer_world)"
  and timer_world_fut: "w_fut timer_world 0 = Pending" and timer_world_oom: "no_oom timer_world"
proof -
  have "fst (perform (\<lambda>_ _. None) (lib_model 256 False) (Call_timer (Some None)) init_world) = Some 0"
    and f: "w_fut timer_world 0 = Pending" "no_oom timer_world"
    by (simp_all add: timer_world_def UringioLoop_timer_def loop_guard_def ASSERT_LOOP_THREAD_def ASSERT_RING_LOOP_IS_CLOSING_def
        init_world_def get_stream_strategy_def raise_opt_def create_future_def py_new_def submit_request_def
        register_request_def registry_add_def reg3_def ring_op_def timer_def create_sqe_def no_oom_def py_incref_def
        set_data_and_submit_def init_heap_def empty_ring_def Let_def)
  then show "perform (\<lambda>_ _. None) (lib_model 256 False) (Call_timer (Some None)) init_world = (Some 0, timer_world)"
    by (simp add: timer_world_def prod_eq_iff)
  show "w_fut timer_world 0 = Pending" "no_oom timer_world" using f .
qed

lemma init_world_inv [simp]: "reg_inv (w_reg init_world)"
  by (simp add: init_world_def)

lemma timer_run:
  "run (\<lambda>_ _. None) (lib_model 256 False) cq_model init_world [Called (Call_timer (Some None)) (Some 0)] timer_world"
  using run.step [OF run.start run_step.call [OF timer_world_call]] by simp

text \<open>
  C1. However calls, completions and everything else interleave, the registry keeps its invariant and never aborts; a request
  in flight stays in its slot, unchanged, until a completion with its index is handled; and every request in
  flight was there at the start or was started by a call that returned its future, with the opcode of that call.
\<close>

theorem run_invariant:
  assumes L: "liburing_ok L" "quiet L" and K: "completions_ok K" and inv: "reg_inv (w_reg w)" and r: "run pton L K w es w'"
  shows "reg_inv (w_reg w') \<and> w_aborted w' = w_aborted w \<and>
    (\<forall>i s. reg_abs (w_reg w) i = Some s \<longrightarrow> (\<forall>c. Completed c \<in> set es \<longrightarrow> cqe_idx c \<noteq> i) \<longrightarrow> reg_abs (w_reg w') i = Some s) \<and>
    (\<forall>i s. reg_abs (w_reg w') i = Some s \<longrightarrow> reg_abs (w_reg w) i = Some s \<or>
       (\<exists>c fu. Called c (Some fu) \<in> set es \<and> sl_future s = Some fu \<and> sl_opcode s = call_opcode c))"
  by (rule run_ok [OF L K inv r])

theorem run_invariant_witness:
  "reg_inv (w_reg timer_world) \<and> \<not> w_aborted timer_world \<and>
   ran (reg_abs (w_reg timer_world)) \<subseteq> ran (reg_abs (w_reg init_world)) \<union> {s. sl_opcode s = IORING_OP_TIMEOUT}"
  using run_invariant [OF lib_model_ok lib_model_quiet cq_model_ok init_world_inv timer_run]
  by (fastforce simp: init_world_def ran_def)



end
