(* ===== verification/Loop_Start_End.thy ===== *)
theory Loop_Start_End
  imports Loop_Lifecycle
begin

text \<open>
  What the start and the end of a loop promise: a loop that has been made and initialised is in the state the properties
  of the running loop start from, and the shutdown of a loop returns, with an exception for every future whose operation
  completed meanwhile.
\<close>

section \<open>Start\<close>

text \<open>Memory in which what is allocated lies below the next number, and in which no allocation fails.\<close>

definition mem_ok :: "heap \<Rightarrow> bool" where
  "mem_ok h \<longleftrightarrow> heap_wf h \<and> (\<forall>k. \<not> h_oom h k)"

lemma mem_ok_steps [simp]:
  "mem_ok h \<Longrightarrow> mem_ok (snd (c_malloc n h))" "mem_ok (w_heap w) \<Longrightarrow> mem_ok (w_heap (snd (py_new e w)))"
  by (auto simp: mem_ok_def heap_wf_def c_malloc_def py_new_def less_Suc_eq Let_def)

lemma mem_ok_free [simp]: "mem_ok h \<Longrightarrow> mem_ok (c_free p h)"
  by (simp add: mem_ok_def)

lemma mem_ok_malloc: "c_malloc n h = (q, h') \<Longrightarrow> mem_ok h \<Longrightarrow> mem_ok h'"
  using mem_ok_steps(1) [of h n] by simp

lemma mem_ok_registry_new: "registry_new n h = (q, h') \<Longrightarrow> mem_ok h \<Longrightarrow> mem_ok h'"
  by (auto simp: registry_new_def Let_def simp del: c_free.simps split: prod.splits option.splits
      dest!: mem_ok_malloc)

lemma mem_ok_signals: "mem_ok (w_heap w) \<Longrightarrow> mem_ok (w_heap (snd (set_signals_handler L Y w)))"
  by (auto simp: set_signals_handler_def create_sqe_def set_err_def fault_at_def Let_def mem_ok_def heap_wf_def c_malloc_def less_Suc_eq
      split: prod.split option.split if_splits)

lemma signals_frame:
  "w_reg (snd (set_signals_handler L Y w)) = w_reg w" "w_aborted (snd (set_signals_handler L Y w)) = w_aborted w"
  "w_wakeup_buf (snd (set_signals_handler L Y w)) = w_wakeup_buf w"
  by (auto simp: set_signals_handler_def set_err_def fault_at_def Let_def split: prod.split option.split)

lemma UringioLoop_new_ok:
  assumes n: "UringioLoop_new (Some sz) l = (Some self, l1)" and m: "mem_ok (w_heap (lp_w l))" and sz: "0 \<le> sz" "sz < 2 ^ 31"
  shows "reg_inv (w_reg (lp_w l1)) \<and> reg_abs (w_reg (lp_w l1)) = Map.empty \<and>
    rr_size (w_reg (lp_w l1)) = (if sz = 0 then DEFAULT_REGISTRY_SIZE else sz) \<and>
    w_ring (lp_w l1) = empty_ring \<and> mem_ok (w_heap (lp_w l1)) \<and> cs_var (lp_c l1) = cs_var (lp_c l) \<and>
    cs_value (lp_c l1) = cs_value (lp_c l) \<and> w_wakeup_buf (lp_w l1) = w_wakeup_buf (lp_w l) \<and> \<not> lp_initialized l1"
proof -
  have "sz mod 2 ^ 32 = sz" using sz by simp
  then obtain reg h where r: "registry_new sz (w_heap (lp_w l)) = (Some reg, h)"
    using n by (auto simp: UringioLoop_new_def split: prod.splits option.splits)
  have h: "mem_ok h" using mem_ok_registry_new [OF r m] .
  obtain self' s where a: "cs_new MemoryError (lp_c (on_c (on_h (\<lambda>_. h)) l)) = (Some self', s)"
    using n r \<open>sz mod 2 ^ 32 = sz\<close> by (auto simp: UringioLoop_new_def split: prod.splits option.splits)
  obtain b s1 where c: "cs_malloc 216 s = (Some b, s1)"
    using n r a \<open>sz mod 2 ^ 32 = sz\<close> by (auto simp: UringioLoop_new_def split: prod.splits option.splits)
  have l1: "l1 = l\<lparr>lp_c := on_w (\<lambda>w. w\<lparr>w_reg := reg, w_ring := empty_ring\<rparr>) s1, lp_ring_null := False, lp_initialized := False\<rparr>"
    using n r a c \<open>sz mod 2 ^ 32 = sz\<close> by (simp add: UringioLoop_new_def)
  have s: "mem_ok (cs_heap s)" "cs_var s = cs_var (lp_c l)" "cs_value s = cs_value (lp_c l)" "w_wakeup_buf (cs_w s) = w_wakeup_buf (lp_w l)"
    using a h by (auto simp: cs_new_def py_new_def on_c_def on_h_def on_w_def on_heap_def mem_ok_def heap_wf_def less_Suc_eq Let_def)
  have "mem_ok (cs_heap s1)" "cs_var s1 = cs_var s" "cs_value s1 = cs_value s" "w_wakeup_buf (cs_w s1) = w_wakeup_buf (cs_w s)"
    using c s(1) by (auto simp: cs_malloc_def c_malloc_def on_h_def on_w_def on_heap_def mem_ok_def heap_wf_def less_Suc_eq split: if_splits)
  with s show ?thesis using registry_new_inv [OF r sz] by (simp add: l1 on_w_def)
qed

lemma wakeup_read_issued:
  assumes L: "liburing_ok L" and p: "ring_prep_wakeup_read L r fd buf = (res, r')" and ok: "0 \<le> res"
  shows "\<exists>own. issued r' = issued r @ [own] \<and> sqe_prep own = Some (Prep_read fd (Addr buf) 8 0) \<and> sqe_user_data own = WAKEUP_FD_TAG"
proof -
  obtain q r1 where g: "io_uring_get_sqe L r = (q, r1)" by force
  with p ok obtain i where q: "q = Some i" by (cases q) (auto simp: ring_prep_wakeup_read_def)
  obtain s where s: "i = length (r_pending r)" "r_submitted r1 = r_submitted r" "r_pending r1 = r_pending r @ [s]"
    using get_sqe_SomeD [OF L g [unfolded q]] by blast
  define c where "c = io_uring_prep L (Prep_read fd (Addr buf) 8 0) s"
  define r3 where "r3 = with_sqe i (io_uring_sqe_set_data64 L WAKEUP_FD_TAG) (with_sqe i (io_uring_prep L (Prep_read fd (Addr buf) 8 0)) r1)"
  obtain n r4 where sub: "io_uring_submit L r3 = (n, r4)" by force
  have r': "r' = r4" using p g q sub by (auto simp: ring_prep_wakeup_read_def r3_def Let_def)
  have "issued r3 = issued r @ [c\<lparr>sqe_user_data := WAKEUP_FD_TAG\<rparr>]"
    using L s by (simp add: r3_def issued_def with_sqe_def c_def)
  then have "issued r' = issued r @ [c\<lparr>sqe_user_data := WAKEUP_FD_TAG\<rparr>]" using submit_issued [OF L sub] r' by simp
  moreover have "sqe_prep c = Some (Prep_read fd (Addr buf) 8 0)" using L by (simp add: c_def)
  ultimately show ?thesis by simp
qed

lemma new_dicts_frame:
  "cs_var (lp_c (new_dicts l)) = cs_var (lp_c l)" "cs_value (lp_c (new_dicts l)) = cs_value (lp_c l)"
  "w_reg (lp_w (new_dicts l)) = w_reg (lp_w l)" "w_ring (lp_w (new_dicts l)) = w_ring (lp_w l)"
  "w_wakeup_buf (lp_w (new_dicts l)) = w_wakeup_buf (lp_w l)"
  by (simp_all add: new_dicts_def cs_new_def py_new_def set_err_def Let_def split: prod.split)

lemma new_dicts_mem: "mem_ok (w_heap (lp_w l)) \<Longrightarrow> mem_ok (w_heap (lp_w (new_dicts l)))"
  by (auto simp: new_dicts_def cs_new_def Let_def split: prod.split dest!: arg_cong [where f = snd] intro!: mem_ok_steps(2))

text \<open>What a successful \<^verbatim>\<open>__init__\<close> has done: the state before the variable is made.\<close>

lemma UringioLoop_init_steps:
  assumes L: "liburing_ok L" and i: "UringioLoop_init L Y l = (0, l')" and m: "mem_ok (w_heap (lp_w l))"
  obtains s where "mem_ok (cs_heap s)" and "cs_var s = cs_var (lp_c l)" and "cs_value s = cs_value (lp_c l)"
    and "w_reg (cs_w s) = w_reg (lp_w l)" and "w_loop_tid (cs_w s) = sy_gettid Y"
    and "\<exists>before own. issued (w_ring (cs_w s)) = before @ [own] \<and> sqe_user_data own = WAKEUP_FD_TAG \<and>
      sqe_prep own = Some (Prep_read (sy_eventfd Y) (Addr (w_wakeup_buf (lp_w l))) 8 0)"
    and "lp_c l' = snd (ContextVar_init s)" and "lp_context_var l' = cs_var (lp_c l')" and "lp_initialized l'"
proof -
  obtain ret r where ri: "ring_init L (w_ring (lp_w l)) = (ret, r)" by force
  define l1 where "l1 = lp_on_w (\<lambda>w. w\<lparr>w_ring := r\<rparr>) l"
  define l3 where "l3 = lp_on_w (\<lambda>w. w\<lparr>w_wakeup_fd := sy_eventfd Y\<rparr>) (new_dicts (lp_on_w (\<lambda>w. snd (set_signals_handler L Y w)) l1))"
  obtain res r3 where rp: "ring_prep_wakeup_read L (w_ring (lp_w l3)) (sy_eventfd Y) (w_wakeup_buf (lp_w l3)) = (res, r3)" by force
  define l4 where "l4 = lp_on_w (\<lambda>w. w\<lparr>w_ring := r3\<rparr>) l3"
  define s where "s = cs_w_update (\<lambda>w. w\<lparr>w_loop_tid := sy_gettid Y\<rparr>) (lp_c l4)"
  note i' = i [unfolded UringioLoop_init_def ri rp [unfolded l3_def l1_def] Let_def prod.case, folded l1_def, folded l3_def]
  have res: "0 \<le> res" and l': "l' = l4\<lparr>lp_c := snd (ContextVar_init s), lp_context_var := cs_var (snd (ContextVar_init s)), lp_initialized := True\<rparr>"
    using i' rp unfolding l4_def [symmetric] s_def [symmetric] by (auto simp: rp l4_def s_def split: if_splits prod.splits)
  have l3: "cs_var (lp_c l3) = cs_var (lp_c l)" "cs_value (lp_c l3) = cs_value (lp_c l)" "w_reg (lp_w l3) = w_reg (lp_w l)"
      "w_wakeup_buf (lp_w l3) = w_wakeup_buf (lp_w l)" "mem_ok (w_heap (lp_w l3))"
    using m by (simp_all add: l3_def l1_def lp_on_w_def on_c_def on_w_def new_dicts_frame signals_frame new_dicts_mem mem_ok_signals)
  show thesis
  proof (rule that [of s])
    show "\<exists>before own. issued (w_ring (cs_w s)) = before @ [own] \<and> sqe_user_data own = WAKEUP_FD_TAG \<and>
        sqe_prep own = Some (Prep_read (sy_eventfd Y) (Addr (w_wakeup_buf (lp_w l))) 8 0)"
      using wakeup_read_issued [OF L rp res] l3(4) by (auto simp: s_def l4_def lp_on_w_def on_c_def on_w_def)
  qed (simp_all add: l' l3 s_def l4_def lp_on_w_def on_c_def on_w_def)
qed

lemma started_loop:
  assumes "liburing_ok L" and "mem_ok (w_heap (lp_w l))" and "cs_var (lp_c l) = None" and "cs_value (lp_c l) = Unset"
    and "0 \<le> sz" and "sz < 2 ^ 31"
    and "UringioLoop_new (Some sz) l = (Some self, l1)" and "UringioLoop_init L Y l1 = (0, l2)"
  shows "reg_inv (w_reg (lp_w l2)) \<and> reg_abs (w_reg (lp_w l2)) = Map.empty \<and>
    rr_size (w_reg (lp_w l2)) = (if sz = 0 then DEFAULT_REGISTRY_SIZE else sz) \<and>
    ready (lp_c l2) \<and> w_context (lp_w l2) = Some default_context \<and> lp_context_var l2 \<noteq> None \<and>
    lp_initialized l2 \<and> w_loop_tid (lp_w l2) = sy_gettid Y \<and>
    (\<exists>before own. issued (w_ring (lp_w l2)) = before @ [own] \<and> sqe_user_data own = WAKEUP_FD_TAG \<and>
       sqe_prep own = Some (Prep_read (sy_eventfd Y) (Addr (w_wakeup_buf (lp_w l))) 8 0))"
proof -
  note new = UringioLoop_new_ok [OF assms(7,2,5,6)]
  obtain s where s: "mem_ok (cs_heap s)" "cs_var s = None" "cs_value s = Unset" "w_reg (cs_w s) = w_reg (lp_w l1)"
      "w_loop_tid (cs_w s) = sy_gettid Y"
      "\<exists>before own. issued (w_ring (cs_w s)) = before @ [own] \<and> sqe_user_data own = WAKEUP_FD_TAG \<and>
        sqe_prep own = Some (Prep_read (sy_eventfd Y) (Addr (w_wakeup_buf (lp_w l))) 8 0)"
      "lp_c l2 = snd (ContextVar_init s)" "lp_context_var l2 = cs_var (lp_c l2)" "lp_initialized l2"
    using UringioLoop_init_steps [OF assms(1,8)] new assms(3,4) by metis
  have "\<And>k. \<not> h_oom (cs_heap s) k" "heap_wf (cs_heap s)" using s(1) by (auto simp: mem_ok_def)
  note c = ContextVar_init_ready [OF s(2,3) this]
  show ?thesis using new s(4-9) c by simp
qed

text \<open>
  C8. A loop that was made and initialised without an error has an empty registry of the size that was asked for (the
  default size for zero) that satisfies its invariant, a current execution context that holds the defaults, the
  thread it runs on, and the read of its wake-up descriptor as the last entry it queued.
\<close>

theorem loop_starts:
  assumes "liburing_ok L" and "mem_ok (w_heap (lp_w l))" and "cs_var (lp_c l) = None" and "cs_value (lp_c l) = Unset"
    and "0 \<le> sz" and "sz < 2 ^ 31"
    and "UringioLoop_new (Some sz) l = (Some self, l1)" and "UringioLoop_init L Y l1 = (0, l2)"
  shows "reg_inv (w_reg (lp_w l2)) \<and> reg_abs (w_reg (lp_w l2)) = Map.empty \<and>
    rr_size (w_reg (lp_w l2)) = (if sz = 0 then DEFAULT_REGISTRY_SIZE else sz) \<and>
    ready (lp_c l2) \<and> w_context (lp_w l2) = Some default_context \<and> lp_context_var l2 \<noteq> None \<and>
    lp_initialized l2 \<and> w_loop_tid (lp_w l2) = sy_gettid Y \<and>
    (\<exists>before own. issued (w_ring (lp_w l2)) = before @ [own] \<and> sqe_user_data own = WAKEUP_FD_TAG \<and>
       sqe_prep own = Some (Prep_read (sy_eventfd Y) (Addr (w_wakeup_buf (lp_w l))) 8 0))"
  by (rule started_loop [OF assms])

text \<open>A system in which every call succeeds, and a loop to be made on a fresh heap.\<close>

definition sys_model :: sys_results where
  "sys_model =
     \<lparr>sy_base_init = True, sy_base_close = True, sy_pipe = (5, 6), sy_signal_module = True, sy_set_wakeup_fd = True,
      sy_eventfd = 7, sy_errno = 0, sy_gettid = 1, sy_addr = (\<lambda>_. 0)\<rparr>"

lemma sys_model_simps [simp]:
  "sy_base_init sys_model" "sy_base_close sys_model" "sy_pipe sys_model = (5, 6)" "sy_signal_module sys_model"
  "sy_set_wakeup_fd sys_model" "sy_eventfd sys_model = 7" "sy_gettid sys_model = 1"
  by (simp_all add: sys_model_def)

definition blank_loop :: loop_state where
  "blank_loop = demo_loop\<lparr>lp_c := cs_demo\<lparr>cs_w := init_world, cs_var := None, cs_value := Unset\<rparr>\<rparr>"

lemma blank_loop_simps [simp]:
  "lp_w blank_loop = init_world" "cs_var (lp_c blank_loop) = None" "cs_value (lp_c blank_loop) = Unset"
  by (simp_all add: blank_loop_def)

lemma blank_loop_new: "\<exists>self l1. UringioLoop_new (Some 3) blank_loop = (Some self, l1)"
  using registry_new_3
  by (simp add: UringioLoop_new_def cs_new_def py_new_def cs_malloc_def c_malloc_def alloc_max_def on_c_def on_h_def on_w_def on_heap_def
      init_world_def init_heap_def Let_def)

lemma model_init:
  assumes "w_ring (lp_w l) = empty_ring" and m: "mem_ok (w_heap (lp_w l))" and v: "cs_var (lp_c l) = None" "cs_value (lp_c l) = Unset"
  shows "fst (UringioLoop_init (lib_model 256 False) sys_model l) = 0"
proof -
  let ?L = "lib_model 256 False"
  define l1 where "l1 = lp_on_w (\<lambda>w. w\<lparr>w_ring := empty_ring\<rparr>) l"
  define l2 where "l2 = new_dicts (lp_on_w (\<lambda>w. snd (set_signals_handler ?L sys_model w)) l1)"
  define l3 where "l3 = lp_on_w (\<lambda>w. w\<lparr>w_wakeup_fd := 7\<rparr>) l2"
  have ri: "ring_init ?L (w_ring (lp_w l)) = (0, empty_ring)" using assms(1) by (simp add: ring_init_def)
  have "length (r_pending (w_ring (lp_w l3))) = 1"
    by (simp add: l3_def l2_def l1_def lp_on_w_def on_c_def on_w_def new_dicts_frame set_signals_handler_def
        create_sqe_def with_sqe_def empty_ring_def set_err_def Let_def split: option.split prod.split)
  then obtain r3 where rp: "ring_prep_wakeup_read ?L (w_ring (lp_w l3)) 7 (w_wakeup_buf (lp_w l3)) = (0, r3)"
    by (simp add: ring_prep_wakeup_read_def Let_def)
  let ?s = "cs_w_update (\<lambda>w. w\<lparr>w_loop_tid := 1\<rparr>) (lp_c (lp_on_w (\<lambda>w. w\<lparr>w_ring := r3\<rparr>) l3))"
  have "mem_ok (w_heap (lp_w l3))" "cs_var (lp_c l3) = None" "cs_value (lp_c l3) = Unset"
    using m v by (simp_all add: l3_def l2_def l1_def lp_on_w_def on_c_def on_w_def new_dicts_frame new_dicts_mem mem_ok_signals)
  then have "fst (ContextVar_init ?s)"
    by (intro ContextVar_init_ready(1)) (simp_all add: lp_on_w_def on_c_def on_w_def mem_ok_def)
  then obtain s where cv: "ContextVar_init ?s = (True, s)" by (metis (full_types) prod.collapse)
  show ?thesis
    unfolding UringioLoop_init_def Let_def ri prod.case l1_def [symmetric] l2_def [symmetric] sys_model_simps l3_def [symmetric] rp cv
    by simp
qed

lemma blank_loop_mem: "mem_ok (w_heap (lp_w blank_loop))"
  by (simp add: init_world_def mem_ok_def) (simp add: init_heap_def)

lemma blank_loop_starts:
  "\<exists>self l1 l2. UringioLoop_new (Some 3) blank_loop = (Some self, l1) \<and> UringioLoop_init (lib_model 256 False) sys_model l1 = (0, l2)"
proof -
  obtain self l1 where n: "UringioLoop_new (Some 3) blank_loop = (Some self, l1)" using blank_loop_new by blast
  have "fst (UringioLoop_init (lib_model 256 False) sys_model l1) = 0"
    using UringioLoop_new_ok [OF n blank_loop_mem] by (intro model_init) simp_all
  with n show ?thesis by (metis prod.collapse)
qed

theorem loop_starts_witness:
  "\<exists>self l1 l2. UringioLoop_new (Some 3) blank_loop = (Some self, l1) \<and>
     UringioLoop_init (lib_model 256 False) sys_model l1 = (0, l2) \<and>
     reg_inv (w_reg (lp_w l2)) \<and> rr_size (w_reg (lp_w l2)) = 3 \<and> ready (lp_c l2)"
proof -
  obtain self l1 l2 where st: "UringioLoop_new (Some 3) blank_loop = (Some self, l1)"
      "UringioLoop_init (lib_model 256 False) sys_model l1 = (0, l2)" using blank_loop_starts by blast
  show ?thesis using loop_starts [OF lib_model_ok blank_loop_mem _ _ _ _ st] st by simp
qed

section \<open>Shutdown\<close>

text \<open>
  \<open>wait_quiet\<close>: the wait returns the first completion that is there, and nothing when there is none, as for a kernel that posts
  no further completion within the time of a wait. \<open>answers\<close>: each completion is that of the wake-up read or
  belongs to a request in flight, and no request has two.
\<close>

definition wait_quiet :: "loop_api \<Rightarrow> bool" where
  "wait_quiet A \<longleftrightarrow>
     (\<forall>ts r. fst (io_uring_wait_cqe_timeout A ts r) = (case r_cq r of [] \<Rightarrow> None | c # _ \<Rightarrow> Some c) \<and>
             r_cq (snd (io_uring_wait_cqe_timeout A ts r)) = r_cq r)"

definition answers :: "world \<Rightarrow> cqe list \<Rightarrow> bool" where
  "answers w cs \<longleftrightarrow>
     (\<forall>c \<in> set cs. cqe_user_data c = WAKEUP_FD_TAG \<or> reg_abs (w_reg w) (cqe_idx c) \<noteq> None) \<and>
     distinct (map cqe_idx (filter (\<lambda>c. cqe_user_data c \<noteq> WAKEUP_FD_TAG) cs))"

definition closed_error :: future where
  "closed_error = Exception (RuntimeError ''Event loop is closed'')"

text \<open>The futures after the completions \<open>cs\<close>.\<close>

definition closed_futures :: "world \<Rightarrow> cqe list \<Rightarrow> nat \<Rightarrow> future" where
  "closed_futures w cs f =
     (if w_fut w f = Pending \<and> (\<exists>c \<in> set cs. \<exists>s. reg_abs (w_reg w) (cqe_idx c) = Some s \<and> sl_future s = Some f)
      then closed_error else w_fut w f)"

lemma wakeup_free: "reg_abs reg (data_to_idx WAKEUP_FD_TAG) = None"
  using reg_abs_range [of reg "- 1"] by (cases "reg_abs reg (- 1)") (auto simp: wakeup_index)

lemma shutdown_cqe_wakeup: "cqe_user_data c = WAKEUP_FD_TAG \<Longrightarrow> shutdown_cqe K c w = cqe_seen K c w"
  by (simp add: shutdown_cqe_def)

lemma shutdown_cqe_held:
  assumes inv: "reg_inv (w_reg w)" and oom: "no_oom w" and s: "reg_abs (w_reg w) (cqe_idx c) = Some s" and fu: "sl_future s = Some fu"
  shows "completes (cqe_idx c) fu w (shutdown_cqe K c w)"
    and "w_fut (shutdown_cqe K c w) fu = (if w_fut w fu = Pending then closed_error else w_fut w fu)"
    and "w_ring (shutdown_cqe K c w) = io_uring_cqe_seen K c (w_ring w)"
proof -
  have tag: "cqe_user_data c \<noteq> WAKEUP_FD_TAG" using s wakeup_free by (auto simp: cqe_idx_def)
  define n where "n = h_next (w_heap w)"
  define w1 where "w1 = w\<lparr>w_heap := (w_heap w)\<lparr>h_next := Suc n, h_ref := (h_ref (w_heap w))(n := 1)\<rparr>\<rparr>"
  define w2 where "w2 = settle fu closed_error w1"
  define w3 where "w3 = on_heap (py_xdecref (Some n)) (if w_fut w fu = Pending then on_heap (py_xincref (Some n)) w2 else w2)"
  have "py_value PyNone w = (Some (Some n, PyNone), w1)"
    using oom by (simp add: py_value_def py_new_def no_oom_def n_def w1_def Let_def)
  then have e: "shutdown_cqe K c w = cqe_seen K c (remove_request (cqe_idx c) w3)"
    using tag registry_get_abs [OF inv s] fu
    by (simp add: shutdown_cqe_def cqe_idx_def w3_def w2_def w1_def closed_error_def Let_def)
  have k: "w_reg w3 = w_reg w" "w_ring w3 = w_ring w" "w_aborted w3 = w_aborted w" "w_pay w3 = w_pay w" "w_mem w3 = w_mem w"
    "h_oom (w_heap w3) = h_oom (w_heap w)" "w_fut w3 = (if w_fut w fu = Pending then (w_fut w)(fu := closed_error) else w_fut w)"
    by (simp_all add: w3_def w2_def w1_def)
  have inv3: "reg_inv (w_reg w3)" and s3: "reg_abs (w_reg w3) = (reg_abs (w_reg w))(cqe_idx c \<mapsto> s)"
    using inv s by (simp_all add: k fun_upd_idem)
  show "completes (cqe_idx c) fu w (shutdown_cqe K c w)"
    unfolding e by (rule remove_completes(1) [OF inv3 s3]) (simp_all add: k)
  show "w_fut (shutdown_cqe K c w) fu = (if w_fut w fu = Pending then closed_error else w_fut w fu)"
    unfolding e using remove_request_effect(3) [OF inv3, of "cqe_idx c" s] s by (simp add: k)
  show "w_ring (shutdown_cqe K c w) = io_uring_cqe_seen K c (w_ring w)"
    unfolding e using remove_request_effect(5) [OF inv3, of "cqe_idx c" s] s by (simp add: k cqe_seen_def)
qed

lemma shutdown_step:
  assumes K: "completions_ok K" and inv: "reg_inv (w_reg w)" and oom: "no_oom w" and a: "answers w (c # cs)"
  shows "reg_inv (w_reg (shutdown_cqe K c w)) \<and> no_oom (shutdown_cqe K c w) \<and> answers (shutdown_cqe K c w) cs \<and>
    r_cq (w_ring (shutdown_cqe K c w)) = tl (r_cq (w_ring w)) \<and> w_aborted (shutdown_cqe K c w) = w_aborted w \<and>
    reg_abs (w_reg (shutdown_cqe K c w)) = (reg_abs (w_reg w))(cqe_idx c := None) \<and>
    closed_futures (shutdown_cqe K c w) cs = closed_futures w (c # cs)"
proof (cases "cqe_user_data c = WAKEUP_FD_TAG")
  case True
  then have none: "reg_abs (w_reg w) (cqe_idx c) = None" using wakeup_free by (simp add: cqe_idx_def)
  then show ?thesis
    using True K inv oom a
    by (auto simp: shutdown_cqe_wakeup no_oom_def answers_def completions_ok_def closed_futures_def cqe_seen_def fun_upd_idem fun_eq_iff)
next
  case False
  then obtain s where s: "reg_abs (w_reg w) (cqe_idx c) = Some s" using a by (auto simp: answers_def)
  obtain fu where fu: "sl_future s = Some fu" using reg_abs_future [OF s] by blast
  note h = shutdown_cqe_held [OF inv oom s fu, of K]
  let ?w = "shutdown_cqe K c w"
  have d: "reg_inv (w_reg ?w)" "reg_abs (w_reg ?w) = (reg_abs (w_reg w))(cqe_idx c := None)"
      "\<And>f. f \<noteq> fu \<Longrightarrow> w_fut ?w f = w_fut w f" "w_aborted ?w = w_aborted w" "no_oom ?w"
    using h(1) oom by (simp_all add: completes_def no_oom_def)
  have ne: "cqe_idx d \<noteq> cqe_idx c" if "d \<in> set cs" "reg_abs (w_reg w) (cqe_idx d) \<noteq> None" for d
  proof -
    have "cqe_user_data d \<noteq> WAKEUP_FD_TAG" using that(2) wakeup_free [of "w_reg w"] by (auto simp: cqe_idx_def)
    then have "cqe_idx d \<in> set (map cqe_idx (filter (\<lambda>c. cqe_user_data c \<noteq> WAKEUP_FD_TAG) cs))" using that(1) by auto
    then show ?thesis using a False by (auto simp: answers_def)
  qed
  have other: "reg_abs (w_reg ?w) (cqe_idx d) = reg_abs (w_reg w) (cqe_idx d)" if "d \<in> set cs" for d
    unfolding d(2) using ne [OF that] by (cases "reg_abs (w_reg w) (cqe_idx d)") auto
  have ans: "answers ?w cs" using a False by (auto simp: answers_def other)
  have "closed_futures ?w cs f = closed_futures w (c # cs) f" for f
    using h(2) d(3) [of f] other s fu by (cases "f = fu") (auto simp: closed_futures_def closed_error_def)
  with d ans h(3) K show ?thesis by (auto simp: completions_ok_def)
qed

lemma shutdown_loop_run:
  assumes A: "wait_quiet A" and K: "completions_ok K"
    and "reg_inv (w_reg w)" and "no_oom w" and "r_cq (w_ring w) = cs" and "answers w cs"
  shows "\<exists>w'. shutdown_loop (Suc (length cs)) A K w = Some w' \<and> reg_inv (w_reg w') \<and> no_oom w' \<and> r_cq (w_ring w') = [] \<and>
    w_aborted w' = w_aborted w \<and> reg_abs (w_reg w') = reg_abs (w_reg w) |` (- cqe_idx ` set cs) \<and> w_fut w' = closed_futures w cs"
  using assms(3-6)
proof (induction cs arbitrary: w)
  case Nil
  obtain q r where io: "io_uring_wait_cqe_timeout A \<lparr>tv_sec = 0, tv_nsec = 100 * 1000 * 1000\<rparr> (w_ring w) = (q, r)" by force
  have "q = None" "r_cq r = []" using A [unfolded wait_quiet_def, rule_format, of _ "w_ring w"] Nil.prems(3) io
    by (metis fst_conv snd_conv list.case(1))+
  then show ?case using Nil io by (auto simp: closed_futures_def no_oom_def)
next
  case (Cons c cs)
  obtain q r where io: "io_uring_wait_cqe_timeout A \<lparr>tv_sec = 0, tv_nsec = 100 * 1000 * 1000\<rparr> (w_ring w) = (q, r)" by force
  have q: "q = Some c" "r_cq r = c # cs" using A [unfolded wait_quiet_def, rule_format, of _ "w_ring w"] Cons.prems(3) io
    by (metis fst_conv snd_conv list.case(2))+
  let ?w0 = "w\<lparr>w_ring := r\<rparr>"
  have p: "reg_inv (w_reg ?w0)" "no_oom ?w0" "answers ?w0 (c # cs)"
    using Cons.prems by (simp_all add: no_oom_def answers_def)
  let ?w1 = "shutdown_cqe K c ?w0"
  have st: "reg_inv (w_reg ?w1)" "no_oom ?w1" "r_cq (w_ring ?w1) = cs" "answers ?w1 cs" "w_aborted ?w1 = w_aborted w"
    "reg_abs (w_reg ?w1) = (reg_abs (w_reg w))(cqe_idx c := None)" "closed_futures ?w1 cs = closed_futures ?w0 (c # cs)"
    using shutdown_step [OF K p] q(2) by simp_all
  obtain w' where w': "shutdown_loop (Suc (length cs)) A K ?w1 = Some w'" "reg_inv (w_reg w')" "no_oom w'" "r_cq (w_ring w') = []"
      "w_aborted w' = w_aborted ?w1" "reg_abs (w_reg w') = reg_abs (w_reg ?w1) |` (- cqe_idx ` set cs)"
      "w_fut w' = closed_futures ?w1 cs"
    using Cons.IH [OF st(1-4)] by blast
  have "closed_futures ?w0 = closed_futures w" by (intro ext) (auto simp: closed_futures_def)
  then have "closed_futures ?w1 cs = closed_futures w (c # cs)" using st(7) by simp
  moreover have "reg_abs (w_reg ?w1) |` (- cqe_idx ` set cs) = reg_abs (w_reg w) |` (- cqe_idx ` set (c # cs))"
    unfolding st(6) by (auto simp: restrict_map_def fun_eq_iff)
  ultimately show ?case using w' st io q(1) by simp
qed

text \<open>What follows the loop leaves the futures alone.\<close>

definition same_futs :: "cstate \<Rightarrow> cstate \<Rightarrow> bool" where
  "same_futs s s' \<longleftrightarrow> w_fut (cs_w s') = w_fut (cs_w s) \<and> w_aborted (cs_w s') = w_aborted (cs_w s)"

lemma same_futs_refl [simp]: "same_futs s s"
  by (simp add: same_futs_def)

lemma same_futs_trans: "same_futs s s1 \<Longrightarrow> same_futs s1 s2 \<Longrightarrow> same_futs s s2"
  by (simp add: same_futs_def)

lemma same_futs_tok: "same_futs s (tok_decref t s)"
  by (cases "tk_old (cs_tok s t)")
    (auto simp: same_futs_def tok_decref_def cap_decref_def free_exec_context_def on_h_def on_w_def on_heap_def Let_def)

lemma same_futs_set: "same_futs s (snd (ContextVar_set Py_None s))"
  by (simp add: same_futs_def ContextVar_set_def call_method_def py_var_set_def cs_new_def py_new_def set_value_def cs_raise_def set_err_def
      on_h_def on_w_def on_heap_def Let_def split: option.split)

lemma graceful_shutdown_futs:
  assumes "shutdown_loop fuel A K (cs_w s) = Some w"
  shows "\<exists>s'. graceful_shutdown fuel A L K s = Some s' \<and> w_fut (cs_w s') = w_fut w \<and> w_aborted (cs_w s') = w_aborted w"
proof -
  let ?s1 = "on_w destroy_registry (s\<lparr>cs_w := w\<rparr>)"
  obtain t s2 where set: "ContextVar_set Py_None ?s1 = (t, s2)" by force
  let ?s3 = "case t of Some t \<Rightarrow> tok_decref t s2 | None \<Rightarrow> on_w (\<lambda>w. w\<lparr>w_err := None\<rparr>) s2"
  have "same_futs ?s1 s2" using same_futs_set [of ?s1] set by simp
  moreover have "same_futs s2 ?s3" by (cases t) (simp_all add: same_futs_tok, simp add: same_futs_def on_w_def)
  moreover have "same_futs ?s3 (on_w (destroy_ring L) ?s3)" by (simp add: same_futs_def on_w_def destroy_ring_def)
  ultimately have "same_futs ?s1 (on_w (destroy_ring L) ?s3)" by (blast intro: same_futs_trans)
  then show ?thesis
    using assms set by (simp add: graceful_shutdown_def same_futs_def on_w_def destroy_registry_def on_heap_def Let_def)
qed

lemma close_wakeup_frame [simp]:
  "w_fut (lp_w (close_wakeup l)) = w_fut (lp_w l)" "w_aborted (lp_w (close_wakeup l)) = w_aborted (lp_w l)"
  "lp_ring_null (close_wakeup l) = lp_ring_null l" "w_wakeup_fd (lp_w (close_wakeup l)) < 0"
  by (simp_all add: close_wakeup_def lp_on_w_def on_c_def on_w_def)

lemma clear_fields_frame [simp]:
  "w_fut (lp_w (clear_fields l)) = w_fut (lp_w l)" "w_aborted (lp_w (clear_fields l)) = w_aborted (lp_w l)"
  "lp_ring_null (clear_fields l) = lp_ring_null l" "w_wakeup_fd (lp_w (clear_fields l)) = w_wakeup_fd (lp_w l)"
  "lp_readers (clear_fields l) = None" "lp_writers (clear_fields l) = None" "lp_context_var (clear_fields l) = None"
  by (simp_all add: clear_fields_def on_c_def on_h_def on_w_def on_heap_def)


text \<open>A loop with one read in flight whose completion has arrived, and a request of its future's neighbour that has none.\<close>

definition wait_head :: loop_api where
  "wait_head = wait_model\<lparr>io_uring_wait_cqe_timeout := (\<lambda>_ r. (case r_cq r of [] \<Rightarrow> None | c # _ \<Rightarrow> Some c, r))\<rparr>"

definition busy_loop :: loop_state where
  "busy_loop = demo_loop\<lparr>lp_c := cs_demo\<lparr>cs_w := read_flight\<lparr>w_ring := empty_ring\<lparr>r_cq := [cqe_of 2 3]\<rparr>\<rparr>\<rparr>\<rparr>"


end
