(* ===== verification/Loop_Run.thy ===== *)
theory Loop_Run
  imports System_Run Loop_Start_End
begin

text \<open>
  Every part together: a loop that was started and then iterates. An iteration of \<^verbatim>\<open>_run_once\<close> is a run of the system: the
  completions the reader handles, then whatever the callbacks do. So what holds for every run holds for a loop that
  iterates, from the state \<^verbatim>\<open>__init__\<close> leaves.
\<close>

section \<open>Runs in sequence\<close>

definition runs_to :: "(int \<Rightarrow> string \<Rightarrow> u8 list option) \<Rightarrow> liburing \<Rightarrow> completions \<Rightarrow> world \<Rightarrow> world \<Rightarrow> bool" where
  "runs_to pton L K w w' \<longleftrightarrow> (\<exists>es. run pton L K w es w')"

lemma run_append: "run pton L K w1 es' w2 \<Longrightarrow> run pton L K w es w1 \<Longrightarrow> run pton L K w (es @ es') w2"
proof (induction rule: run.induct)
  case (step es' w2 e w3)
  then show ?case using run.step by (metis append_assoc)
qed simp

lemma runs_to_refl [simp]: "runs_to pton L K w w"
  unfolding runs_to_def using run.start by blast

lemma runs_to_trans: "runs_to pton L K w w1 \<Longrightarrow> runs_to pton L K w1 w2 \<Longrightarrow> runs_to pton L K w w2"
  unfolding runs_to_def using run_append by blast

lemma runs_to_step: "run_step pton L K w e w' \<Longrightarrow> runs_to pton L K w w'"
  unfolding runs_to_def using run.step [OF run.start] by blast

lemma runs_to_same: "w_reg w' = w_reg w \<Longrightarrow> w_aborted w' = w_aborted w \<Longrightarrow> runs_to pton L K w w'"
  by (rule runs_to_step [OF run_step.other])

lemma runs_to_reader:
  "completions_ok K \<Longrightarrow> quiet L \<Longrightarrow> reg_inv (w_reg w) \<Longrightarrow> no_oom w \<Longrightarrow> on_uring_ready n L K w = Some w' \<Longrightarrow> runs_to pton L K w w'"
proof (induction n arbitrary: w)
  case (Suc n)
  show ?case
  proof (cases "io_uring_peek_cqe K (w_ring w)")
    case None
    then show ?thesis using Suc.prems(5) by simp
  next
    case (Some c)
    then have r: "on_uring_ready n L K (handle_cqe L K c w) = Some w'" using Suc.prems(5) by simp
    note st = handle_cqe_step(1,2) [OF Suc.prems(1-4), of c]
    show ?thesis
      using runs_to_trans [OF runs_to_step [OF run_step.complete [OF Suc.prems(4)]] Suc.IH [OF Suc.prems(1,2) st r]] .
  qed
qed simp

section \<open>One iteration\<close>

text \<open>A callback does what Python code can do: call the methods of the extension, and anything that leaves its registry alone.\<close>

definition callback_runs ::
  "(int \<Rightarrow> string \<Rightarrow> u8 list option) \<Rightarrow> liburing \<Rightarrow> completions \<Rightarrow> (nat \<Rightarrow> loop_state \<Rightarrow> loop_state) \<Rightarrow> bool" where
  "callback_runs pton L K call \<longleftrightarrow> (\<forall>h l. runs_to pton L K (lp_w l) (lp_w (call h l)))"

text \<open>The steps of an iteration that only touch the heap and the error.\<close>

definition same_reg :: "loop_state \<Rightarrow> loop_state \<Rightarrow> bool" where
  "same_reg l l' \<longleftrightarrow> w_reg (lp_w l') = w_reg (lp_w l) \<and> w_aborted (lp_w l') = w_aborted (lp_w l)"

lemma same_reg_trans: "same_reg l l1 \<Longrightarrow> same_reg l1 l2 \<Longrightarrow> same_reg l l2"
  by (simp add: same_reg_def)

lemma same_loop_reg: "same_loop l l' \<Longrightarrow> same_reg l l'"
  by (simp add: same_loop_def same_reg_def)

lemma same_reg_runs: "same_reg l l' \<Longrightarrow> runs_to pton L K (lp_w l) (lp_w l')"
  by (simp add: same_reg_def runs_to_same)

lemma same_reg_promote: "same_reg l (promote_scheduled rnd l)"
proof (cases "lp_heapq l")
  case None
  then show ?thesis using same_loop_steps(4) by (simp add: promote_scheduled_def same_loop_reg)
next
  case (Some q)
  define l1 where "l1 = get_attr (lp_ready_ob l) (lp_ready l) (get_attr (lp_scheduled_ob l) (lp_scheduled l) (lp_ref q l))"
  obtain t l2 where t: "call_time l1 = (t, l2)" by force
  define l3 where "l3 = get_attr (lp_clock_ob l) (lp_clock_resolution l) l2"
  have "same_loop l l1" unfolding l1_def
    by (rule same_loop_trans [OF same_loop_trans [OF same_loop_steps(2) same_loop_steps(5)] same_loop_steps(5)])
  moreover have "same_loop l1 l2" using same_loop_call_time [of l1] t by simp
  moreover have "same_loop l2 l3" unfolding l3_def by (rule same_loop_steps)
  ultimately have l3: "same_loop l l3" using same_loop_trans by blast
  have drop: "same_loop l (drop_attr a v l')" if "same_loop l l'" for a l' and v :: "'a option"
    by (rule same_loop_trans [OF that same_loop_steps(6)])
  have unref: "same_loop l (lp_unref a l')" if "same_loop l l'" for a l'
    by (rule same_loop_trans [OF that same_loop_steps(3)])
  let ?l4 = "drop_attr (lp_ready_ob l) (lp_ready l) (drop_attr (lp_scheduled_ob l) (lp_scheduled l) l3)"
  let ?f = "case t of None \<Rightarrow> (\<lambda>x. x) | Some (ob, _) \<Rightarrow> lp_unref ob"
  have l4: "same_loop l ?l4" by (rule same_loop_trans [OF drop [OF l3] same_loop_steps(6)])
  have "same_loop l (?f ?l4)" using l4 unref [OF l4] by (simp split: option.split)
  then have "same_loop l (lp_unref q (drop_attr (lp_clock_ob l) (lp_clock_resolution l) (?f ?l4)))"
    by (intro unref) (rule same_loop_trans [OF _ same_loop_steps(6)])
  then have "same_reg l (lp_unref q (drop_attr (lp_clock_ob l) (lp_clock_resolution l) (?f ?l4)))" by (rule same_loop_reg)
  moreover have "same_reg l (l3\<lparr>lp_scheduled := a, lp_ready := b, lp_handle_scheduled := c\<rparr>)" for a b c
    using same_loop_reg [OF l3] by (simp add: same_reg_def)
  ultimately show ?thesis
    using Some t
    by (cases "lp_scheduled l"; cases "lp_ready l"; cases t; cases "lp_clock_resolution l")
      (auto simp: promote_scheduled_def l1_def l3_def Let_def split: prod.split)
qed

lemma drain_runs:
  "callback_runs pton L K call \<Longrightarrow> runs_to pton L K (lp_w l) (lp_w (drain_loop call n l))"
proof (induction n arbitrary: l)
  case (Suc n)
  show ?case
  proof (cases "\<exists>h rest. lp_ready l = Some (h # rest)")
    case True
    then obtain h rest where r: "lp_ready l = Some (h # rest)" by blast
    let ?l1 = "l\<lparr>lp_ready := Some rest\<rparr>"
    have "runs_to pton L K (lp_w l) (lp_w (call h ?l1))"
      using Suc.prems [unfolded callback_runs_def, rule_format, of ?l1 h] by simp
    then show ?thesis
      using runs_to_trans [OF _ Suc.IH [OF Suc.prems]] Suc.IH [OF Suc.prems, of ?l1] r by (simp add: Let_def)
  next
    case False
    then have "drain_loop call (Suc n) l = lp_raise CalleeError l" by (auto split: option.split list.split)
    then show ?thesis using same_reg_runs [OF same_loop_reg [OF same_loop_steps(4)]] by simp
  qed
qed simp

lemma drain_ready_runs:
  assumes "callback_runs pton L K call"
  shows "runs_to pton L K (lp_w l) (lp_w (drain_ready call l))"
proof (cases "lp_ready l")
  case None
  then show ?thesis using same_reg_runs [OF same_loop_reg [OF same_loop_steps(4)]] by (simp add: drain_ready_def)
next
  case (Some rs)
  note ref = same_reg_runs [OF same_loop_reg [OF same_loop_steps(2)]]
    and unref = same_reg_runs [OF same_loop_reg [OF same_loop_steps(3)]]
  show ?thesis
    using runs_to_trans [OF runs_to_trans [OF ref drain_runs [OF assms]] unref] Some by (simp add: drain_ready_def)
qed

lemma run_once_runs:
  assumes "completions_ok K" and "quiet L" and "reg_inv (w_reg (lp_w l))" and "\<not> loop_oom l" and cb: "callback_runs pton L K call"
    and r: "UringioLoop_run_once fuel rnd call A L K l = Some (ok, l')"
  shows "runs_to pton L K (lp_w l) (lp_w l')"
proof (cases "ASSERT_PYTHON_THREAD l")
  case (Some e)
  then show ?thesis
    using r same_reg_runs [OF same_loop_reg [OF same_loop_steps(4)]] by (auto simp: UringioLoop_run_once_def)
next
  case None
  obtain ts l1 where ct: "compute_timeout rnd l = (ts, l1)" by force
  have s1: "same_loop l l1" using same_loop_compute [of l rnd] ct by simp
  define w1 where "w1 = (lp_w l1)\<lparr>w_ring := io_uring_submit_and_wait_timeout A 1 ts (w_ring (lp_w l1))\<rparr>"
  obtain w2 where w2: "on_uring_ready fuel L K w1 = Some w2"
      and l': "l' = drain_ready call (promote_scheduled rnd (l1\<lparr>lp_c := (lp_c l1)\<lparr>cs_w := w2\<rparr>\<rparr>))"
    using r None ct by (auto simp: UringioLoop_run_once_def w1_def Let_def simp del: on_uring_ready.simps split: option.splits)
  have w1: "reg_inv (w_reg w1)" "no_oom w1" "w_reg w1 = w_reg (lp_w l)" "w_aborted w1 = w_aborted (lp_w l)"
    using s1 assms(3,4) by (simp_all add: w1_def same_loop_def no_oom_def loop_oom_def)
  let ?l2 = "l1\<lparr>lp_c := (lp_c l1)\<lparr>cs_w := w2\<rparr>\<rparr>"
  have "runs_to pton L K (lp_w l) w1" by (rule runs_to_same [OF w1(3,4)])
  then have "runs_to pton L K (lp_w l) (lp_w ?l2)"
    using runs_to_trans [OF _ runs_to_reader [OF assms(1,2) w1(1,2) w2]] by simp
  moreover have "runs_to pton L K (lp_w ?l2) (lp_w (promote_scheduled rnd ?l2))" by (rule same_reg_runs [OF same_reg_promote])
  ultimately show ?thesis using drain_ready_runs [OF cb] runs_to_trans unfolding l' by blast
qed

section \<open>A loop that iterates\<close>

text \<open>
  What happens to a loop between its start and its end: iterations with any callbacks, any clock and any outcome of the
  waits, and code outside of iterations.
\<close>

inductive loop_step :: "(int \<Rightarrow> string \<Rightarrow> u8 list option) \<Rightarrow> liburing \<Rightarrow> completions \<Rightarrow> loop_state \<Rightarrow> loop_state \<Rightarrow> bool"
  for pton L K where
  iterate: "\<not> loop_oom l \<Longrightarrow> callback_runs pton L K call \<Longrightarrow> UringioLoop_run_once fuel rnd call A L K l = Some (ok, l') \<Longrightarrow>
     loop_step pton L K l l'"
| outside: "runs_to pton L K (lp_w l) (lp_w l') \<Longrightarrow> loop_step pton L K l l'"

inductive_cases loop_stepE: "loop_step pton L K l l'"

lemma loop_step_runs:
  assumes "completions_ok K" and "quiet L" and "reg_inv (w_reg (lp_w l))" and "loop_step pton L K l l'"
  shows "runs_to pton L K (lp_w l) (lp_w l')"
  using assms(4) run_once_runs [OF assms(1-3)] by (elim loop_stepE) blast+

lemma loop_steps_run:
  assumes L: "liburing_ok L" "quiet L" and K: "completions_ok K" and inv: "reg_inv (w_reg (lp_w l))"
    and "(loop_step pton L K)\<^sup>*\<^sup>* l l'"
  shows "runs_to pton L K (lp_w l) (lp_w l')"
  using assms(5)
proof (induction rule: rtranclp_induct)
  case (step l1 l2)
  then obtain es where r: "run pton L K (lp_w l) es (lp_w l1)" by (auto simp: runs_to_def)
  have "reg_inv (w_reg (lp_w l1))" using run_ok [OF L K inv r] by simp
  from runs_to_trans [OF step.IH loop_step_runs [OF K L(2) this step.hyps(2)]] show ?case .
qed simp

text \<open>
  C4. From its start on a loop that iterates stays well-formed: whatever its callbacks call, whatever completes and however
  many iterations it makes, the iterations amount to a run of calls and completions, the registry keeps its
  invariant, the process does not abort, and every request in flight was started by one of those calls, which returned its future.
\<close>

theorem started_loop_safe:
  assumes L: "liburing_ok L" "quiet L" and K: "completions_ok K"
    and st: "mem_ok (w_heap (lp_w l))" "cs_var (lp_c l) = None" "cs_value (lp_c l) = Unset" "0 \<le> sz" "sz < 2 ^ 31"
      "UringioLoop_new (Some sz) l = (Some self, l1)" "UringioLoop_init L Y l1 = (0, l2)"
    and path: "(loop_step pton L K)\<^sup>*\<^sup>* l2 l3"
  shows "reg_inv (w_reg (lp_w l3)) \<and> w_aborted (lp_w l3) = w_aborted (lp_w l2) \<and>
    (\<exists>es. run pton L K (lp_w l2) es (lp_w l3) \<and>
      (\<forall>i s. reg_abs (w_reg (lp_w l3)) i = Some s \<longrightarrow>
        (\<exists>c fu. Called c (Some fu) \<in> set es \<and> sl_future s = Some fu \<and> sl_opcode s = call_opcode c)))"
proof -
  note l2 = started_loop [OF L(1) st]
  obtain es where r: "run pton L K (lp_w l2) es (lp_w l3)"
    using loop_steps_run [OF L K _ path] l2 by (auto simp: runs_to_def)
  show ?thesis using run_ok [OF L K _ r] l2 r by (intro conjI exI [of _ es]) auto
qed

lemma run_once_returns:
  assumes "completions_ok K" and "quiet L" and "reg_inv (w_reg (lp_w l))" and "\<not> loop_oom l"
  shows "\<exists>fuel ok l'. UringioLoop_run_once fuel rnd call A L K l = Some (ok, l')"
proof (cases "ASSERT_PYTHON_THREAD l")
  case None
  obtain ts l1 where ct: "compute_timeout rnd l = (ts, l1)" by force
  have s1: "same_loop l l1" using same_loop_compute [of l rnd] ct by simp
  define w1 where "w1 = (lp_w l1)\<lparr>w_ring := io_uring_submit_and_wait_timeout A 1 ts (w_ring (lp_w l1))\<rparr>"
  have "reg_inv (w_reg w1)" "no_oom w1" using s1 assms(3,4) by (simp_all add: w1_def same_loop_def no_oom_def loop_oom_def)
  then obtain w2 where "on_uring_ready (Suc (length (r_cq (w_ring w1)))) L K w1 = Some w2"
    using on_uring_ready_run [OF assms(1,2) _ _ refl] by blast
  then show ?thesis using None ct
    by (intro exI [of _ "Suc (length (r_cq (w_ring w1)))"] exI [of _ True]) (simp add: UringioLoop_run_once_def w1_def Let_def del: on_uring_ready.simps)
qed (auto simp: UringioLoop_run_once_def)

theorem started_loop_safe_witness:
  "\<exists>self l1 l2 fuel ok l3. UringioLoop_new (Some 3) blank_loop = (Some self, l1) \<and>
     UringioLoop_init (lib_model 256 False) sys_model l1 = (0, l2) \<and>
     UringioLoop_run_once fuel (\<lambda>x. x) idle wait_model (lib_model 256 False) cq_model l2 = Some (ok, l3) \<and>
     reg_inv (w_reg (lp_w l3)) \<and> w_aborted (lp_w l3) = w_aborted (lp_w l2)"
proof -
  obtain self l1 l2 where st: "UringioLoop_new (Some 3) blank_loop = (Some self, l1)"
      "UringioLoop_init (lib_model 256 False) sys_model l1 = (0, l2)" using blank_loop_starts by blast
  have m: "mem_ok (w_heap (lp_w blank_loop))" by (rule blank_loop_mem)
  have l2: "reg_inv (w_reg (lp_w l2))" "\<not> loop_oom l2"
    using started_loop [OF lib_model_ok m _ _ _ _ st] by (auto simp: ready_def loop_oom_def)
  obtain fuel ok l3 where r: "UringioLoop_run_once fuel (\<lambda>x. x) idle wait_model (lib_model 256 False) cq_model l2 = Some (ok, l3)"
    using run_once_returns [OF cq_model_ok lib_model_quiet l2] by blast
  have "callback_runs (\<lambda>_ _. None) (lib_model 256 False) cq_model idle" by (simp add: callback_runs_def idle_def)
  then have "(loop_step (\<lambda>_ _. None) (lib_model 256 False) cq_model)\<^sup>*\<^sup>* l2 l3" using loop_step.iterate [OF l2(2) _ r] by blast
  from started_loop_safe [OF lib_model_ok lib_model_quiet cq_model_ok m _ _ _ _ st this] show ?thesis using st r by auto
qed

end
