(* ===== verification/Enums.thy ===== *)
theory Enums
  imports Execution_Context
begin

text \<open>
  The enumerations of the module: \<^verbatim>\<open>python_api/ops/files/enums.c\<close> and \<^verbatim>\<open>python_api/execution_context/enums.c\<close>. Each function builds
  a class by calling \<^verbatim>\<open>enum.IntFlag\<close> or \<^verbatim>\<open>enum.IntEnum\<close> with a name and the dictionary of the members, which
  \<^verbatim>\<open>Py_BuildValue\<close> makes from a format and as many arguments as the format asks for.

  \<open>py_modules\<close> says what the imports and the attribute lookups find, \<open>None\<close> where they fail. A dictionary is its list of items, a
  class its name and its members.
\<close>

record py_modules =
  pm_enum :: "nat option"
  pm_IntEnum :: "nat option"
  pm_IntFlag :: "nat option"
  pm_asyncio :: "nat option"
  pm_BaseEventLoop :: "nat option"

record mstate =
  ms_w :: world
  ms_dict :: "nat \<Rightarrow> (string \<times> int) list"
  ms_class :: "nat \<Rightarrow> string \<times> (string \<times> int) list"
  ms_loop_type :: "nat option"
  ms_module :: "(string \<times> nat) list"

definition ms_on_heap :: "(heap \<Rightarrow> heap) \<Rightarrow> mstate \<Rightarrow> mstate" where
  "ms_on_heap f s = s\<lparr>ms_w := on_heap f (ms_w s)\<rparr>"

abbreviation ms_heap :: "mstate \<Rightarrow> heap" where
  "ms_heap s \<equiv> w_heap (ms_w s)"

definition ms_raise :: "mstate \<Rightarrow> mstate" where
  "ms_raise s = s\<lparr>ms_w := set_err CalleeError (ms_w s)\<rparr>"

text \<open>A function of the interpreter that makes an object, or raises.\<close>

definition ms_new :: "mstate \<Rightarrow> nat option \<times> mstate" where
  "ms_new s = (let (q, w) = py_new CalleeError (ms_w s) in (q, s\<lparr>ms_w := w\<rparr>))"

text \<open>A function of the interpreter that returns a new reference to an object that is there, or raises.\<close>

definition ms_lookup :: "nat option \<Rightarrow> mstate \<Rightarrow> nat option \<times> mstate" where
  "ms_lookup q s = (q, case q of None \<Rightarrow> ms_raise s | Some ob \<Rightarrow> ms_on_heap (py_incref ob) s)"

section \<open>Building a dictionary\<close>

datatype va = VaStr string | VaInt int

text \<open>
  \<^verbatim>\<open>Py_BuildValue\<close> skips the separators and takes one argument per unit; further arguments are not looked at. \<open>None\<close> is a
  format that asks for arguments that are missing or have another type, where the behaviour is undefined.
\<close>

fun build_units :: "string \<Rightarrow> va list \<Rightarrow> (string \<times> int) list option" where
  "build_units [] args = Some []"
| "build_units (k # v # fmt) (VaStr s # VaInt n # args) =
     (if k = CHR ''s'' \<and> v = CHR ''i'' then map_option ((#) (s, n)) (build_units fmt args) else None)"
| "build_units _ _ = None"

definition build_dict :: "string \<Rightarrow> va list \<Rightarrow> (string \<times> int) list option" where
  "build_dict fmt args =
     (case fmt of
        c # units \<Rightarrow>
          if c = CHR ''{''
          then build_units (filter (\<lambda>c. c \<notin> set '', :'') (takeWhile (\<lambda>c. c \<noteq> CHR ''}'') units)) args
          else None
      | [] \<Rightarrow> None)"

definition Py_BuildValue :: "string \<Rightarrow> va list \<Rightarrow> mstate \<Rightarrow> nat option \<times> mstate" where
  "Py_BuildValue fmt args s =
     (case build_dict fmt args of
        None \<Rightarrow> (None, s\<lparr>ms_w := fault_at Indeterminate (ms_w s)\<rparr>)
      | Some items \<Rightarrow>
          (case ms_new s of
             (None, s1) \<Rightarrow> (None, s1)
           | (Some d, s1) \<Rightarrow> (Some d, s1\<lparr>ms_dict := (ms_dict s1)(d := items)\<rparr>)))"

text \<open>\<^verbatim>\<open>PyObject_CallFunction(base, "sO", name, members)\<close>: the class.\<close>

definition make_class :: "string \<Rightarrow> nat \<Rightarrow> mstate \<Rightarrow> nat option \<times> mstate" where
  "make_class name members s =
     (case ms_new s of
        (None, s1) \<Rightarrow> (None, s1)
      | (Some c, s1) \<Rightarrow> (Some c, s1\<lparr>ms_class := (ms_class s1)(c := (name, ms_dict s1 members))\<rparr>))"

section \<open>The seven functions\<close>

text \<open>Their shared shape.\<close>

definition create_enum ::
  "(py_modules \<Rightarrow> nat option) \<Rightarrow> string \<Rightarrow> string \<Rightarrow> va list \<Rightarrow> py_modules \<Rightarrow> mstate \<Rightarrow> nat option \<times> mstate" where
  "create_enum base name fmt args M s =
     (case ms_lookup (pm_enum M) s of
        (None, s1) \<Rightarrow> (None, s1)
      | (Some enum_module, s1) \<Rightarrow>
          (let (attr, s2) = ms_lookup (base M) s1;
               s3 = ms_on_heap (py_decref enum_module) s2
           in case attr of
                None \<Rightarrow> (None, s3)
              | Some b \<Rightarrow>
                  (case Py_BuildValue fmt args s3 of
                     (None, s4) \<Rightarrow> (None, ms_on_heap (py_decref b) s4)
                   | (Some members, s4) \<Rightarrow>
                       (let (result, s5) = make_class name members s4
                        in (result, ms_on_heap (py_decref members) (ms_on_heap (py_decref b) s5))))))"

definition create_resolve_enum :: "py_modules \<Rightarrow> mstate \<Rightarrow> nat option \<times> mstate" where
  "create_resolve_enum =
     create_enum pm_IntFlag ''ResolveFlags'' ''{s:i, s:i, s:i, s:i, s:i, s:i}''
       [VaStr ''NO_XDEV'', VaInt 1, VaStr ''NO_MAGICLINKS'', VaInt 2, VaStr ''NO_SYMLINKS'', VaInt 4,
        VaStr ''BENEATH'', VaInt 8, VaStr ''IN_ROOT'', VaInt 16, VaStr ''CACHED'', VaInt 32]"

definition create_statx_flags_enum :: "py_modules \<Rightarrow> mstate \<Rightarrow> nat option \<times> mstate" where
  "create_statx_flags_enum =
     create_enum pm_IntFlag ''StatxFlags'' ''{s:i, s:i, s:i, s:i, s:i}''
       [VaStr ''EMPTY_PATH'', VaInt 0x1000, VaStr ''SYMLINK_NOFOLLOW'', VaInt 0x100, VaStr ''NO_AUTOMOUNT'', VaInt 0x800,
        VaStr ''STATX_SYNC_AS_STAT'', VaInt 0, VaStr ''STATX_FORCE_SYNC'', VaInt 0x2000, VaStr ''STATX_DONT_SYNC'', VaInt 0x4000]"

definition create_statx_mask_enum :: "py_modules \<Rightarrow> mstate \<Rightarrow> nat option \<times> mstate" where
  "create_statx_mask_enum =
     create_enum pm_IntFlag ''StatxMask'' ''{s:i, s:i, s:i, s:i, s:i, s:i, s:i, s:i, s:i, s:i, s:i, s:i}''
       [VaStr ''TYPE'', VaInt 1, VaStr ''MODE'', VaInt 2, VaStr ''NLINK'', VaInt 4, VaStr ''UID'', VaInt 8, VaStr ''GID'', VaInt 0x10,
        VaStr ''ATIME'', VaInt 0x20, VaStr ''MTIME'', VaInt 0x40, VaStr ''CTIME'', VaInt 0x80, VaStr ''INO'', VaInt 0x100,
        VaStr ''SIZE'', VaInt 0x200, VaStr ''BLOCKS'', VaInt 0x400, VaStr ''BASIC_STATS'', VaInt 0x7ff,
        VaStr ''BTIME'', VaInt 0x800, VaStr ''ALL'', VaInt 0xfff]"

definition create_buffer_mode_enum :: "py_modules \<Rightarrow> mstate \<Rightarrow> nat option \<times> mstate" where
  "create_buffer_mode_enum =
     create_enum pm_IntEnum ''BUFFER_MODE'' ''{s:i, s:i, s:i, s:i}''
       [VaStr ''NORMAL'', VaInt 0, VaStr ''FIXED'', VaInt 1, VaStr ''PROVIDED'', VaInt 2, VaStr ''BUF_RING'', VaInt 3]"

definition create_stream_strategy_enum :: "py_modules \<Rightarrow> mstate \<Rightarrow> nat option \<times> mstate" where
  "create_stream_strategy_enum =
     create_enum pm_IntEnum ''STREAM_STRATEGY'' ''{s:i, s:i}'' [VaStr ''ONESHOT'', VaInt 0, VaStr ''MULTISHOT'', VaInt 1]"

definition create_transfer_mode_enum :: "py_modules \<Rightarrow> mstate \<Rightarrow> nat option \<times> mstate" where
  "create_transfer_mode_enum =
     create_enum pm_IntEnum ''TRANSFER_MODE'' ''{s:i, s:i}'' [VaStr ''NORMAL'', VaInt 0, VaStr ''ZERO_COPY'', VaInt 1]"

definition create_payload_type_enum :: "py_modules \<Rightarrow> mstate \<Rightarrow> nat option \<times> mstate" where
  "create_payload_type_enum =
     create_enum pm_IntEnum ''PAYLOAD_TYPE'' ''{s:i, s:i, s:i}''
       [VaStr ''LINEAR'', VaInt 0, VaStr ''IOVEC'', VaInt 1, VaStr ''LINEAR_AND_IOVEC'', VaInt 2]"

section \<open>The effect of the shared shape\<close>

lemma ms_on_heap_fields [simp]:
  "ms_heap (ms_on_heap f s) = f (ms_heap s)" "ms_class (ms_on_heap f s) = ms_class s" "ms_dict (ms_on_heap f s) = ms_dict s"
  "ms_loop_type (ms_on_heap f s) = ms_loop_type s" "ms_module (ms_on_heap f s) = ms_module s"
  "w_err (ms_w (ms_on_heap f s)) = w_err (ms_w s)"
  by (simp_all add: ms_on_heap_def on_heap_def)

text \<open>What holds while the module is set up: objects below the next number, none of them without a reference that the interpreter holds.\<close>

definition interp_ok :: "py_modules \<Rightarrow> mstate \<Rightarrow> bool" where
  "interp_ok M s \<longleftrightarrow>
     (\<forall>ob. Some ob \<in> {pm_enum M, pm_IntEnum M, pm_IntFlag M, pm_asyncio M, pm_BaseEventLoop M} \<longrightarrow>
        0 < h_ref (ms_heap s) ob \<and> ob < h_next (ms_heap s))"

text \<open>The counts of the objects that were there are as before.\<close>

definition refs_kept :: "mstate \<Rightarrow> mstate \<Rightarrow> bool" where
  "refs_kept s s' \<longleftrightarrow>
     h_next (ms_heap s) \<le> h_next (ms_heap s') \<and> h_oom (ms_heap s') = h_oom (ms_heap s) \<and>
     h_faults (ms_heap s') = h_faults (ms_heap s) \<and>
     (\<forall>ob < h_next (ms_heap s). h_ref (ms_heap s') ob = h_ref (ms_heap s) ob) \<and>
     (\<forall>c < h_next (ms_heap s). ms_class s' c = ms_class s c) \<and> ms_loop_type s' = ms_loop_type s \<and> ms_module s' = ms_module s"

lemma create_enum_effect:
  assumes ok: "interp_ok M s" and b: "base M \<in> {pm_IntEnum M, pm_IntFlag M}" and d: "build_dict fmt args = Some items"
    and r: "create_enum base name fmt args M s = (q, s')"
  shows "refs_kept s s' \<and>
    (case q of
       None \<Rightarrow> w_err (ms_w s') \<noteq> None
     | Some c \<Rightarrow> h_next (ms_heap s) \<le> c \<and> c < h_next (ms_heap s') \<and> h_ref (ms_heap s') c = 1 \<and>
         ms_class s' c = (name, items) \<and> w_err (ms_w s') = w_err (ms_w s)) \<and>
    (pm_enum M \<noteq> None \<and> base M \<noteq> None \<and> (\<forall>k. \<not> h_oom (ms_heap s) k) \<longrightarrow> q \<noteq> None)"
proof (cases "pm_enum M")
  case None
  then show ?thesis using r
    by (auto simp: create_enum_def ms_lookup_def ms_raise_def set_err_def refs_kept_def)
next
  case (Some e)
  have e: "0 < h_ref (ms_heap s) e" "e < h_next (ms_heap s)" using ok Some by (auto simp: interp_ok_def)
  show ?thesis
  proof (cases "base M")
    case None
    then show ?thesis using r Some e
      by (auto simp: create_enum_def ms_lookup_def ms_raise_def set_err_def refs_kept_def ms_on_heap_def on_heap_def)
  next
    case (Some c)
    have c: "0 < h_ref (ms_heap s) c" "c < h_next (ms_heap s)" using ok b Some by (auto simp: interp_ok_def)
    show ?thesis using r Some \<open>pm_enum M = Some e\<close> e c d
      by (auto simp: create_enum_def ms_lookup_def set_err_def refs_kept_def ms_on_heap_def on_heap_def Py_BuildValue_def
          make_class_def ms_new_def py_new_def Let_def split: if_splits)
  qed
qed

text \<open>
  C29. The values of the enumerations are the ones the context managers accept, under the right names: a member of \<^verbatim>\<open>BUFFER_MODE\<close>,
  \<^verbatim>\<open>STREAM_STRATEGY\<close>, \<^verbatim>\<open>TRANSFER_MODE\<close> or \<^verbatim>\<open>PAYLOAD_TYPE\<close> that comes back as an argument is decoded to the enumerator it was
  made from, and every enumerator has a member.
\<close>

theorem enum_values_decode:
  assumes ok: "interp_ok M s" and found: "pm_enum M \<noteq> None" "pm_IntEnum M \<noteq> None" and oom: "\<forall>k. \<not> h_oom (ms_heap s) k"
  shows "(\<exists>c s'. create_buffer_mode_enum M s = (Some c, s') \<and>
      map (\<lambda>(n, v). (n, fst (validate_buffer_mode v cs))) (snd (ms_class s' c)) =
        [(''NORMAL'', NORMAL_BUF), (''FIXED'', FIXED), (''PROVIDED'', PROVIDED), (''BUF_RING'', BUF_RING)]) \<and>
    (\<exists>c s'. create_payload_type_enum M s = (Some c, s') \<and>
      map (\<lambda>(n, v). (n, fst (validate_payload_type v cs))) (snd (ms_class s' c)) =
        [(''LINEAR'', PAYLOAD_LINEAR), (''IOVEC'', PAYLOAD_IOVEC), (''LINEAR_AND_IOVEC'', PAYLOAD_LINEAR_AND_IOVEC)]) \<and>
    (\<exists>c s'. create_stream_strategy_enum M s = (Some c, s') \<and>
      map (\<lambda>(n, v). (n, stream_of v)) (snd (ms_class s' c)) = [(''ONESHOT'', Some ONESHOT), (''MULTISHOT'', Some MULTISHOT)]) \<and>
    (\<exists>c s'. create_transfer_mode_enum M s = (Some c, s') \<and>
      map (\<lambda>(n, v). (n, transfer_of v)) (snd (ms_class s' c)) = [(''NORMAL'', Some NORMAL_TRANSFER), (''ZERO_COPY'', Some ZERO_COPY)])"
proof -
  have made: "\<exists>c s'. create_enum pm_IntEnum name fmt args M s = (Some c, s') \<and> P (snd (ms_class s' c))"
    if "build_dict fmt args = Some items" and "P items" for name fmt args items and P :: "(string \<times> int) list \<Rightarrow> bool"
  proof -
    obtain q s' where r: "create_enum pm_IntEnum name fmt args M s = (q, s')" by force
    show ?thesis using create_enum_effect [OF ok _ that(1) r] found oom r that(2) by (cases q) auto
  qed
  show ?thesis
    unfolding create_buffer_mode_enum_def create_payload_type_enum_def create_stream_strategy_enum_def create_transfer_mode_enum_def
    by (intro conjI made, simp_all only: build_dict_def)
      (simp_all add: validate_buffer_mode_def validate_payload_type_def stream_of_def transfer_of_def, simp_all)
qed

text \<open>An interpreter in which everything is found, and an empty module.\<close>

definition modules_model :: py_modules where
  "modules_model = \<lparr>pm_enum = Some 1, pm_IntEnum = Some 2, pm_IntFlag = Some 3, pm_asyncio = Some 4, pm_BaseEventLoop = Some 5\<rparr>"

definition import_state :: mstate where
  "import_state =
     \<lparr>ms_w = init_world\<lparr>w_heap := init_heap\<lparr>h_next := 7, h_ref := (\<lambda>_. 1)\<rparr>\<rparr>, ms_dict = (\<lambda>_. []), ms_class = (\<lambda>_. ([], [])),
      ms_loop_type = None, ms_module = []\<rparr>"

theorem enum_values_decode_witness:
  "\<exists>c s'. create_transfer_mode_enum modules_model import_state = (Some c, s') \<and>
     map (\<lambda>(n, v). (n, transfer_of v)) (snd (ms_class s' c)) = [(''NORMAL'', Some NORMAL_TRANSFER), (''ZERO_COPY'', Some ZERO_COPY)]"
proof -
  have "interp_ok modules_model import_state"
    by (auto simp: interp_ok_def modules_model_def import_state_def)
  from enum_values_decode [OF this] show ?thesis by (simp add: modules_model_def import_state_def init_heap_def)
qed

end
