(* ===== verification/Module_Init.thy ===== *)
theory Module_Init
  imports Enums
begin

text \<open>
  \<^verbatim>\<open>src/uringio_init.c\<close>: the function that fills the module in when it is imported. It makes the type of the loop, readies the
  static types, and adds the types and the enumerations to the module; the first step that fails ends it with -1.
  \<open>exec_env\<close> has the objects of the static types and the outcomes of the calls that may fail for reasons of their own.
\<close>

record exec_env =
  ex_type :: "string \<Rightarrow> nat"
  ex_ready :: "string \<Rightarrow> bool"
  ex_add :: "string \<Rightarrow> bool"

section \<open>The steps\<close>

text \<open>A tuple that goes away drops its item.\<close>

definition drop_tuple :: "nat \<Rightarrow> nat \<Rightarrow> mstate \<Rightarrow> mstate" where
  "drop_tuple t item s =
     (let s1 = ms_on_heap (py_decref t) s
      in if h_ref (ms_heap s) t = 1 then ms_on_heap (py_decref item) s1 else s1)"

text \<open>The type that \<^verbatim>\<open>PyType_FromSpecWithBases\<close> returns holds the tuple of its bases.\<close>

definition make_loop_type :: "py_modules \<Rightarrow> mstate \<Rightarrow> nat option \<times> mstate" where
  "make_loop_type M s =
     (case ms_lookup (pm_asyncio M) s of
        (None, s1) \<Rightarrow> (None, s1)
      | (Some asyncio, s1) \<Rightarrow>
          (let (base, s2) = ms_lookup (pm_BaseEventLoop M) s1; s3 = ms_on_heap (py_decref asyncio) s2
           in case base of
                None \<Rightarrow> (None, s3)
              | Some b \<Rightarrow>
                  (case ms_new s3 of
                     (None, s4) \<Rightarrow> (None, ms_on_heap (py_decref b) s4)
                   | (Some bases, s4) \<Rightarrow>
                       (let s5 = ms_on_heap (py_decref b) (ms_on_heap (py_incref b) s4)
                        in case ms_new s5 of
                             (None, s6) \<Rightarrow> (None, drop_tuple bases b s6)
                           | (Some type, s6) \<Rightarrow> (Some type, drop_tuple bases b (ms_on_heap (py_incref bases) s6))))))"

definition PyType_Ready :: "exec_env \<Rightarrow> string \<Rightarrow> mstate \<Rightarrow> int \<times> mstate" where
  "PyType_Ready E type s = (if ex_ready E type then (0, s) else (- 1, ms_raise s))"

definition PyModule_AddObjectRef :: "exec_env \<Rightarrow> string \<Rightarrow> nat \<Rightarrow> mstate \<Rightarrow> int \<times> mstate" where
  "PyModule_AddObjectRef E name ob s =
     (if ex_add E name then (0, ms_on_heap (py_incref ob) (s\<lparr>ms_module := ms_module s @ [(name, ob)]\<rparr>)) else (- 1, ms_raise s))"

text \<open>An enumeration is made and added; \<^verbatim>\<open>PyModule_AddObject\<close> takes the reference over when it succeeds.\<close>

definition add_enum :: "exec_env \<Rightarrow> string \<Rightarrow> (mstate \<Rightarrow> nat option \<times> mstate) \<Rightarrow> mstate \<Rightarrow> int \<times> mstate" where
  "add_enum E name create s =
     (case create s of
        (None, s1) \<Rightarrow> (- 1, s1)
      | (Some c, s1) \<Rightarrow>
          if ex_add E name then (0, s1\<lparr>ms_module := ms_module s1 @ [(name, c)]\<rparr>)
          else (- 1, ms_on_heap (py_decref c) (ms_raise s1)))"

fun run_steps :: "(mstate \<Rightarrow> int \<times> mstate) list \<Rightarrow> mstate \<Rightarrow> int \<times> mstate" where
  "run_steps [] s = (0, s)"
| "run_steps (f # fs) s = (case f s of (r, s1) \<Rightarrow> if r < 0 then (- 1, s1) else run_steps fs s1)"

definition module_steps :: "py_modules \<Rightarrow> exec_env \<Rightarrow> nat \<Rightarrow> (mstate \<Rightarrow> int \<times> mstate) list" where
  "module_steps M E type =
    [PyType_Ready E ''Socket'', PyType_Ready E ''File'', PyType_Ready E ''BufferModeCtx'',
     PyType_Ready E ''StreamStrategyCtx'', PyType_Ready E ''TransferModeCtx'', PyType_Ready E ''ExecutionContextCtx'',
     PyModule_AddObjectRef E ''UringioLoop'' type,
     PyModule_AddObjectRef E ''File'' (ex_type E ''File''),
     PyModule_AddObjectRef E ''Socket'' (ex_type E ''Socket''),
     PyModule_AddObjectRef E ''BufferModeCtx'' (ex_type E ''BufferModeCtx''),
     PyModule_AddObjectRef E ''StreamStrategyCtx'' (ex_type E ''StreamStrategyCtx''),
     PyModule_AddObjectRef E ''TransferModeCtx'' (ex_type E ''TransferModeCtx''),
     PyModule_AddObjectRef E ''ExecutionContextCtx'' (ex_type E ''ExecutionContextCtx''),
     add_enum E ''ResolveFlags'' (create_resolve_enum M),
     add_enum E ''StatxFlags'' (create_statx_flags_enum M),
     add_enum E ''StatxMask'' (create_statx_mask_enum M),
     add_enum E ''BUFFER_MODE'' (create_buffer_mode_enum M),
     add_enum E ''STREAM_STRATEGY'' (create_stream_strategy_enum M),
     add_enum E ''TRANSFER_MODE'' (create_transfer_mode_enum M),
     add_enum E ''PAYLOAD_TYPE'' (create_payload_type_enum M)]"

definition uringio_module_exec :: "py_modules \<Rightarrow> exec_env \<Rightarrow> mstate \<Rightarrow> int \<times> mstate" where
  "uringio_module_exec M E s =
     (case make_loop_type M s of
        (None, s1) \<Rightarrow> (- 1, s1)
      | (Some type, s1) \<Rightarrow> run_steps (module_steps M E type) (s1\<lparr>ms_loop_type := Some type\<rparr>))"

section \<open>What a step publishes\<close>

text \<open>
  An entry of the module: its name and, for an enumeration, its class. A step that returns 0 has appended its entries; one
  that returns -1 has raised and appended the first of them, possibly none. In either case the counts stay
  positive where the interpreter holds a reference, nothing faults, and a class that was there is unchanged.
\<close>

type_synonym entry = "string \<times> (string \<times> (string \<times> int) list) option"

definition bound_to :: "mstate \<Rightarrow> entry \<Rightarrow> string \<times> nat \<Rightarrow> bool" where
  "bound_to s e b \<longleftrightarrow> fst b = fst e \<and> snd b < h_next (ms_heap s) \<and> (case snd e of None \<Rightarrow> True | Some cl \<Rightarrow> ms_class s (snd b) = cl)"

definition env_ok :: "py_modules \<Rightarrow> exec_env \<Rightarrow> nat option \<Rightarrow> mstate \<Rightarrow> bool" where
  "env_ok M E type s \<longleftrightarrow>
     interp_ok M s \<and> (\<forall>n. ex_type E n < h_next (ms_heap s) \<and> 0 \<le> h_ref (ms_heap s) (ex_type E n)) \<and>
     (\<forall>t. type = Some t \<longrightarrow> t < h_next (ms_heap s) \<and> 0 \<le> h_ref (ms_heap s) t)"

definition goes_on :: "mstate \<Rightarrow> mstate \<Rightarrow> bool" where
  "goes_on s s' \<longleftrightarrow>
     h_next (ms_heap s) \<le> h_next (ms_heap s') \<and> h_oom (ms_heap s') = h_oom (ms_heap s) \<and> h_faults (ms_heap s') = h_faults (ms_heap s) \<and>
     (\<forall>c < h_next (ms_heap s). ms_class s' c = ms_class s c)"

definition all_found :: "py_modules \<Rightarrow> exec_env \<Rightarrow> mstate \<Rightarrow> bool" where
  "all_found M E s \<longleftrightarrow>
     None \<notin> {pm_enum M, pm_IntEnum M, pm_IntFlag M, pm_asyncio M, pm_BaseEventLoop M} \<and>
     (\<forall>n. ex_ready E n \<and> ex_add E n) \<and> (\<forall>k. \<not> h_oom (ms_heap s) k)"

definition publishes :: "py_modules \<Rightarrow> exec_env \<Rightarrow> nat option \<Rightarrow> (mstate \<Rightarrow> int \<times> mstate) \<Rightarrow> entry list \<Rightarrow> bool" where
  "publishes M E type f es \<longleftrightarrow>
     (\<forall>s r s'. env_ok M E type s \<longrightarrow> f s = (r, s') \<longrightarrow>
        env_ok M E type s' \<and> goes_on s s' \<and> (r = 0 \<or> r = - 1 \<and> w_err (ms_w s') \<noteq> None) \<and>
        (\<exists>n bs. ms_module s' = ms_module s @ bs \<and> list_all2 (bound_to s') (take n es) bs \<and> (r = 0 \<longrightarrow> length es \<le> n)) \<and>
        (all_found M E s \<longrightarrow> r = 0))"

lemma publishesD:
  assumes "publishes M E type f es" and "env_ok M E type s" and "f s = (r, s')"
  shows "env_ok M E type s'" and "goes_on s s'" and "r = 0 \<or> r = - 1 \<and> w_err (ms_w s') \<noteq> None"
    and "all_found M E s \<Longrightarrow> r = 0"
    and "\<exists>n bs. ms_module s' = ms_module s @ bs \<and> list_all2 (bound_to s') (take n es) bs \<and> (r = 0 \<longrightarrow> length es \<le> n)"
  using assms unfolding publishes_def by blast+

lemma goes_on_trans: "goes_on s s1 \<Longrightarrow> goes_on s1 s2 \<Longrightarrow> goes_on s s2"
  by (auto simp: goes_on_def)

lemma bound_to_later: "goes_on s s' \<Longrightarrow> bound_to s e b \<Longrightarrow> bound_to s' e b"
  by (auto simp: goes_on_def bound_to_def split: option.splits)

lemma all_found_later: "goes_on s s' \<Longrightarrow> all_found M E s \<Longrightarrow> all_found M E s'"
  by (simp add: goes_on_def all_found_def)

lemma publishes_nil: "publishes M E type (run_steps []) []"
  by (auto simp: publishes_def goes_on_def)

lemma publishes_cons:
  assumes f: "publishes M E type f es" and fs: "publishes M E type (run_steps fs) es'"
  shows "publishes M E type (run_steps (f # fs)) (es @ es')"
  unfolding publishes_def
proof (intro allI impI)
  fix s r s'
  assume env: "env_ok M E type s" and r: "run_steps (f # fs) s = (r, s')"
  obtain r1 s1 where f1: "f s = (r1, s1)" by force
  note d = publishesD [OF f env f1]
  obtain n bs where n: "ms_module s1 = ms_module s @ bs" "list_all2 (bound_to s1) (take n es) bs" "r1 = 0 \<longrightarrow> length es \<le> n"
    using d(5) by blast
  show "env_ok M E type s' \<and> goes_on s s' \<and> (r = 0 \<or> r = - 1 \<and> w_err (ms_w s') \<noteq> None) \<and>
        (\<exists>n bs. ms_module s' = ms_module s @ bs \<and> list_all2 (bound_to s') (take n (es @ es')) bs \<and> (r = 0 \<longrightarrow> length (es @ es') \<le> n)) \<and>
        (all_found M E s \<longrightarrow> r = 0)"
  proof (cases "r1 < 0")
    case True
    then have e: "r = - 1" "s' = s1" using r f1 by auto
    have "take (min n (length es)) (es @ es') = take n es" by (simp add: min_def)
    then have "\<exists>n bs. ms_module s' = ms_module s @ bs \<and> list_all2 (bound_to s') (take n (es @ es')) bs \<and> (r = 0 \<longrightarrow> length (es @ es') \<le> n)"
      using n e by (intro exI [of _ "min n (length es)"] exI [of _ bs]) simp
    then show ?thesis using d(1-4) e True by auto
  next
    case False
    then have r1: "r1 = 0" and g: "run_steps fs s1 = (r, s')" using d(3) r f1 by auto
    note d' = publishesD [OF fs d(1) g]
    obtain k bs' where k: "ms_module s' = ms_module s1 @ bs'" "list_all2 (bound_to s') (take k es') bs'" "r = 0 \<longrightarrow> length es' \<le> k"
      using d'(5) by blast
    have "list_all2 (bound_to s') es bs" using n(2,3) r1 bound_to_later [OF d'(2)] by (auto elim: list_all2_mono)
    then have "list_all2 (bound_to s') (take (length es + k) (es @ es')) (bs @ bs')" using k(2) by (simp add: list_all2_appendI)
    then show ?thesis
      using d' goes_on_trans [OF d(2)] all_found_later [OF d(2)] n(1) k
      by (intro conjI exI [of _ "length es + k"] exI [of _ "bs @ bs'"]) auto
  qed
qed

lemma ms_raise_fields [simp]:
  "ms_heap (ms_raise s) = ms_heap s" "ms_class (ms_raise s) = ms_class s" "ms_module (ms_raise s) = ms_module s"
  "w_err (ms_w (ms_raise s)) = Some CalleeError"
  by (simp_all add: ms_raise_def set_err_def)

lemma env_ok_refs:
  assumes env: "env_ok M E type s" and "h_next (ms_heap s) \<le> h_next (ms_heap s')"
    and "\<And>ob. ob < h_next (ms_heap s) \<Longrightarrow> h_ref (ms_heap s') ob = h_ref (ms_heap s) ob"
  shows "env_ok M E type s'"
proof -
  have k: "ob < h_next (ms_heap s') \<and> h_ref (ms_heap s') ob = h_ref (ms_heap s) ob" if "ob < h_next (ms_heap s)" for ob
    using assms(2,3) that by fastforce
  show ?thesis using env k unfolding env_ok_def interp_ok_def by metis
qed

lemma publishes_ready: "publishes M E type (PyType_Ready E n) []"
  by (auto simp: publishes_def PyType_Ready_def env_ok_def interp_ok_def goes_on_def all_found_def)

lemma publishes_add:
  assumes "ob = ex_type E n' \<or> type = Some ob"
  shows "publishes M E type (PyModule_AddObjectRef E n ob) [(n, None)]"
  unfolding publishes_def
proof (intro allI impI)
  fix s r s'
  assume env: "env_ok M E type s" and r: "PyModule_AddObjectRef E n ob s = (r, s')"
  have ob: "ob < h_next (ms_heap s)" using assms env by (auto simp: env_ok_def)
  show "env_ok M E type s' \<and> goes_on s s' \<and> (r = 0 \<or> r = - 1 \<and> w_err (ms_w s') \<noteq> None) \<and>
        (\<exists>k bs. ms_module s' = ms_module s @ bs \<and> list_all2 (bound_to s') (take k [(n, None)]) bs \<and> (r = 0 \<longrightarrow> length [(n, None)] \<le> k)) \<and>
        (all_found M E s \<longrightarrow> r = 0)"
  proof (cases "ex_add E n")
    case True
    then have r0: "r = 0" and s': "s' = ms_on_heap (py_incref ob) (s\<lparr>ms_module := ms_module s @ [(n, ob)]\<rparr>)"
      using r by (simp_all add: PyModule_AddObjectRef_def)
    have "bound_to s' (n, None) (n, ob)" using ob by (simp add: bound_to_def s')
    then have "\<exists>k bs. ms_module s' = ms_module s @ bs \<and> list_all2 (bound_to s') (take k [(n, None)]) bs \<and> (r = 0 \<longrightarrow> length [(n, None)] \<le> k)"
      by (intro exI [of _ 1] exI [of _ "[(n, ob)]"]) (simp add: s')
    moreover have "env_ok M E type s'" using env by (auto simp: env_ok_def interp_ok_def s')
    ultimately show ?thesis by (simp add: r0 goes_on_def s')
  next
    case False
    then have r1: "r = - 1" and s': "s' = ms_raise s" using r by (simp_all add: PyModule_AddObjectRef_def)
    have "env_ok M E type s'" using env by (simp add: env_ok_def interp_ok_def s')
    moreover have "\<exists>k bs. ms_module s' = ms_module s @ bs \<and> list_all2 (bound_to s') (take k [(n, None)]) bs \<and> (r = 0 \<longrightarrow> length [(n, None)] \<le> k)"
      by (intro exI [of _ 0] exI [of _ "[]"]) (simp add: s' r1)
    ultimately show ?thesis using False by (auto simp: goes_on_def s' r1 all_found_def)
  qed
qed

lemma publishes_enum:
  assumes c: "create = create_enum base name fmt args M" and b: "base M \<in> {pm_IntEnum M, pm_IntFlag M}"
    and d: "build_dict fmt args = Some items"
  shows "publishes M E type (add_enum E n create) [(n, Some (name, items))]"
  unfolding publishes_def
proof (intro allI impI)
  fix s r s'
  assume env: "env_ok M E type s" and r: "add_enum E n create s = (r, s')"
  obtain q s1 where cr: "create_enum base name fmt args M s = (q, s1)" by force
  have ok: "interp_ok M s" using env by (simp add: env_ok_def)
  note eff = create_enum_effect [OF ok b d cr]
  have keep: "refs_kept s s1" using eff by blast
  have env1: "env_ok M E type s1" using env_ok_refs [OF env, of s1] keep by (simp add: refs_kept_def)
  have go: "goes_on s s1" using keep by (simp add: refs_kept_def goes_on_def)
  have none: "\<exists>k bs. ms_module s1 = ms_module s @ bs \<and> list_all2 (bound_to s') (take k [(n, Some (name, items))]) bs \<and>
      (- 1 = (0::int) \<longrightarrow> length [(n, Some (name, items))] \<le> k)"
    using keep by (intro exI [of _ 0] exI [of _ "[]"]) (simp add: refs_kept_def)
  show "env_ok M E type s' \<and> goes_on s s' \<and> (r = 0 \<or> r = - 1 \<and> w_err (ms_w s') \<noteq> None) \<and>
        (\<exists>k bs. ms_module s' = ms_module s @ bs \<and> list_all2 (bound_to s') (take k [(n, Some (name, items))]) bs \<and>
           (r = 0 \<longrightarrow> length [(n, Some (name, items))] \<le> k)) \<and>
        (all_found M E s \<longrightarrow> r = 0)"
  proof (cases q)
    case None
    then have "r = - 1" "s' = s1" using r cr c by (simp_all add: add_enum_def)
    moreover have "\<not> all_found M E s" using eff None b by (auto simp: all_found_def)
    ultimately show ?thesis using env1 go none eff None by simp
  next
    case (Some ob)
    have ob: "h_next (ms_heap s) \<le> ob" "ob < h_next (ms_heap s1)" "h_ref (ms_heap s1) ob = 1" "ms_class s1 ob = (name, items)"
      using eff Some by simp_all
    show ?thesis
    proof (cases "ex_add E n")
      case True
      then have r0: "r = 0" and s': "s' = s1\<lparr>ms_module := ms_module s1 @ [(n, ob)]\<rparr>"
        using r cr c Some by (simp_all add: add_enum_def)
      have "bound_to s' (n, Some (name, items)) (n, ob)" using ob by (simp add: bound_to_def s')
      then have "\<exists>k bs. ms_module s' = ms_module s @ bs \<and> list_all2 (bound_to s') (take k [(n, Some (name, items))]) bs \<and>
           (r = 0 \<longrightarrow> length [(n, Some (name, items))] \<le> k)"
        using keep by (intro exI [of _ 1] exI [of _ "[(n, ob)]"]) (simp add: s' refs_kept_def)
      moreover have "env_ok M E type s'" "goes_on s s'" using env1 go by (simp_all add: env_ok_def interp_ok_def goes_on_def s')
      ultimately show ?thesis by (simp add: r0)
    next
      case False
      then have r1: "r = - 1" and s': "s' = ms_on_heap (py_decref ob) (ms_raise s1)"
        using r cr c Some by (simp_all add: add_enum_def)
      have "env_ok M E type s'" using env_ok_refs [OF env, of s'] keep ob by (simp add: refs_kept_def s')
      moreover have "goes_on s s'" using go ob by (simp add: goes_on_def s')
      moreover have "\<not> all_found M E s" using False by (auto simp: all_found_def)
      ultimately show ?thesis using keep
        by (auto simp: r1 s' refs_kept_def intro!: exI [of _ 0] exI [of _ "[]"])
    qed
  qed
qed

lemma make_loop_type_effect:
  assumes env: "env_ok M E None s" and r: "make_loop_type M s = (q, s')"
  shows "goes_on s s' \<and> ms_module s' = ms_module s \<and>
    (case q of
       None \<Rightarrow> w_err (ms_w s') \<noteq> None \<and> (\<forall>ob < h_next (ms_heap s). h_ref (ms_heap s') ob = h_ref (ms_heap s) ob)
     | Some t \<Rightarrow> env_ok M E (Some t) s') \<and>
    (all_found M E s \<longrightarrow> q \<noteq> None)"
proof (cases "pm_asyncio M")
  case None
  then show ?thesis using r env
    by (auto simp: make_loop_type_def ms_lookup_def goes_on_def all_found_def env_ok_def)
next
  case (Some a)
  have a: "0 < h_ref (ms_heap s) a" "a < h_next (ms_heap s)" using env Some by (auto simp: env_ok_def interp_ok_def)
  show ?thesis
  proof (cases "pm_BaseEventLoop M")
    case None
    then show ?thesis using r Some a
      by (auto simp: make_loop_type_def ms_lookup_def goes_on_def all_found_def ms_raise_def set_err_def ms_on_heap_def on_heap_def)
  next
    case (Some b)
    have b: "0 < h_ref (ms_heap s) b" "b < h_next (ms_heap s)" using env Some by (auto simp: env_ok_def interp_ok_def)
    define n where "n = h_next (ms_heap s)"
    have old: "goes_on s s' \<and> ms_module s' = ms_module s \<and>
        (q = None \<longrightarrow> w_err (ms_w s') \<noteq> None \<and> (\<forall>ob < n. h_ref (ms_heap s') ob = h_ref (ms_heap s) ob)) \<and>
        (\<forall>t. q = Some t \<longrightarrow> t < h_next (ms_heap s') \<and> h_ref (ms_heap s') t = 1 \<and>
           (\<forall>ob < n. h_ref (ms_heap s') ob = (if ob = b then h_ref (ms_heap s) b + 1 else h_ref (ms_heap s) ob))) \<and>
        (all_found M E s \<longrightarrow> q \<noteq> None)"
      using r Some \<open>pm_asyncio M = Some a\<close> a b
      by (auto simp: make_loop_type_def ms_lookup_def ms_new_def py_new_def drop_tuple_def set_err_def goes_on_def all_found_def
          ms_on_heap_def on_heap_def n_def Let_def split: if_splits)
    have "env_ok M E (Some t) s'" if "q = Some t" for t
    proof -
      have k: "ob < h_next (ms_heap s') \<and> h_ref (ms_heap s) ob \<le> h_ref (ms_heap s') ob" if "ob < n" for ob
        using old \<open>q = Some t\<close> that by (auto simp: goes_on_def n_def)
      have "interp_ok M s'" using env k unfolding env_ok_def interp_ok_def n_def by (meson order_less_le_trans)
      moreover have "ex_type E m < h_next (ms_heap s') \<and> 0 \<le> h_ref (ms_heap s') (ex_type E m)" for m
        using env k unfolding env_ok_def n_def by (meson order_trans)
      ultimately show ?thesis using old that by (simp add: env_ok_def)
    qed
    then show ?thesis using old unfolding n_def by (auto split: option.split)
  qed
qed

text \<open>The entries of the module, in the order they are added.\<close>

definition module_entries :: "entry list" where
  "module_entries =
     map (\<lambda>n. (n, None)) [''UringioLoop'', ''File'', ''Socket'', ''BufferModeCtx'', ''StreamStrategyCtx'', ''TransferModeCtx'',
       ''ExecutionContextCtx''] @
     [(''ResolveFlags'', Some (''ResolveFlags'',
         [(''NO_XDEV'', 1), (''NO_MAGICLINKS'', 2), (''NO_SYMLINKS'', 4), (''BENEATH'', 8), (''IN_ROOT'', 16), (''CACHED'', 32)])),
      (''StatxFlags'', Some (''StatxFlags'',
         [(''EMPTY_PATH'', 0x1000), (''SYMLINK_NOFOLLOW'', 0x100), (''NO_AUTOMOUNT'', 0x800), (''STATX_SYNC_AS_STAT'', 0),
          (''STATX_FORCE_SYNC'', 0x2000)])),
      (''StatxMask'', Some (''StatxMask'',
         [(''TYPE'', 1), (''MODE'', 2), (''NLINK'', 4), (''UID'', 8), (''GID'', 0x10), (''ATIME'', 0x20), (''MTIME'', 0x40),
          (''CTIME'', 0x80), (''INO'', 0x100), (''SIZE'', 0x200), (''BLOCKS'', 0x400), (''BASIC_STATS'', 0x7ff)])),
      (''BUFFER_MODE'', Some (''BUFFER_MODE'', [(''NORMAL'', 0), (''FIXED'', 1), (''PROVIDED'', 2), (''BUF_RING'', 3)])),
      (''STREAM_STRATEGY'', Some (''STREAM_STRATEGY'', [(''ONESHOT'', 0), (''MULTISHOT'', 1)])),
      (''TRANSFER_MODE'', Some (''TRANSFER_MODE'', [(''NORMAL'', 0), (''ZERO_COPY'', 1)])),
      (''PAYLOAD_TYPE'', Some (''PAYLOAD_TYPE'', [(''LINEAR'', 0), (''IOVEC'', 1), (''LINEAR_AND_IOVEC'', 2)]))]"

lemmas enum_functions = create_resolve_enum_def create_statx_flags_enum_def create_statx_mask_enum_def create_buffer_mode_enum_def
  create_stream_strategy_enum_def create_transfer_mode_enum_def create_payload_type_enum_def

lemma publishes_consI:
  "publishes M E type f es \<Longrightarrow> publishes M E type (run_steps fs) es' \<Longrightarrow> all = es @ es' \<Longrightarrow> publishes M E type (run_steps (f # fs)) all"
  by (simp add: publishes_cons)

lemmas publish_steps = publishes_consI [OF publishes_ready] publishes_consI [OF publishes_add [OF disjI2]]
  publishes_consI [OF publishes_add [OF disjI1]] publishes_consI [OF publishes_enum]

lemma steps_publish: "publishes M E (Some type) (run_steps (module_steps M E type)) module_entries"
  unfolding module_steps_def module_entries_def enum_functions
  by (rule publish_steps(1), rule publish_steps(1), rule publish_steps(1), rule publish_steps(1), rule publish_steps(1), rule publish_steps(1),
      rule publish_steps(2), rule refl, rule publish_steps(3), rule refl, rule publish_steps(3), rule refl, rule publish_steps(3), rule refl,
      rule publish_steps(3), rule refl, rule publish_steps(3), rule refl, rule publish_steps(3), rule refl,
      (rule publish_steps(4), rule refl, simp, simp add: build_dict_def)+, rule publishes_nil) simp_all

text \<open>
  C28. Importing the module either fails with an exception and -1, or binds exactly the names of \<open>module_entries\<close>, in that order,
  each enumeration to a class with exactly the listed members; it succeeds when every import and every call does.
  No count goes wrong on any path, and what was bound before a failure is a prefix of the entries.
\<close>

theorem module_exec_publishes:
  assumes env: "env_ok M E None s" and r: "uringio_module_exec M E s = (r, s')"
  shows "(r = 0 \<or> r = - 1 \<and> w_err (ms_w s') \<noteq> None) \<and> h_faults (ms_heap s') = h_faults (ms_heap s) \<and>
    (\<exists>n bs. ms_module s' = ms_module s @ bs \<and> list_all2 (bound_to s') (take n module_entries) bs \<and>
       (r = 0 \<longrightarrow> length module_entries \<le> n)) \<and>
    (all_found M E s \<longrightarrow> r = 0)"
proof -
  obtain q s1 where m: "make_loop_type M s = (q, s1)" by force
  note eff = make_loop_type_effect [OF env m]
  show ?thesis
  proof (cases q)
    case None
    then have "r = - 1" "s' = s1" using r m by (simp_all add: uringio_module_exec_def)
    then show ?thesis using eff None by (auto simp: goes_on_def intro!: exI [of _ 0])
  next
    case (Some type)
    let ?s2 = "s1\<lparr>ms_loop_type := Some type\<rparr>"
    have env2: "env_ok M E (Some type) ?s2" and go: "goes_on s ?s2"
      using eff Some by (simp_all add: env_ok_def interp_ok_def goes_on_def)
    have "run_steps (module_steps M E type) ?s2 = (r, s')" using r m Some by (simp add: uringio_module_exec_def)
    note d = publishesD [OF steps_publish env2 this]
    show ?thesis
      using d goes_on_trans [OF go d(2)] all_found_later [OF go] eff by (auto simp: goes_on_def)
  qed
qed

text \<open>An environment in which no call fails.\<close>

definition env_model :: exec_env where
  "env_model = \<lparr>ex_type = (\<lambda>_. 6), ex_ready = (\<lambda>_. True), ex_add = (\<lambda>_. True)\<rparr>"

theorem module_exec_publishes_witness:
  "fst (uringio_module_exec modules_model env_model import_state) = 0 \<and>
   map fst (ms_module (snd (uringio_module_exec modules_model env_model import_state))) = map fst module_entries"
proof -
  obtain r s' where e: "uringio_module_exec modules_model env_model import_state = (r, s')" by force
  have env: "env_ok modules_model env_model None import_state"
    by (auto simp: env_ok_def interp_ok_def modules_model_def env_model_def import_state_def init_world_def)
  have "all_found modules_model env_model import_state"
    by (simp add: all_found_def modules_model_def env_model_def import_state_def init_world_def init_heap_def)
  with module_exec_publishes [OF env e] obtain bs where r: "r = 0" and b: "ms_module s' = bs" "list_all2 (bound_to s') module_entries bs"
    by (auto simp: import_state_def)
  have "map fst bs = map fst module_entries"
    using b(2) by (induction rule: list_all2_induct) (simp_all add: bound_to_def)
  then show ?thesis using e r b by simp
qed

end
