(* ===== verification/Object_Types.thy ===== *)
theory Object_Types
  imports Loop_Run Module_Init
begin

text \<open>
  The types of the objects of the module: the method tables of \<^verbatim>\<open>src/uringio_init.c\<close>, and the slots the garbage collector
  calls on files and sockets. An entry of a table is the name of the method, the name of the C function, and the
  calling convention.

  A file or socket holds a reference to its loop; \<open>ob_loop\<close> is that field.
\<close>

section \<open>Method tables\<close>

datatype calling = VARARGS_KEYWORDS | VARARGS | NOARGS

type_synonym PyMethodDef = "string \<times> string \<times> calling"

definition uringio_module_methods :: "PyMethodDef list" where
  "uringio_module_methods =
     [(''timer'', ''UringioLoop_timer'', VARARGS_KEYWORDS),
      (''open_file'', ''Uringio_open'', VARARGS_KEYWORDS),
      (''prep_socket'', ''Uringio_prep_socket'', VARARGS_KEYWORDS)]"

definition uringio_loop_methods :: "PyMethodDef list" where
  "uringio_loop_methods =
     [(''close'', ''UringioLoop_close'', VARARGS),
      (''buffer_mode'', ''UringioLoop_buffer_mode'', VARARGS_KEYWORDS),
      (''stream_strategy'', ''UringioLoop_stream_strategy'', VARARGS_KEYWORDS),
      (''transfer_mode'', ''UringioLoop_transfer_mode'', VARARGS_KEYWORDS),
      (''execution_context'', ''UringioLoop_execution_context'', VARARGS_KEYWORDS),
      (''_run_once'', ''UringioLoop_run_once'', NOARGS),
      (''_write_to_self'', ''UringioLoop_write_to_self'', NOARGS)]"

definition uringio_socket_methods :: "PyMethodDef list" where
  "uringio_socket_methods =
     [(''bind'', ''UringioSocket_bind'', VARARGS_KEYWORDS),
      (''connect'', ''UringioSocket_connect'', VARARGS_KEYWORDS),
      (''listen'', ''UringioSocket_listen'', VARARGS_KEYWORDS),
      (''accept'', ''UringioSocket_accept'', VARARGS_KEYWORDS),
      (''close'', ''UringioSocket_close'', VARARGS_KEYWORDS),
      (''send'', ''UringioSocket_send'', VARARGS_KEYWORDS),
      (''recv'', ''UringioSocket_recv'', VARARGS_KEYWORDS),
      (''sendto'', ''UringioSocket_sendto'', VARARGS_KEYWORDS),
      (''recvfrom'', ''UringioSocket_recvfrom'', VARARGS_KEYWORDS),
      (''sendmsg'', ''UringioSocket_sendmsg'', VARARGS_KEYWORDS),
      (''recvmsg'', ''UringioSocket_recvmsg'', VARARGS_KEYWORDS),
      (''__aenter__'', ''UringioSocket_aenter'', NOARGS),
      (''__aexit__'', ''UringioSocket_aexit'', VARARGS_KEYWORDS)]"

definition uringio_file_methods :: "PyMethodDef list" where
  "uringio_file_methods =
     [(''read'', ''UringioFile_read'', VARARGS_KEYWORDS),
      (''readv'', ''UringioFile_readv'', VARARGS_KEYWORDS),
      (''readv_raw'', ''UringioFile_readv_raw'', VARARGS_KEYWORDS),
      (''write'', ''UringioFile_write'', VARARGS_KEYWORDS),
      (''writev'', ''UringioFile_writev'', VARARGS_KEYWORDS),
      (''writev_raw'', ''UringioFile_writev_raw'', VARARGS_KEYWORDS),
      (''close'', ''UringioFile_close'', VARARGS_KEYWORDS),
      (''fsync'', ''UringioFile_fsync'', VARARGS_KEYWORDS),
      (''fdatasync'', ''UringioFile_fdatasync'', VARARGS_KEYWORDS),
      (''splice'', ''UringioFile_splice'', VARARGS_KEYWORDS),
      (''__aenter__'', ''UringioFile_aenter'', NOARGS),
      (''__aexit__'', ''UringioFile_aexit'', VARARGS_KEYWORDS)]"

definition uringio_buffer_mode_ctx_methods :: "PyMethodDef list" where
  "uringio_buffer_mode_ctx_methods =
     [(''__enter__'', ''BufferModeCtx_enter'', NOARGS),
      (''__exit__'', ''BufferModeCtx_exit'', VARARGS)]"

definition uringio_stream_strategy_ctx_methods :: "PyMethodDef list" where
  "uringio_stream_strategy_ctx_methods =
     [(''__enter__'', ''StreamStrategyCtx_enter'', NOARGS),
      (''__exit__'', ''StreamStrategyCtx_exit'', VARARGS)]"

definition uringio_transfer_mode_ctx_methods :: "PyMethodDef list" where
  "uringio_transfer_mode_ctx_methods =
     [(''__enter__'', ''TransferModeCtx_enter'', NOARGS),
      (''__exit__'', ''TransferModeCtx_exit'', VARARGS)]"

definition uringio_execution_context_ctx_methods :: "PyMethodDef list" where
  "uringio_execution_context_ctx_methods =
     [(''__enter__'', ''ExecutionContextCtx_enter'', NOARGS),
      (''__exit__'', ''ExecutionContextCtx_exit'', VARARGS)]"

text \<open>The table, the method and the C function of each call of the system.\<close>

fun file_call_name :: "file_call \<Rightarrow> string" where
  "file_call_name (Call_close _) = ''close''"
| "file_call_name (Call_read _) = ''read''"
| "file_call_name (Call_readv _) = ''readv''"
| "file_call_name (Call_readv_raw _) = ''readv_raw''"
| "file_call_name (Call_write _) = ''write''"
| "file_call_name (Call_writev _) = ''writev''"
| "file_call_name (Call_writev_raw _) = ''writev_raw''"
| "file_call_name (Call_fsync _) = ''fsync''"
| "file_call_name (Call_fdatasync _) = ''fdatasync''"
| "file_call_name (Call_splice _) = ''splice''"

fun socket_call_name :: "socket_call \<Rightarrow> string" where
  "socket_call_name (Sock_bind _) = ''bind''"
| "socket_call_name (Sock_connect _) = ''connect''"
| "socket_call_name (Sock_listen _) = ''listen''"
| "socket_call_name (Sock_accept _) = ''accept''"
| "socket_call_name (Sock_close _) = ''close''"
| "socket_call_name (Sock_send _) = ''send''"
| "socket_call_name (Sock_recv _) = ''recv''"
| "socket_call_name (Sock_sendto _) = ''sendto''"
| "socket_call_name (Sock_recvfrom _) = ''recvfrom''"
| "socket_call_name (Sock_sendmsg _) = ''sendmsg''"
| "socket_call_name (Sock_recvmsg _) = ''recvmsg''"

fun call_entry :: "call \<Rightarrow> PyMethodDef list \<times> string \<times> string" where
  "call_entry (Call_file _ c) = (uringio_file_methods, file_call_name c, ''UringioFile_'' @ file_call_name c)"
| "call_entry (Call_open _ _) = (uringio_module_methods, ''open_file'', ''Uringio_open'')"
| "call_entry (Call_sock _ c) = (uringio_socket_methods, socket_call_name c, ''UringioSocket_'' @ socket_call_name c)"
| "call_entry (Call_socket _ _) = (uringio_module_methods, ''prep_socket'', ''Uringio_prep_socket'')"
| "call_entry (Call_timer _) = (uringio_module_methods, ''timer'', ''UringioLoop_timer'')"
| "call_entry (Call_file_exit _ _) = (uringio_file_methods, ''__aexit__'', ''UringioFile_aexit'')"
| "call_entry (Call_sock_exit _ _) = (uringio_socket_methods, ''__aexit__'', ''UringioSocket_aexit'')"

text \<open>The interpreter finds a method by its name: the first entry of the table.\<close>

definition lookup_method :: "PyMethodDef list \<Rightarrow> string \<Rightarrow> (string \<times> calling) option" where
  "lookup_method table n = map_of table n"

lemmas method_tables = uringio_module_methods_def uringio_file_methods_def uringio_socket_methods_def

text \<open>The calls of the system are what the tables give access to, under keywords as well as by position.\<close>

lemma tables_reach_calls:
  "case call_entry c of (table, n, f) \<Rightarrow> lookup_method table n = Some (f, VARARGS_KEYWORDS)"
proof (cases c)
  case (Call_file self d)
  then show ?thesis by (cases d) (simp_all add: lookup_method_def method_tables)
next
  case (Call_sock self d)
  then show ?thesis by (cases d) (simp_all add: lookup_method_def method_tables)
qed (simp_all add: lookup_method_def method_tables)

section \<open>Slots of files and sockets\<close>

record object_state =
  ob_w :: world
  ob_loop :: "nat \<Rightarrow> nat option"

text \<open>What \<^verbatim>\<open>tp_traverse\<close> visits.\<close>

definition UringioFile_traverse :: "nat \<Rightarrow> object_state \<Rightarrow> nat list" where
  "UringioFile_traverse self s = (case ob_loop s self of None \<Rightarrow> [] | Some l \<Rightarrow> [l])"

definition UringioSocket_traverse :: "nat \<Rightarrow> object_state \<Rightarrow> nat list" where
  "UringioSocket_traverse self s = (case ob_loop s self of None \<Rightarrow> [] | Some l \<Rightarrow> [l])"

definition clear_loop :: "nat \<Rightarrow> object_state \<Rightarrow> object_state" where
  "clear_loop self s =
     (case ob_loop s self of
        None \<Rightarrow> s
      | Some l \<Rightarrow> s\<lparr>ob_loop := (ob_loop s)(self := None), ob_w := on_heap (py_decref l) (ob_w s)\<rparr>)"

definition UringioFile_clear :: "nat \<Rightarrow> object_state \<Rightarrow> int \<times> object_state" where
  "UringioFile_clear self s = (0, clear_loop self s)"

definition UringioSocket_clear :: "nat \<Rightarrow> object_state \<Rightarrow> int \<times> object_state" where
  "UringioSocket_clear self s = (0, clear_loop self s)"

text \<open>The memory of the object itself goes back to the interpreter; the descriptor stays open.\<close>

definition UringioFile_dealloc :: "nat \<Rightarrow> object_state \<Rightarrow> object_state" where
  "UringioFile_dealloc self s = snd (UringioFile_clear self (s\<lparr>ob_w := set_file_closed True self (ob_w s)\<rparr>))"

definition UringioSocket_dealloc :: "nat \<Rightarrow> object_state \<Rightarrow> object_state" where
  "UringioSocket_dealloc self s =
     (let w = ob_w s;
          w1 = w\<lparr>w_socks := (w_socks w)(self := (w_socks w self)\<lparr>us_closed := True\<rparr>)\<rparr>;
          w2 = (case us_addr (w_socks w self) of
                  None \<Rightarrow> w1
                | Some a \<Rightarrow>
                    on_heap (c_free (Some a))
                      (w1\<lparr>w_socks := (w_socks w1)(self := (w_socks w1 self)\<lparr>us_addr := None\<rparr>)\<rparr>))
      in snd (UringioSocket_clear self (s\<lparr>ob_w := w2\<rparr>)))"

text \<open>What clearing an object drops is what the traversal visits, and clearing it again drops nothing.\<close>

lemma clear_loop_drops:
  assumes "\<forall>l \<in> set (UringioFile_traverse self s). 0 < h_ref (w_heap (ob_w s)) l"
  shows "h_ref (w_heap (ob_w (clear_loop self s))) ob =
      h_ref (w_heap (ob_w s)) ob - int (count_list (UringioFile_traverse self s) ob)"
    and "clear_loop self (clear_loop self s) = clear_loop self s"
  using assms by (auto simp: clear_loop_def UringioFile_traverse_def on_heap_def split: option.split)

text \<open>
  A socket that goes away closes nothing, marks itself closed, frees its address once, and drops one reference to its loop.
\<close>

lemma socket_dealloc_frees:
  assumes "us_addr (w_socks (ob_w s) self) = Some a" and "a \<in> h_live (w_heap (ob_w s))"
    and "ob_loop s self = Some l" and "0 < h_ref (w_heap (ob_w s)) l"
  shows "h_live (w_heap (ob_w (UringioSocket_dealloc self s))) = h_live (w_heap (ob_w s)) - {a}"
    and "h_ref (w_heap (ob_w (UringioSocket_dealloc self s))) l = h_ref (w_heap (ob_w s)) l - 1"
    and "h_faults (w_heap (ob_w (UringioSocket_dealloc self s))) = h_faults (w_heap (ob_w s))"
    and "us_closed (w_socks (ob_w (UringioSocket_dealloc self s)) self)"
  using assms by (simp_all add: UringioSocket_dealloc_def UringioSocket_clear_def clear_loop_def on_heap_def Let_def)

end
